theory Spec2Isabelle
  imports Complex_Main
begin

section \<open>Forest Pong Motion: the game engine (GameEngine.tsx)\<close>

text \<open>
  JavaScript numbers are modelled as follows: scores and the serve counter, which only
  ever hold small integers, are \<open>int\<close>; the missing-frame counter is \<open>nat\<close>;
  coordinates, velocities and thresholds are \<open>real\<close>. The gesture tests compare a
  computed distance with a threshold, so there every operation is rounded to the nearest
  double, as below; the motion of the paddles and the ball is computed on the reals, and
  \<open>NaN\<close> and overflow are outside the model. Every call of \<open>Math.random()\<close> is an
  input of the tick, a number in \<open>[0, 1)\<close>.
\<close>

subsection \<open>Double-precision arithmetic\<close>

text \<open>
  A JavaScript number is an IEEE 754 double: zero, or \<open>\<plusminus> m * 2 ^ (e - 52)\<close> with an
  integer \<open>m\<close> below \<open>2 ^ 53\<close> and \<open>- 1022 \<le> e \<le> 1023\<close>. \<open>double x\<close> is the double
  nearest to the real \<open>x\<close>, a tie going to the even \<open>m\<close>: \<open>exponent\<close> finds the binade of
  \<open>\<bar>x\<bar>\<close> by halving or doubling (at most 1023 and 1022 times, which also gives the
  spacing of the subnormal numbers), and \<open>roundEven\<close> rounds the scaled magnitude to
  an integer. The literals of the source and the results of \<open>+\<close>, \<open>-\<close>, \<open>*\<close>, \<open>/\<close> and
  \<open>Math.sqrt\<close> are the exact values rounded once. \<open>Math.pow(x, 2)\<close> is taken to be the
  rounded square and \<open>Math.hypot\<close> the rounded root of the exact sum of the squares;
  the frames evaluated below differ in one coordinate only, where \<open>Math.hypot\<close> returns
  the magnitude of the other difference.
\<close>

definition pow2 :: "int \<Rightarrow> real" where
  "pow2 k = (if 0 \<le> k then 2 ^ nat k else 1 / 2 ^ nat (- k))"

fun expUp :: "nat \<Rightarrow> real \<Rightarrow> int" where
  "expUp 0 x = 0"
| "expUp (Suc n) x = (if x < 2 then 0 else expUp n (x / 2) + 1)"

fun expDown :: "nat \<Rightarrow> real \<Rightarrow> int" where
  "expDown 0 x = 0"
| "expDown (Suc n) x = (if 1 \<le> x then 0 else expDown n (x * 2) - 1)"

definition exponent :: "real \<Rightarrow> int" where
  "exponent x = (if 1 \<le> x then expUp 1023 x else expDown 1022 x)"

definition roundEven :: "real \<Rightarrow> int" where
  "roundEven x =
     (let f = \<lfloor>x\<rfloor>; r = x - of_int f
      in if r < 1 / 2 then f else if 1 / 2 < r then f + 1 else if even f then f else f + 1)"

definition double :: "real \<Rightarrow> real" where
  "double x =
     (if x = 0 then 0
      else let u = pow2 (exponent \<bar>x\<bar> - 52)
           in sgn x * (u * of_int (roundEven (\<bar>x\<bar> / u))))"

definition dadd :: "real \<Rightarrow> real \<Rightarrow> real" where "dadd a b = double (a + b)"
definition dsub :: "real \<Rightarrow> real \<Rightarrow> real" where "dsub a b = double (a - b)"
definition dmul :: "real \<Rightarrow> real \<Rightarrow> real" where "dmul a b = double (a * b)"
definition ddiv :: "real \<Rightarrow> real \<Rightarrow> real" where "ddiv a b = double (a / b)"
definition dsqrt :: "real \<Rightarrow> real" where "dsqrt a = double (sqrt a)"
definition dsquare :: "real \<Rightarrow> real" where "dsquare a = double (a * a)"
definition dhypot :: "real \<Rightarrow> real \<Rightarrow> real" where "dhypot a b = double (sqrt (a * a + b * b))"

subsection \<open>Constants (constants.ts)\<close>

definition CANVAS_WIDTH :: real where "CANVAS_WIDTH = 1280"
definition CANVAS_HEIGHT :: real where "CANVAS_HEIGHT = 720"
definition PADDLE_WIDTH :: real where "PADDLE_WIDTH = 120"
definition PADDLE_HEIGHT :: real where "PADDLE_HEIGHT = 20"
definition BALL_RADIUS :: real where "BALL_RADIUS = 10"
definition WALL_OFFSET :: real where "WALL_OFFSET = 20"
definition PADDLE_SPEED_AI :: real where "PADDLE_SPEED_AI = 15 / 2"
definition WINNING_SCORE :: int where "WINNING_SCORE = 11"

text \<open>The decimal literals \<open>0.08\<close> and \<open>0.06\<close> denote the doubles nearest to them.\<close>

definition FIST_THRESHOLD :: real where "FIST_THRESHOLD = double (8 / 100)"
definition BEND_THRESHOLD :: real where "BEND_THRESHOLD = double (6 / 100)"

subsection \<open>Types (types.ts) and the mutable cells of the component\<close>

datatype GameState = INITIALIZING | WAITING_FOR_HAND | MENU | SERVING | PLAYING | GAME_OVER

datatype ServeTurn = PLAYER | AI

text \<open>\<open>Point\<close> has the fields \<open>x\<close> and \<open>y\<close> of the source; they are prefixed here so
  that they do not capture the variables of the theorems.\<close>

record Point =
  pt_x :: real
  pt_y :: real

record Scores =
  player :: int
  ai :: int

text \<open>The object returned by \<open>resetBall\<close> and held in the \<open>ball\<close> ref.\<close>

record Ball =
  ball_x :: real
  ball_y :: real
  ball_dx :: real
  ball_dy :: real
  baseSpeed :: real
  launchDirY :: real
  launchDx :: real

text \<open>One field per \<open>useRef\<close> cell that the game loop reads or writes, and the
  \<open>handStatus\<close> string shown by the status indicator. The React copies of \<open>gameState\<close>
  and \<open>scores\<close> and the countdown display are written together with the refs and never
  read by the loop; they are left out.\<close>

record Engine =
  paddlePlayerX :: real
  paddleAIX :: real
  ball :: Ball
  aiErrorOffset :: real
  gameState :: GameState
  scores :: Scores
  serveTurn :: ServeTurn
  servesCount :: int
  handDetected :: bool
  missingHandFrames :: nat
  handStatus :: string

text \<open>The values of \<open>Math.random()\<close> at its four call sites. Each site is reached at
  most once in a tick: \<open>startServePhase\<close> runs either from \<open>startGame\<close> (which leaves
  the phase \<open>SERVING\<close>, so no point is scored in that tick) or from \<open>scorePoint\<close>.\<close>

record Rand =
  rndLaunch :: real
  rndServeErr :: real
  rndHitErr :: real
  rndAiServe :: real

datatype error = TypeError

subsection \<open>Gestures\<close>

text \<open>The distance \<open>d\<close> of \<open>isFist\<close> and \<open>dist\<close> of \<open>isIndexBent\<close>:
  \<open>Math.sqrt(Math.pow(p.x - q.x, 2) + Math.pow(p.y - q.y, 2))\<close>, each operation rounded.\<close>

definition dist :: "Point \<Rightarrow> Point \<Rightarrow> real" where
  "dist p q =
     dsqrt (dadd (dsquare (dsub (pt_x p) (pt_x q))) (dsquare (dsub (pt_y p) (pt_y q))))"

text \<open>The mean that \<open>isFist\<close> compares with the threshold: the \<open>reduce\<close> over the four
  fingertips, from 0, each sum rounded, divided by 4.\<close>

definition avgDist :: "Point list \<Rightarrow> real" where
  "avgDist landmarks =
     (let wrist = landmarks ! 0;
          tips = map (\<lambda>i. landmarks ! i) [8, 12, 16, 20]
      in ddiv (foldl (\<lambda>acc tip. dadd acc (dist tip wrist)) 0 tips) 4)"

text \<open>Reading a landmark beyond the end of the array gives \<open>undefined\<close>, and the field
  access on it throws a \<open>TypeError\<close>.\<close>

definition isFist :: "Point list \<Rightarrow> error + bool" where
  "isFist landmarks =
     (if length landmarks \<le> 20 then Inl TypeError
      else Inr (avgDist landmarks < FIST_THRESHOLD))"

definition isIndexBent :: "Point list \<Rightarrow> error + bool" where
  "isIndexBent landmarks =
     (if length landmarks \<le> 8 then Inl TypeError
      else Inr (dist (landmarks ! 8) (landmarks ! 5) < BEND_THRESHOLD))"

definition updatePlayerPaddle :: "Point list \<Rightarrow> Engine \<Rightarrow> error + Engine" where
  "updatePlayerPaddle landmarks s =
     (if length landmarks \<le> 8 then Inl TypeError
      else
        let x = 1 - pt_x (landmarks ! 8);
            targetX = x * CANVAS_WIDTH;
            lerped = paddlePlayerX s + (targetX - paddlePlayerX s) * (2 / 10)
        in Inr (s\<lparr>paddlePlayerX :=
                   max (PADDLE_WIDTH / 2) (min (CANVAS_WIDTH - PADDLE_WIDTH / 2) lerped)\<rparr>))"

subsection \<open>Serve, start and scoring\<close>

definition resetBall :: "ServeTurn \<Rightarrow> real \<Rightarrow> Ball" where
  "resetBall turn rnd =
     (let speed = 7;
          dirY = (if turn = PLAYER then - 1 else 1);
          randomX = (rnd * 2 - 1) * 3
      in \<lparr>ball_x = CANVAS_WIDTH / 2,
          ball_y = (if turn = PLAYER
                    then CANVAS_HEIGHT - WALL_OFFSET - PADDLE_HEIGHT - BALL_RADIUS - 10
                    else WALL_OFFSET + PADDLE_HEIGHT + BALL_RADIUS + 10),
          ball_dx = 0,
          ball_dy = 0,
          baseSpeed = speed,
          launchDirY = dirY,
          launchDx = randomX\<rparr>)"

text \<open>The error offset drawn when a serve phase begins, and the one drawn when the
  player's paddle has hit the ball.\<close>

definition serveError :: "real \<Rightarrow> real" where
  "serveError rnd = (rnd - 1 / 2) * 50"

definition hitError :: "real \<Rightarrow> real" where
  "hitError rnd = (rnd - 1 / 2) * 80"

definition startServePhase :: "Rand \<Rightarrow> Engine \<Rightarrow> Engine" where
  "startServePhase r s =
     s\<lparr>gameState := SERVING,
       ball := resetBall (serveTurn s) (rndLaunch r),
       aiErrorOffset := serveError (rndServeErr r)\<rparr>"

definition startGame :: "Rand \<Rightarrow> Engine \<Rightarrow> Engine" where
  "startGame r s =
     startServePhase r
       (s\<lparr>scores := \<lparr>player = 0, ai = 0\<rparr>, servesCount := 0, serveTurn := PLAYER\<rparr>)"

definition triggerServe :: "Engine \<Rightarrow> Engine" where
  "triggerServe s =
     (if gameState s = SERVING
      then s\<lparr>ball := (ball s)\<lparr>ball_dy := baseSpeed (ball s) * launchDirY (ball s),
                              ball_dx := launchDx (ball s)\<rparr>,
             gameState := PLAYING\<rparr>
      else s)"

definition otherTurn :: "ServeTurn \<Rightarrow> ServeTurn" where
  "otherTurn t = (if t = PLAYER then AI else PLAYER)"

definition addPoint :: "ServeTurn \<Rightarrow> Scores \<Rightarrow> Scores" where
  "addPoint winner sc =
     (if winner = PLAYER then sc\<lparr>player := player sc + 1\<rparr> else sc\<lparr>ai := ai sc + 1\<rparr>)"

text \<open>The test that \<open>scorePoint\<close> makes on the scores after the point.\<close>

definition winCondition :: "int \<Rightarrow> int \<Rightarrow> bool" where
  "winCondition p a \<longleftrightarrow> (p \<ge> WINNING_SCORE \<or> a \<ge> WINNING_SCORE) \<and> \<bar>p - a\<bar> \<ge> 2"

definition scorePoint :: "ServeTurn \<Rightarrow> Rand \<Rightarrow> Engine \<Rightarrow> Engine" where
  "scorePoint winner r s =
     (let newScores = addPoint winner (scores s);
          s1 = s\<lparr>scores := newScores\<rparr>;
          p = player newScores;
          a = ai newScores
      in if winCondition p a then s1\<lparr>gameState := GAME_OVER\<rparr>
         else
           let isDeuce = (p \<ge> 10 \<and> a \<ge> 10);
               c = servesCount s1 + 1;
               switchServe = (isDeuce \<or> c \<ge> 2);
               c' = (if isDeuce then c else if c \<ge> 2 then 0 else c);
               turn' = (if switchServe then otherTurn (serveTurn s1) else serveTurn s1)
           in startServePhase r (s1\<lparr>servesCount := c', serveTurn := turn'\<rparr>))"

subsection \<open>The tick: \<open>update\<close>\<close>

text \<open>Part 1 of \<open>update\<close>: the hand frame of this tick, or its absence.\<close>

definition markDetected :: "Engine \<Rightarrow> Engine" where
  "markDetected s =
     (if \<not> handDetected s
      then (let t = s\<lparr>handDetected := True, handStatus := ''Hand Detected''\<rparr>
            in if gameState t = WAITING_FOR_HAND then t\<lparr>gameState := MENU\<rparr> else t)
      else s)"

definition markMissing :: "Engine \<Rightarrow> Engine" where
  "markMissing s =
     (let t = s\<lparr>missingHandFrames := missingHandFrames s + 1\<rparr>
      in if missingHandFrames t > 30
         then (if handDetected t
               then t\<lparr>handDetected := False, handStatus := ''Lost Tracking - Raise Hand''\<rparr>
               else t)
         else t)"

definition processInput :: "Point list option \<Rightarrow> Rand \<Rightarrow> Engine \<Rightarrow> error + Engine" where
  "processInput landmarks r s =
     (case landmarks of
        Some lm \<Rightarrow>
          (case updatePlayerPaddle lm (markDetected (s\<lparr>missingHandFrames := 0\<rparr>)) of
             Inl e \<Rightarrow> Inl e
           | Inr s2 \<Rightarrow>
               if gameState s2 = MENU \<or> gameState s2 = GAME_OVER
               then (case isFist lm of
                       Inl e \<Rightarrow> Inl e
                     | Inr f \<Rightarrow> Inr (if f then startGame r s2 else s2))
               else if gameState s2 = SERVING \<and> serveTurn s2 = PLAYER
               then (case isIndexBent lm of
                       Inl e \<Rightarrow> Inl e
                     | Inr b \<Rightarrow> Inr (if b then triggerServe s2 else s2))
               else Inr s2)
      | None \<Rightarrow> Inr (markMissing s))"

text \<open>Part 2: the opponent's paddle.\<close>

definition aiLogic :: "Engine \<Rightarrow> Engine" where
  "aiLogic s =
     (if gameState s = PLAYING \<or> gameState s = SERVING
      then
        let targetX = (if ball_dy (ball s) > 0 \<and> gameState s = PLAYING
                       then CANVAS_WIDTH / 2
                       else ball_x (ball s) + aiErrorOffset s);
            diff = targetX - paddleAIX s;
            moved = (if \<bar>diff\<bar> > PADDLE_SPEED_AI
                     then paddleAIX s + (if diff > 0 then PADDLE_SPEED_AI else - PADDLE_SPEED_AI)
                     else targetX)
        in s\<lparr>paddleAIX := max (PADDLE_WIDTH / 2) (min (CANVAS_WIDTH - PADDLE_WIDTH / 2) moved)\<rparr>
      else s)"

text \<open>Part 3: the ball. The two paddle tests and the two bounces are named so that
  the theorems can speak of a hit.\<close>

definition moveBall :: "Ball \<Rightarrow> Ball" where
  "moveBall b =
     (let b1 = b\<lparr>ball_x := ball_x b + ball_dx b, ball_y := ball_y b + ball_dy b\<rparr>
      in if ball_x b1 - BALL_RADIUS < 0 \<or> ball_x b1 + BALL_RADIUS > CANVAS_WIDTH
         then b1\<lparr>ball_dx := - ball_dx b1\<rparr> else b1)"

definition hitsAI :: "real \<Rightarrow> Ball \<Rightarrow> bool" where
  "hitsAI padX b \<longleftrightarrow>
     (ball_dy b < 0 \<and> ball_y b - BALL_RADIUS < WALL_OFFSET + PADDLE_HEIGHT
        \<and> ball_y b - BALL_RADIUS > WALL_OFFSET - 5)
     \<and> \<bar>ball_x b - padX\<bar> < PADDLE_WIDTH / 2 + BALL_RADIUS"

definition bounceAI :: "real \<Rightarrow> Ball \<Rightarrow> Ball" where
  "bounceAI padX b =
     (let impact = (ball_x b - padX) / (PADDLE_WIDTH / 2)
      in b\<lparr>ball_dy := - ball_dy b * (105 / 100),
           ball_dx := impact * 10,
           ball_y := WALL_OFFSET + PADDLE_HEIGHT + BALL_RADIUS + 1\<rparr>)"

definition hitsPlayer :: "real \<Rightarrow> Ball \<Rightarrow> bool" where
  "hitsPlayer padX b \<longleftrightarrow>
     (ball_dy b > 0 \<and> ball_y b + BALL_RADIUS > CANVAS_HEIGHT - WALL_OFFSET - PADDLE_HEIGHT
        \<and> ball_y b + BALL_RADIUS < CANVAS_HEIGHT - WALL_OFFSET + 5)
     \<and> \<bar>ball_x b - padX\<bar> < PADDLE_WIDTH / 2 + BALL_RADIUS"

definition bouncePlayer :: "real \<Rightarrow> Ball \<Rightarrow> Ball" where
  "bouncePlayer padX b =
     (let impact = (ball_x b - padX) / (PADDLE_WIDTH / 2)
      in b\<lparr>ball_dy := - ball_dy b * (105 / 100),
           ball_dx := impact * 10,
           ball_y := CANVAS_HEIGHT - WALL_OFFSET - PADDLE_HEIGHT - BALL_RADIUS - 1\<rparr>)"

text \<open>The ball after the move and the opponent's paddle test, before the player's.\<close>

definition afterAI :: "Engine \<Rightarrow> Ball" where
  "afterAI s =
     (let b = moveBall (ball s)
      in if hitsAI (paddleAIX s) b then bounceAI (paddleAIX s) b else b)"

definition playing :: "Rand \<Rightarrow> Engine \<Rightarrow> Engine" where
  "playing r s =
     (let b3 = afterAI s;
          s4 = (if hitsPlayer (paddlePlayerX s) b3
                then s\<lparr>ball := bouncePlayer (paddlePlayerX s) b3,
                       aiErrorOffset := hitError (rndHitErr r)\<rparr>
                else s\<lparr>ball := b3\<rparr>)
      in if ball_y (ball s4) < 0 then scorePoint PLAYER r s4
         else if ball_y (ball s4) > CANVAS_HEIGHT then scorePoint AI r s4
         else s4)"

definition serving :: "Rand \<Rightarrow> Engine \<Rightarrow> Engine" where
  "serving r s =
     (if serveTurn s = PLAYER
      then s\<lparr>ball := (ball s)\<lparr>ball_x := paddlePlayerX s,
                 ball_y := CANVAS_HEIGHT - WALL_OFFSET - PADDLE_HEIGHT - BALL_RADIUS - 5\<rparr>\<rparr>
      else
        let s1 = s\<lparr>ball := (ball s)\<lparr>ball_x := paddleAIX s,
                     ball_y := WALL_OFFSET + PADDLE_HEIGHT + BALL_RADIUS + 5\<rparr>\<rparr>
        in if rndAiServe r < 2 / 100 then triggerServe s1 else s1)"

definition ballPhysics :: "Rand \<Rightarrow> Engine \<Rightarrow> Engine" where
  "ballPhysics r s =
     (if gameState s = PLAYING then playing r s
      else if gameState s = SERVING then serving r s
      else s)"

definition update :: "Point list option \<Rightarrow> Rand \<Rightarrow> Engine \<Rightarrow> error + Engine" where
  "update landmarks r s =
     (case processInput landmarks r s of
        Inl e \<Rightarrow> Inl e
      | Inr s1 \<Rightarrow> Inr (ballPhysics r (aiLogic s1)))"

text \<open>A run of the loop over the frames and random draws of successive ticks; an
  exception ends the loop.\<close>

fun run :: "Engine \<Rightarrow> (Point list option \<times> Rand) list \<Rightarrow> error + Engine" where
  "run s [] = Inr s"
| "run s ((lm, r) # ts) = (case update lm r s of Inl e \<Rightarrow> Inl e | Inr s' \<Rightarrow> run s' ts)"

text \<open>The cells as the component creates them; \<open>rnd\<close> is the draw of the first
  \<open>resetBall\<close>.\<close>

definition initial :: "real \<Rightarrow> Engine" where
  "initial rnd =
     \<lparr>paddlePlayerX = CANVAS_WIDTH / 2,
      paddleAIX = CANVAS_WIDTH / 2,
      ball = resetBall PLAYER rnd,
      aiErrorOffset = 0,
      gameState = INITIALIZING,
      scores = \<lparr>player = 0, ai = 0\<rparr>,
      serveTurn = PLAYER,
      servesCount = 0,
      handDetected = False,
      missingHandFrames = 0,
      handStatus = ''Initializing Camera...''\<rparr>"

text \<open>The \<open>onloadeddata\<close> handler of the video, which starts the loop.\<close>

definition cameraReady :: "Engine \<Rightarrow> Engine" where
  "cameraReady s = s\<lparr>gameState := WAITING_FOR_HAND\<rparr>"

section \<open>Pong Motion: the game canvas (GameCanvas.tsx) and its host (App.tsx)\<close>

text \<open>
  The second game keeps the physics in \<open>GameCanvas\<close> and the phase in \<open>App\<close>, which
  hands \<open>gameState\<close>, \<open>gesture\<close> and \<open>paddleX\<close> down as props and receives the score, the
  phase and the serving side through callbacks. The model holds both components' cells
  in one record and applies a callback where the source calls it.
\<close>

subsection \<open>Constants and types\<close>

definition GAME_WIDTH :: real where "GAME_WIDTH = 800"
definition GAME_HEIGHT :: real where "GAME_HEIGHT = 1200"
definition PM_PADDLE_WIDTH :: real where "PM_PADDLE_WIDTH = 120"
definition PM_PADDLE_HEIGHT :: real where "PM_PADDLE_HEIGHT = 20"
definition PM_BALL_RADIUS :: real where "PM_BALL_RADIUS = 12"
definition PM_WINNING_SCORE :: int where "PM_WINNING_SCORE = 11"

datatype PMGameState =
  PM_LOADING | PM_MENU | PM_HAND_DETECTED | PM_COUNTDOWN | PM_PLAYING | PM_GAME_OVER

datatype HandGesture = UNKNOWN | OPEN_PALM | FIST | INDEX_BENT

text \<open>The type \<open>'player' | 'ai'\<close> of the \<open>server\<close> ref.\<close>

datatype Server = ServerPlayer | ServerAI

record PMBall =
  pm_x :: real
  pm_y :: real
  pm_dx :: real
  pm_dy :: real
  speed :: real

text \<open>The refs of \<open>GameCanvas\<close> (the first eight fields) and the state of \<open>App\<close>.\<close>

record Canvas =
  physPaddleX :: real
  aiPaddleX :: real
  pm_ball :: PMBall
  pm_scores :: Scores
  server :: Server
  pm_servesCount :: int
  isServing :: bool
  serveTimer :: real
  pm_gameState :: PMGameState
  handGesture :: HandGesture
  paddleX :: real
  appScores :: Scores
  isPlayerTurn :: bool
  resetCount :: nat
  countdown :: int

subsection \<open>Serve, scoring and launch\<close>

text \<open>\<open>now\<close> is the value of \<open>performance.now()\<close>.\<close>

definition pm_resetBall :: "Server \<Rightarrow> real \<Rightarrow> Canvas \<Rightarrow> Canvas" where
  "pm_resetBall whoServes now s =
     s\<lparr>pm_ball := (pm_ball s)\<lparr>speed := 0, pm_dx := 0, pm_dy := 0,
                              pm_x := GAME_WIDTH / 2,
                              pm_y := (if whoServes = ServerPlayer
                                       then GAME_HEIGHT - 150 else 150)\<rparr>,
       isServing := True,
       server := whoServes,
       isPlayerTurn := (whoServes = ServerPlayer),
       serveTimer := now\<rparr>"

definition checkWinCondition :: "Canvas \<Rightarrow> bool \<times> Canvas" where
  "checkWinCondition s =
     (let p = player (pm_scores s); a = ai (pm_scores s)
      in if (p \<ge> PM_WINNING_SCORE \<or> a \<ge> PM_WINNING_SCORE) \<and> \<bar>p - a\<bar> \<ge> 2
         then (True, s\<lparr>pm_gameState := PM_GAME_OVER\<rparr>)
         else (False, s))"

definition otherServer :: "Server \<Rightarrow> Server" where
  "otherServer v = (if v = ServerPlayer then ServerAI else ServerPlayer)"

text \<open>\<open>totalPoints\<close> and \<open>shouldSwitch\<close> of the source are computed and never read.\<close>

definition pm_addPoint :: "Server \<Rightarrow> Scores \<Rightarrow> Scores" where
  "pm_addPoint winner sc =
     (if winner = ServerPlayer then sc\<lparr>player := player sc + 1\<rparr> else sc\<lparr>ai := ai sc + 1\<rparr>)"

definition handleScoring :: "Server \<Rightarrow> real \<Rightarrow> Canvas \<Rightarrow> Canvas" where
  "handleScoring winner now s =
     (let sc = pm_addPoint winner (pm_scores s);
          s1 = s\<lparr>pm_scores := sc, appScores := sc\<rparr>
      in case checkWinCondition s1 of
           (True, s2) \<Rightarrow> s2
         | (False, s2) \<Rightarrow>
             let isDeuce = (player sc \<ge> 10 \<and> ai sc \<ge> 10);
                 c = pm_servesCount s2 + 1;
                 servesAllowed = (if isDeuce then 1 else 2)
             in if c \<ge> servesAllowed
                then pm_resetBall (otherServer (server s2)) now (s2\<lparr>pm_servesCount := 0\<rparr>)
                else pm_resetBall (server s2) now (s2\<lparr>pm_servesCount := c\<rparr>))"

definition launchBall :: "real \<Rightarrow> Canvas \<Rightarrow> Canvas" where
  "launchBall rnd s =
     (let dirY = (if server s = ServerPlayer then - 1 else 1);
          dirX = (rnd - 1 / 2) * (15 / 10)
      in s\<lparr>pm_ball := (pm_ball s)\<lparr>pm_dx := dirX * 8, pm_dy := dirY * 12, speed := 12\<rparr>,
           isServing := False\<rparr>)"

subsection \<open>The tick of the canvas\<close>

definition lerpPaddle :: "Canvas \<Rightarrow> Canvas" where
  "lerpPaddle s =
     (let maxX = GAME_WIDTH - PM_PADDLE_WIDTH;
          targetX = paddleX s * GAME_WIDTH - PM_PADDLE_WIDTH / 2
      in s\<lparr>physPaddleX :=
             physPaddleX s + (max 0 (min maxX targetX) - physPaddleX s) * (3 / 10)\<rparr>)"

definition serveLogic :: "real \<Rightarrow> real \<Rightarrow> Canvas \<Rightarrow> Canvas" where
  "serveLogic now rnd s =
     (if server s = ServerPlayer
      then
        let s1 = s\<lparr>pm_ball := (pm_ball s)\<lparr>pm_x := physPaddleX s + PM_PADDLE_WIDTH / 2,
                     pm_y := GAME_HEIGHT - PM_PADDLE_HEIGHT - PM_BALL_RADIUS - 10\<rparr>\<rparr>
        in if handGesture s1 = INDEX_BENT then launchBall rnd s1 else s1
      else
        let s1 = s\<lparr>aiPaddleX := pm_x (pm_ball s) - PM_PADDLE_WIDTH / 2,
                   pm_ball := (pm_ball s)\<lparr>pm_y := PM_PADDLE_HEIGHT + PM_BALL_RADIUS + 10\<rparr>\<rparr>
        in if now - serveTimer s1 > 1500 then launchBall rnd s1 else s1)"

definition pm_moveBall :: "PMBall \<Rightarrow> PMBall" where
  "pm_moveBall b =
     (let b1 = b\<lparr>pm_x := pm_x b + pm_dx b, pm_y := pm_y b + pm_dy b\<rparr>
      in if pm_x b1 - PM_BALL_RADIUS < 0 \<or> pm_x b1 + PM_BALL_RADIUS > GAME_WIDTH
         then b1\<lparr>pm_dx := - pm_dx b1\<rparr> else b1)"

definition aiMove :: "real \<Rightarrow> real \<Rightarrow> real" where
  "aiMove ballX aiX =
     (let aiTarget = ballX - PM_PADDLE_WIDTH / 2;
          aiSpeed = 8;
          a1 = (if aiX < aiTarget then aiX + aiSpeed else aiX);
          a2 = (if a1 > aiTarget then a1 - aiSpeed else a1)
      in max 0 (min (GAME_WIDTH - PM_PADDLE_WIDTH) a2))"

definition pm_hitsPlayer :: "real \<Rightarrow> PMBall \<Rightarrow> bool" where
  "pm_hitsPlayer padX b \<longleftrightarrow>
     (pm_y b + PM_BALL_RADIUS > GAME_HEIGHT - PM_PADDLE_HEIGHT - 10
        \<and> pm_y b - PM_BALL_RADIUS < GAME_HEIGHT - 10)
     \<and> (pm_x b > padX \<and> pm_x b < padX + PM_PADDLE_WIDTH)"

definition pm_bouncePlayer :: "real \<Rightarrow> PMBall \<Rightarrow> PMBall" where
  "pm_bouncePlayer padX b =
     (let hitPoint = pm_x b - (padX + PM_PADDLE_WIDTH / 2);
          normalizedHit = hitPoint / (PM_PADDLE_WIDTH / 2);
          angle = normalizedHit * (pi / 4);
          v = min (speed b + 1) 25
      in b\<lparr>speed := v, pm_dx := v * sin angle, pm_dy := - v * cos angle,
           pm_y := GAME_HEIGHT - PM_PADDLE_HEIGHT - PM_BALL_RADIUS - 10\<rparr>)"

definition pm_hitsAI :: "real \<Rightarrow> PMBall \<Rightarrow> bool" where
  "pm_hitsAI padX b \<longleftrightarrow>
     (pm_y b - PM_BALL_RADIUS < PM_PADDLE_HEIGHT + 10 \<and> pm_y b + PM_BALL_RADIUS > 10)
     \<and> (pm_x b > padX \<and> pm_x b < padX + PM_PADDLE_WIDTH)"

definition pm_bounceAI :: "real \<Rightarrow> PMBall \<Rightarrow> PMBall" where
  "pm_bounceAI padX b =
     (let hitPoint = pm_x b - (padX + PM_PADDLE_WIDTH / 2);
          normalizedHit = hitPoint / (PM_PADDLE_WIDTH / 2);
          angle = normalizedHit * (pi / 4);
          v = min (speed b + 1) 25
      in b\<lparr>speed := v, pm_dx := v * sin angle, pm_dy := v * cos angle,
           pm_y := PM_PADDLE_HEIGHT + PM_BALL_RADIUS + 10\<rparr>)"

definition physicsStep :: "real \<Rightarrow> Canvas \<Rightarrow> Canvas" where
  "physicsStep now s =
     (let b1 = pm_moveBall (pm_ball s);
          aiX = aiMove (pm_x b1) (aiPaddleX s);
          b2 = (if pm_hitsPlayer (physPaddleX s) b1
                then pm_bouncePlayer (physPaddleX s) b1 else b1);
          b3 = (if pm_hitsAI aiX b2 then pm_bounceAI aiX b2 else b2);
          s3 = s\<lparr>aiPaddleX := aiX, pm_ball := b3\<rparr>
      in if pm_y b3 > GAME_HEIGHT then handleScoring ServerAI now s3
         else if pm_y b3 < 0 then handleScoring ServerPlayer now s3
         else s3)"

definition pm_update :: "real \<Rightarrow> real \<Rightarrow> Canvas \<Rightarrow> Canvas" where
  "pm_update now rnd s =
     (if pm_gameState s \<noteq> PM_PLAYING then s
      else
        let s1 = lerpPaddle s
        in if isServing s1 then serveLogic now rnd s1 else physicsStep now s1)"

subsection \<open>The host: phases, countdown and restart\<close>

definition handleCameraReady :: "Canvas \<Rightarrow> Canvas" where
  "handleCameraReady s =
     (if pm_gameState s = PM_LOADING then s\<lparr>pm_gameState := PM_MENU\<rparr> else s)"

definition startCountdown :: "Canvas \<Rightarrow> Canvas" where
  "startCountdown s = s\<lparr>pm_gameState := PM_COUNTDOWN, countdown := 3\<rparr>"

text \<open>The effect of \<open>App\<close> on \<open>[handGesture, gameState]\<close>.\<close>

definition stateMachine :: "Canvas \<Rightarrow> Canvas" where
  "stateMachine s =
     (if pm_gameState s = PM_MENU
      then (if handGesture s = OPEN_PALM \<or> handGesture s = INDEX_BENT
            then s\<lparr>pm_gameState := PM_HAND_DETECTED\<rparr> else s)
      else if pm_gameState s = PM_HAND_DETECTED
      then (if handGesture s = FIST then startCountdown s else s)
      else s)"

text \<open>The effect of \<open>App\<close> on \<open>[countdown, gameState]\<close>, at the moment its one-second
  timer fires (while the count is positive) or, at zero, when it runs.\<close>

definition countdownTick :: "Canvas \<Rightarrow> Canvas" where
  "countdownTick s =
     (if pm_gameState s = PM_COUNTDOWN
      then (if countdown s > 0 then s\<lparr>countdown := countdown s - 1\<rparr>
            else s\<lparr>pm_gameState := PM_PLAYING\<rparr>)
      else s)"

text \<open>The effect of \<open>GameCanvas\<close> on \<open>[resetTrigger]\<close>: it runs when the component is
  mounted and after every change of \<open>resetCount\<close>.\<close>

definition resetEffect :: "real \<Rightarrow> Canvas \<Rightarrow> Canvas" where
  "resetEffect now s =
     (let s1 = pm_resetBall ServerPlayer now
                 (s\<lparr>pm_scores := \<lparr>player = 0, ai = 0\<rparr>, server := ServerPlayer,
                    pm_servesCount := 0\<rparr>)
      in s1\<lparr>appScores := \<lparr>player = 0, ai = 0\<rparr>, isPlayerTurn := True\<rparr>)"

definition restartGame :: "Canvas \<Rightarrow> Canvas" where
  "restartGame s =
     s\<lparr>appScores := \<lparr>player = 0, ai = 0\<rparr>, resetCount := resetCount s + 1,
       pm_gameState := PM_MENU\<rparr>"

text \<open>What can happen to the page: the camera becomes ready, the vision service reports
  a hand, the countdown effect advances, the "Play Again" button (shown only in
  \<open>GAME_OVER\<close>) is clicked, or an animation frame runs \<open>update\<close>. The click runs
  \<open>restartGame\<close>; the changed \<open>resetCount\<close> then runs the reset effect of the canvas.
  After a change of the gesture or of the phase the state-machine effect runs.\<close>

datatype AppEvent =
  CameraReady
| HandUpdate real HandGesture
| Countdown
| PlayAgain real
| Frame real real

definition appStep :: "AppEvent \<Rightarrow> Canvas \<Rightarrow> Canvas" where
  "appStep e s =
     (case e of
        CameraReady \<Rightarrow> stateMachine (handleCameraReady s)
      | HandUpdate px g \<Rightarrow> stateMachine (s\<lparr>paddleX := px, handGesture := g\<rparr>)
      | Countdown \<Rightarrow> countdownTick s
      | PlayAgain now \<Rightarrow>
          (if pm_gameState s = PM_GAME_OVER
           then stateMachine (resetEffect now (restartGame s)) else s)
      | Frame now rnd \<Rightarrow> pm_update now rnd s)"

definition pm_initial :: "real \<Rightarrow> Canvas" where
  "pm_initial now =
     resetEffect now
       \<lparr>physPaddleX = 1 / 2,
        aiPaddleX = 1 / 2,
        pm_ball = \<lparr>pm_x = GAME_WIDTH / 2, pm_y = GAME_HEIGHT / 2, pm_dx = 0, pm_dy = 0,
                   speed = 0\<rparr>,
        pm_scores = \<lparr>player = 0, ai = 0\<rparr>,
        server = ServerPlayer,
        pm_servesCount = 0,
        isServing = True,
        serveTimer = 0,
        pm_gameState = PM_LOADING,
        handGesture = UNKNOWN,
        paddleX = 1 / 2,
        appScores = \<lparr>player = 0, ai = 0\<rparr>,
        isPlayerTurn = True,
        resetCount = 0,
        countdown = 0\<rparr>"

fun pm_run :: "Canvas \<Rightarrow> AppEvent list \<Rightarrow> Canvas" where
  "pm_run s [] = s"
| "pm_run s (e # es) = pm_run (appStep e s) es"

subsection \<open>The gestures of the vision service (visionService.ts)\<close>

text \<open>\<open>HandLandmark\<close> adds a depth to a point; the classifier reads \<open>x\<close> and \<open>y\<close>
  only. \<open>dist\<close> of the service is \<open>Math.hypot\<close> of the two rounded differences; the
  literal \<open>0.9\<close> is a double and its product with the size of the hand is rounded.\<close>

record HandLandmark = Point +
  pt_z :: real

definition hypotDist :: "'a Point_scheme \<Rightarrow> 'a Point_scheme \<Rightarrow> real" where
  "hypotDist a b = dhypot (dsub (pt_x a) (pt_x b)) (dsub (pt_y a) (pt_y b))"

definition detectGesture :: "'a Point_scheme list \<Rightarrow> error + HandGesture" where
  "detectGesture landmarks =
     (if length landmarks \<le> 20 then Inl TypeError
      else
        let wrist = landmarks ! 0;
            indexMcp = landmarks ! 5;
            handSize = hypotDist wrist indexMcp;
            isFingerCurled = (\<lambda>tipIdx mcpIdx.
              hypotDist (landmarks ! tipIdx) (landmarks ! mcpIdx)
                < dmul handSize (double (9 / 10)));
            isIndexCurled = isFingerCurled 8 5;
            isMiddleCurled = isFingerCurled 12 9;
            isRingCurled = isFingerCurled 16 13;
            isPinkyCurled = isFingerCurled 20 17
        in Inr (if isIndexCurled \<and> isMiddleCurled \<and> isRingCurled \<and> isPinkyCurled then FIST
                else if isIndexCurled then INDEX_BENT
                else OPEN_PALM))"

section \<open>Notions used by the theorems\<close>

subsection \<open>Serve rotation\<close>

text \<open>The server of each point of a sequence of rallies with the given winners: each
  point is served and then scored. The draws do not influence the rotation.\<close>

fun servers :: "Rand \<Rightarrow> Engine \<Rightarrow> ServeTurn list \<Rightarrow> ServeTurn list" where
  "servers r s [] = []"
| "servers r s (w # ws) = serveTurn s # servers r (scorePoint w r (triggerServe s)) ws"

fun pm_servers :: "real \<Rightarrow> Canvas \<Rightarrow> Server list \<Rightarrow> Server list" where
  "pm_servers now s [] = []"
| "pm_servers now s (w # ws) =
     server s # pm_servers now (handleScoring w now (launchBall (1 / 2) s)) ws"

text \<open>The state after such a sequence of rallies.\<close>

fun points :: "Rand \<Rightarrow> Engine \<Rightarrow> ServeTurn list \<Rightarrow> Engine" where
  "points r s [] = s"
| "points r s (w # ws) = points r (scorePoint w r (triggerServe s)) ws"

text \<open>The same harness for the canvas of the other game.\<close>

fun pm_points :: "real \<Rightarrow> Canvas \<Rightarrow> Server list \<Rightarrow> Canvas" where
  "pm_points now s [] = s"
| "pm_points now s (w # ws) = pm_points now (handleScoring w now (launchBall (1 / 2) s)) ws"

text \<open>The match has not ended before any of the points of the sequence is played.\<close>

fun matchOn :: "Rand \<Rightarrow> Engine \<Rightarrow> ServeTurn list \<Rightarrow> bool" where
  "matchOn r s [] = True"
| "matchOn r s (w # ws) =
     (gameState s \<noteq> GAME_OVER \<and> matchOn r (scorePoint w r (triggerServe s)) ws)"

fun pm_matchOn :: "real \<Rightarrow> Canvas \<Rightarrow> Server list \<Rightarrow> bool" where
  "pm_matchOn now s [] = True"
| "pm_matchOn now s (w # ws) =
     (pm_gameState s \<noteq> PM_GAME_OVER
      \<and> pm_matchOn now (handleScoring w now (launchBall (1 / 2) s)) ws)"

text \<open>The rotation in closed form. When \<open>n\<close> points of a match have been played and
  the match is still on, the next point is served by the player if \<open>n div 2\<close> is even
  and by the opponent otherwise, as long as \<open>n < 20\<close>: two serves each, the player
  first. From 20 points on, which a match that is still on reaches only at 10-10, the
  sides alternate. The serve counter then is \<open>n mod 2\<close> below 20 points; from 20 on the
  engine keeps counting and the canvas keeps it at zero.\<close>

definition serverOfPoint :: "nat \<Rightarrow> ServeTurn" where
  "serverOfPoint n =
     (if n < 20 then (if even (n div 2) then PLAYER else AI)
      else (if even n then PLAYER else AI))"

definition pm_serverOfPoint :: "nat \<Rightarrow> Server" where
  "pm_serverOfPoint n =
     (if n < 20 then (if even (n div 2) then ServerPlayer else ServerAI)
      else (if even n then ServerPlayer else ServerAI))"

definition servesAfter :: "nat \<Rightarrow> int" where
  "servesAfter n = (if n < 20 then int (n mod 2) else int n - 18)"

definition pm_servesAfter :: "nat \<Rightarrow> int" where
  "pm_servesAfter n = (if n < 20 then int (n mod 2) else 0)"

text \<open>A match of \<open>n\<close> points that is still on, with the rotation as above.\<close>

definition rotationAt :: "Engine \<Rightarrow> nat \<Rightarrow> bool" where
  "rotationAt s n \<longleftrightarrow>
     0 \<le> player (scores s) \<and> 0 \<le> ai (scores s)
     \<and> player (scores s) + ai (scores s) = int n
     \<and> \<not> winCondition (player (scores s)) (ai (scores s))
     \<and> serveTurn s = serverOfPoint n \<and> servesCount s = servesAfter n"

definition pm_rotationAt :: "Canvas \<Rightarrow> nat \<Rightarrow> bool" where
  "pm_rotationAt s n \<longleftrightarrow>
     0 \<le> player (pm_scores s) \<and> 0 \<le> ai (pm_scores s)
     \<and> player (pm_scores s) + ai (pm_scores s) = int n
     \<and> \<not> ((PM_WINNING_SCORE \<le> player (pm_scores s) \<or> PM_WINNING_SCORE \<le> ai (pm_scores s))
          \<and> 2 \<le> \<bar>player (pm_scores s) - ai (pm_scores s)\<bar>)
     \<and> server s = pm_serverOfPoint n \<and> pm_servesCount s = pm_servesAfter n"

text \<open>The serve counter of the engine is 0 or 1 below deuce and is never negative;
  the counter of the canvas is always 0 or 1. Both hold in every state the games reach.\<close>

definition serveCountOk :: "Engine \<Rightarrow> bool" where
  "serveCountOk s \<longleftrightarrow>
     0 \<le> servesCount s
     \<and> (servesCount s \<le> 1 \<or> (10 \<le> player (scores s) \<and> 10 \<le> ai (scores s)))"

definition pm_serveCountOk :: "Canvas \<Rightarrow> bool" where
  "pm_serveCountOk s \<longleftrightarrow> 0 \<le> pm_servesCount s \<and> pm_servesCount s \<le> 1"

subsection \<open>Rallies\<close>

text \<open>A paddle is hit in the physics step that starts from \<open>s\<close>.\<close>

definition paddleHit :: "Engine \<Rightarrow> bool" where
  "paddleHit s \<longleftrightarrow>
     hitsAI (paddleAIX s) (moveBall (ball s)) \<or> hitsPlayer (paddlePlayerX s) (afterAI s)"

text \<open>The ticks of a run stay within one rally: the phase is \<open>PLAYING\<close> before and
  after each of them.\<close>

fun inRally :: "Engine \<Rightarrow> (Point list option \<times> Rand) list \<Rightarrow> bool" where
  "inRally s [] = (gameState s = PLAYING)"
| "inRally s ((lm, r) # ts) =
     (gameState s = PLAYING
      \<and> (case update lm r s of Inl e \<Rightarrow> False | Inr s' \<Rightarrow> inRally s' ts))"

text \<open>The number of ticks of a run in which a paddle is hit.\<close>

fun rallyHits :: "Engine \<Rightarrow> (Point list option \<times> Rand) list \<Rightarrow> nat" where
  "rallyHits s [] = 0"
| "rallyHits s ((lm, r) # ts) =
     (case processInput lm r s of
        Inl e \<Rightarrow> 0
      | Inr s1 \<Rightarrow>
          (if gameState s1 = PLAYING \<and> paddleHit (aiLogic s1) then 1 else 0)
          + rallyHits (ballPhysics r (aiLogic s1)) ts)"

subsection \<open>Paddles within the field\<close>

text \<open>The engine keeps the centre of each paddle; the canvas of the other game keeps
  the left edge, so the centre is half a paddle further right. In the canvas the
  opponent's paddle follows the ball while the opponent serves, and the ball then rests
  in the middle of the field.\<close>

definition inField :: "real \<Rightarrow> bool" where
  "inField v \<longleftrightarrow> PADDLE_WIDTH / 2 \<le> v \<and> v \<le> CANVAS_WIDTH - PADDLE_WIDTH / 2"

definition pm_inField :: "real \<Rightarrow> bool" where
  "pm_inField v \<longleftrightarrow>
     PM_PADDLE_WIDTH / 2 \<le> v + PM_PADDLE_WIDTH / 2
     \<and> v + PM_PADDLE_WIDTH / 2 \<le> GAME_WIDTH - PM_PADDLE_WIDTH / 2"

definition pm_paddlesOk :: "Canvas \<Rightarrow> bool" where
  "pm_paddlesOk s \<longleftrightarrow>
     pm_inField (physPaddleX s) \<and> pm_inField (aiPaddleX s)
     \<and> (if isServing s \<and> server s = ServerAI then pm_x (pm_ball s) = GAME_WIDTH / 2
        else True)"

subsection \<open>The mean distance of the fingertips from the wrist\<close>

text \<open>The exact Euclidean distance of two landmarks, and the exact mean of the distances
  of the four fingertips from the wrist: the quantity that the specification names.\<close>

definition euclid :: "'a Point_scheme \<Rightarrow> 'a Point_scheme \<Rightarrow> real" where
  "euclid p q = sqrt ((pt_x p - pt_x q)\<^sup>2 + (pt_y p - pt_y q)\<^sup>2)"

definition meanEuclid :: "'a Point_scheme list \<Rightarrow> real" where
  "meanEuclid lm = (euclid (lm ! 8) (lm ! 0) + euclid (lm ! 12) (lm ! 0)
                    + euclid (lm ! 16) (lm ! 0) + euclid (lm ! 20) (lm ! 0)) / 4"

subsection \<open>Hand presence\<close>

text \<open>The number of ticks without a hand frame at the end of a run.\<close>

definition absentTail :: "(Point list option \<times> Rand) list \<Rightarrow> nat" where
  "absentTail ts = length (takeWhile (\<lambda>t. fst t = None) (rev ts))"

subsection \<open>A fresh match\<close>

definition pm_fresh :: "Canvas \<Rightarrow> bool" where
  "pm_fresh s \<longleftrightarrow>
     pm_scores s = \<lparr>player = 0, ai = 0\<rparr> \<and> pm_servesCount s = 0 \<and> server s = ServerPlayer"

text \<open>Outside a match the canvas is fresh.\<close>

definition beforeMatchFresh :: "Canvas \<Rightarrow> bool" where
  "beforeMatchFresh c \<longleftrightarrow>
     pm_gameState c = PM_PLAYING \<or> pm_gameState c = PM_GAME_OVER \<or> pm_fresh c"

section \<open>Example states\<close>

text \<open>Concrete states and draws at which the theorems below are exercised.\<close>

definition draws :: Rand where
  "draws = \<lparr>rndLaunch = 1 / 2, rndServeErr = 1 / 2, rndHitErr = 0, rndAiServe = 1 / 2\<rparr>"

text \<open>The player leads 10-9 and the ball is about to leave the field behind the
  opponent.\<close>

definition matchPoint :: Engine where
  "matchPoint =
     \<lparr>paddlePlayerX = 640, paddleAIX = 200,
      ball = \<lparr>ball_x = 640, ball_y = 5, ball_dx = 0, ball_dy = - 7, baseSpeed = 7,
              launchDirY = - 1, launchDx = 0\<rparr>,
      aiErrorOffset = 0, gameState = PLAYING, scores = \<lparr>player = 10, ai = 9\<rparr>,
      serveTurn = AI, servesCount = 1, handDetected = True, missingHandFrames = 0,
      handStatus = ''Hand Detected''\<rparr>"

text \<open>The state one tick later: the match is won 11-9.\<close>

definition wonMatch :: Engine where
  "wonMatch =
     matchPoint\<lparr>paddleAIX := 415 / 2,
       ball := (ball matchPoint)\<lparr>ball_y := - 2\<rparr>,
       gameState := GAME_OVER, scores := \<lparr>player = 11, ai = 9\<rparr>,
       missingHandFrames := 1\<rparr>"

text \<open>The same situation in the other game.\<close>

definition pm_matchPoint :: Canvas where
  "pm_matchPoint =
     \<lparr>physPaddleX = 340, aiPaddleX = 0,
      pm_ball = \<lparr>pm_x = 400, pm_y = 5, pm_dx = 0, pm_dy = - 12, speed = 12\<rparr>,
      pm_scores = \<lparr>player = 10, ai = 9\<rparr>, server = ServerAI, pm_servesCount = 1,
      isServing = False, serveTimer = 0, pm_gameState = PM_PLAYING, handGesture = OPEN_PALM,
      paddleX = 1 / 2, appScores = \<lparr>player = 10, ai = 9\<rparr>, isPlayerTurn = False,
      resetCount = 0, countdown = 0\<rparr>"

text \<open>A match in which the player has won the first ten points and the opponent the
  next nine.\<close>

definition tenNine :: Engine where
  "tenNine = points draws (startGame draws matchPoint) (replicate 10 PLAYER @ replicate 9 AI)"

text \<open>The ball comes down onto the middle of the player's paddle.\<close>

definition returnState :: Engine where
  "returnState =
     \<lparr>paddlePlayerX = 640, paddleAIX = 640,
      ball = \<lparr>ball_x = 640, ball_y = 665, ball_dx = 0, ball_dy = 7, baseSpeed = 7,
              launchDirY = 1, launchDx = 0\<rparr>,
      aiErrorOffset = 0, gameState = PLAYING, scores = \<lparr>player = 0, ai = 0\<rparr>,
      serveTurn = AI, servesCount = 0, handDetected = True, missingHandFrames = 0,
      handStatus = ''Hand Detected''\<rparr>"

text \<open>The state one tick later, when no hand frame has arrived: the ball has bounced.\<close>

definition returned :: Engine where
  "returned =
     returnState\<lparr>ball := (ball returnState)\<lparr>ball_y := 669, ball_dy := - (147 / 20)\<rparr>,
       aiErrorOffset := - 40, missingHandFrames := 1\<rparr>"

text \<open>The same ball in the middle of the field.\<close>

definition midField :: Engine where
  "midField = returnState\<lparr>ball := (ball returnState)\<lparr>ball_y := 300\<rparr>\<rparr>"

text \<open>The other game: the opponent has served straight down the middle (speed 12) and
  the ball reaches the player's paddle 40 pixels right of the paddle's centre.\<close>

definition pm_firstReturn :: Canvas where
  "pm_firstReturn =
     \<lparr>physPaddleX = 300, aiPaddleX = 340,
      pm_ball = \<lparr>pm_x = 400, pm_y = 1158, pm_dx = 0, pm_dy = 12, speed = 12\<rparr>,
      pm_scores = \<lparr>player = 0, ai = 0\<rparr>, server = ServerAI, pm_servesCount = 0,
      isServing = False, serveTimer = 0, pm_gameState = PM_PLAYING, handGesture = OPEN_PALM,
      paddleX = 9 / 20, appScores = \<lparr>player = 0, ai = 0\<rparr>, isPlayerTurn = False,
      resetCount = 0, countdown = 0\<rparr>"

text \<open>Hand frames of 21 landmarks, with coordinates that are doubles: one far outside
  the camera image, whose index fingertip asks for a paddle position beyond the right
  wall; a closed hand, with every landmark at the wrist; an open hand; and a hand whose
  four fingertips are \<open>FIST_THRESHOLD\<close> away from the wrist, along the axes.\<close>

definition farFrame :: "Point list" where
  "farFrame = replicate 21 \<lparr>pt_x = - 3, pt_y = 0\<rparr>"

definition fistFrame :: "Point list" where
  "fistFrame = replicate 21 \<lparr>pt_x = 1 / 2, pt_y = 1 / 2\<rparr>"

definition openFrame :: "Point list" where
  "openFrame =
     (replicate 21 \<lparr>pt_x = 1 / 2, pt_y = 1 / 2\<rparr>)
       [8 := \<lparr>pt_x = 1 / 2, pt_y = 3 / 8\<rparr>, 12 := \<lparr>pt_x = 1 / 2, pt_y = 3 / 8\<rparr>,
        16 := \<lparr>pt_x = 1 / 2, pt_y = 3 / 8\<rparr>, 20 := \<lparr>pt_x = 1 / 2, pt_y = 3 / 8\<rparr>]"

definition thresholdFrame :: "Point list" where
  "thresholdFrame =
     (replicate 21 \<lparr>pt_x = 0, pt_y = 0\<rparr>)
       [8 := \<lparr>pt_x = FIST_THRESHOLD, pt_y = 0\<rparr>, 12 := \<lparr>pt_x = 0, pt_y = FIST_THRESHOLD\<rparr>,
        16 := \<lparr>pt_x = FIST_THRESHOLD, pt_y = 0\<rparr>, 20 := \<lparr>pt_x = 0, pt_y = FIST_THRESHOLD\<rparr>]"

text \<open>A hand with the wrist at the origin and three fingertips on the horizontal axis,
  at the doubles \<open>farTip\<close> (about 0.32), \<open>nearTip\<close> (about \<open>7 * 10 ^ (- 9)\<close>) and \<open>tinyTip\<close>
  (about \<open>4 * 10 ^ (- 17)\<close>); the fourth fingertip is at the wrist. The exact mean of the
  four distances is \<open>2 ^ (- 58)\<close> below the double \<open>0.08\<close>; the last sum of the \<open>reduce\<close> is
  rounded up.\<close>

definition farTip :: real where "farTip = 5764607394185216 / 2 ^ 54"
definition nearTip :: real where "nearTip = 128849018 / 2 ^ 54"
definition tinyTip :: real where "tinyTip = 3 / 2 ^ 56"

definition roundingFrame :: "Point list" where
  "roundingFrame =
     (replicate 21 \<lparr>pt_x = 0, pt_y = 0\<rparr>)
       [8 := \<lparr>pt_x = farTip, pt_y = 0\<rparr>, 12 := \<lparr>pt_x = nearTip, pt_y = 0\<rparr>,
        16 := \<lparr>pt_x = tinyTip, pt_y = 0\<rparr>]"

text \<open>Two hands held upright in the middle of the image. The large one is close to the
  camera and closed: the wrist is half the image below the knuckles, the fingertips
  are 5/16 from the knuckles and 3/16 from the wrist. The small one is far from the
  camera and open: the knuckles are 1/64 from the wrist, the fingertips 1/64 further.\<close>

definition bigFist :: "Point list" where
  "bigFist =
     (replicate 21 \<lparr>pt_x = 1 / 2, pt_y = 1 / 4\<rparr>)
       [0 := \<lparr>pt_x = 1 / 2, pt_y = 3 / 4\<rparr>,
        8 := \<lparr>pt_x = 1 / 2, pt_y = 9 / 16\<rparr>, 12 := \<lparr>pt_x = 1 / 2, pt_y = 9 / 16\<rparr>,
        16 := \<lparr>pt_x = 1 / 2, pt_y = 9 / 16\<rparr>, 20 := \<lparr>pt_x = 1 / 2, pt_y = 9 / 16\<rparr>]"

definition smallOpenHand :: "Point list" where
  "smallOpenHand =
     (replicate 21 \<lparr>pt_x = 1 / 2, pt_y = 31 / 64\<rparr>)
       [0 := \<lparr>pt_x = 1 / 2, pt_y = 1 / 2\<rparr>,
        8 := \<lparr>pt_x = 1 / 2, pt_y = 15 / 32\<rparr>, 12 := \<lparr>pt_x = 1 / 2, pt_y = 15 / 32\<rparr>,
        16 := \<lparr>pt_x = 1 / 2, pt_y = 15 / 32\<rparr>, 20 := \<lparr>pt_x = 1 / 2, pt_y = 15 / 32\<rparr>]"

text \<open>The loop has just started and waits for a hand; and the state one tick later,
  when an open hand has been seen in the middle of the image.\<close>

definition waiting :: Engine where
  "waiting = cameraReady (initial (1 / 2))"

definition handSeen :: Engine where
  "handSeen = waiting\<lparr>gameState := MENU, handDetected := True, handStatus := ''Hand Detected''\<rparr>"

text \<open>A rally in which the hand has been out of sight for 30 ticks.\<close>

definition handAway :: Engine where
  "handAway = midField\<lparr>missingHandFrames := 30\<rparr>"



text \<open>The tick after the match was won, with a fist in the camera: the next match.\<close>

definition rematch :: Engine where
  "rematch =
     wonMatch\<lparr>paddleAIX := 215,
       ball := (resetBall PLAYER (1 / 2))\<lparr>ball_y := 665\<rparr>,
       gameState := SERVING, scores := \<lparr>player = 0, ai = 0\<rparr>, serveTurn := PLAYER,
       servesCount := 0, missingHandFrames := 0\<rparr>"

text \<open>The events of the other game up to the end of the countdown.\<close>

definition toCountdown :: "AppEvent list" where
  "toCountdown =
     [CameraReady, HandUpdate (1 / 2) OPEN_PALM, HandUpdate (1 / 2) FIST,
      Countdown, Countdown, Countdown]"

section \<open>Basic facts\<close>

lemmas fp_consts = CANVAS_WIDTH_def CANVAS_HEIGHT_def PADDLE_WIDTH_def PADDLE_HEIGHT_def
  BALL_RADIUS_def WALL_OFFSET_def PADDLE_SPEED_AI_def

lemmas pm_consts = GAME_WIDTH_def GAME_HEIGHT_def PM_PADDLE_WIDTH_def PM_PADDLE_HEIGHT_def
  PM_BALL_RADIUS_def

subsection \<open>What each part of the tick leaves alone\<close>

lemma startServePhase_fields [simp]:
  "gameState (startServePhase r s) = SERVING"
  "scores (startServePhase r s) = scores s"
  "serveTurn (startServePhase r s) = serveTurn s"
  "servesCount (startServePhase r s) = servesCount s"
  "aiErrorOffset (startServePhase r s) = serveError (rndServeErr r)"
  "paddlePlayerX (startServePhase r s) = paddlePlayerX s"
  "paddleAIX (startServePhase r s) = paddleAIX s"
  "handDetected (startServePhase r s) = handDetected s"
  "missingHandFrames (startServePhase r s) = missingHandFrames s"
  "handStatus (startServePhase r s) = handStatus s"
  "ball (startServePhase r s) = resetBall (serveTurn s) (rndLaunch r)"
  by (simp_all add: startServePhase_def)

lemma startGame_fields [simp]:
  "gameState (startGame r s) = SERVING"
  "scores (startGame r s) = \<lparr>player = 0, ai = 0\<rparr>"
  "serveTurn (startGame r s) = PLAYER"
  "servesCount (startGame r s) = 0"
  "aiErrorOffset (startGame r s) = serveError (rndServeErr r)"
  "paddlePlayerX (startGame r s) = paddlePlayerX s"
  "paddleAIX (startGame r s) = paddleAIX s"
  "handDetected (startGame r s) = handDetected s"
  "missingHandFrames (startGame r s) = missingHandFrames s"
  "handStatus (startGame r s) = handStatus s"
  by (simp_all add: startGame_def)

lemma triggerServe_fields [simp]:
  "scores (triggerServe s) = scores s"
  "serveTurn (triggerServe s) = serveTurn s"
  "servesCount (triggerServe s) = servesCount s"
  "aiErrorOffset (triggerServe s) = aiErrorOffset s"
  "paddlePlayerX (triggerServe s) = paddlePlayerX s"
  "paddleAIX (triggerServe s) = paddleAIX s"
  "handDetected (triggerServe s) = handDetected s"
  "missingHandFrames (triggerServe s) = missingHandFrames s"
  "handStatus (triggerServe s) = handStatus s"
  by (simp_all add: triggerServe_def)

lemma triggerServe_gameState:
  "gameState (triggerServe s) = (if gameState s = SERVING then PLAYING else gameState s)"
  by (simp add: triggerServe_def)

lemma scorePoint_fields [simp]:
  "scores (scorePoint w r s) = addPoint w (scores s)"
  "paddlePlayerX (scorePoint w r s) = paddlePlayerX s"
  "paddleAIX (scorePoint w r s) = paddleAIX s"
  "handDetected (scorePoint w r s) = handDetected s"
  "missingHandFrames (scorePoint w r s) = missingHandFrames s"
  "handStatus (scorePoint w r s) = handStatus s"
  by (simp_all add: scorePoint_def Let_def)

lemma scorePoint_gameState:
  "gameState (scorePoint w r s) =
     (if winCondition (player (addPoint w (scores s))) (ai (addPoint w (scores s)))
      then GAME_OVER else SERVING)"
  by (simp add: scorePoint_def Let_def)

lemma scorePoint_aiErrorOffset:
  "aiErrorOffset (scorePoint w r s) =
     (if winCondition (player (addPoint w (scores s))) (ai (addPoint w (scores s)))
      then aiErrorOffset s else serveError (rndServeErr r))"
  by (simp add: scorePoint_def Let_def)

lemma markDetected_fields [simp]:
  "scores (markDetected s) = scores s"
  "serveTurn (markDetected s) = serveTurn s"
  "servesCount (markDetected s) = servesCount s"
  "aiErrorOffset (markDetected s) = aiErrorOffset s"
  "paddlePlayerX (markDetected s) = paddlePlayerX s"
  "paddleAIX (markDetected s) = paddleAIX s"
  "ball (markDetected s) = ball s"
  "missingHandFrames (markDetected s) = missingHandFrames s"
  "handDetected (markDetected s) = True"
  by (simp_all add: markDetected_def Let_def)

lemma markDetected_gameState:
  "gameState (markDetected s) =
     (if \<not> handDetected s \<and> gameState s = WAITING_FOR_HAND then MENU else gameState s)"
  by (simp add: markDetected_def Let_def)

lemma markDetected_handStatus:
  "handStatus (markDetected s) = (if handDetected s then handStatus s else ''Hand Detected'')"
  by (simp add: markDetected_def Let_def)

lemma markMissing_fields [simp]:
  "gameState (markMissing s) = gameState s"
  "scores (markMissing s) = scores s"
  "serveTurn (markMissing s) = serveTurn s"
  "servesCount (markMissing s) = servesCount s"
  "aiErrorOffset (markMissing s) = aiErrorOffset s"
  "paddlePlayerX (markMissing s) = paddlePlayerX s"
  "paddleAIX (markMissing s) = paddleAIX s"
  "ball (markMissing s) = ball s"
  "missingHandFrames (markMissing s) = missingHandFrames s + 1"
  by (simp_all add: markMissing_def Let_def)

lemma markMissing_handDetected:
  "handDetected (markMissing s) = (handDetected s \<and> missingHandFrames s + 1 \<le> 30)"
  by (auto simp: markMissing_def Let_def)

lemma updatePlayerPaddle_Inr:
  assumes "updatePlayerPaddle f s = Inr s2"
  shows "gameState s2 = gameState s" "scores s2 = scores s" "serveTurn s2 = serveTurn s"
    "servesCount s2 = servesCount s" "aiErrorOffset s2 = aiErrorOffset s"
    "paddleAIX s2 = paddleAIX s" "ball s2 = ball s" "handDetected s2 = handDetected s"
    "missingHandFrames s2 = missingHandFrames s" "handStatus s2 = handStatus s"
    "PADDLE_WIDTH / 2 \<le> paddlePlayerX s2" "paddlePlayerX s2 \<le> CANVAS_WIDTH - PADDLE_WIDTH / 2"
  using assms
  by (auto simp: updatePlayerPaddle_def Let_def fp_consts split: if_splits)

lemma aiLogic_fields [simp]:
  "gameState (aiLogic s) = gameState s"
  "scores (aiLogic s) = scores s"
  "serveTurn (aiLogic s) = serveTurn s"
  "servesCount (aiLogic s) = servesCount s"
  "aiErrorOffset (aiLogic s) = aiErrorOffset s"
  "paddlePlayerX (aiLogic s) = paddlePlayerX s"
  "ball (aiLogic s) = ball s"
  "handDetected (aiLogic s) = handDetected s"
  "missingHandFrames (aiLogic s) = missingHandFrames s"
  "handStatus (aiLogic s) = handStatus s"
  by (simp_all add: aiLogic_def Let_def)

lemma serving_fields [simp]:
  "scores (serving r s) = scores s"
  "serveTurn (serving r s) = serveTurn s"
  "servesCount (serving r s) = servesCount s"
  "aiErrorOffset (serving r s) = aiErrorOffset s"
  "paddlePlayerX (serving r s) = paddlePlayerX s"
  "paddleAIX (serving r s) = paddleAIX s"
  "handDetected (serving r s) = handDetected s"
  "missingHandFrames (serving r s) = missingHandFrames s"
  "handStatus (serving r s) = handStatus s"
  by (simp_all add: serving_def Let_def)

lemma serving_gameState:
  "gameState s = SERVING \<Longrightarrow>
   gameState (serving r s) =
     (if serveTurn s = AI \<and> rndAiServe r < 2 / 100 then PLAYING else SERVING)"
  by (cases "serveTurn s") (simp_all add: serving_def Let_def triggerServe_def)

lemma playing_fields [simp]:
  "paddlePlayerX (playing r s) = paddlePlayerX s"
  "paddleAIX (playing r s) = paddleAIX s"
  "handDetected (playing r s) = handDetected s"
  "missingHandFrames (playing r s) = missingHandFrames s"
  "handStatus (playing r s) = handStatus s"
  by (simp_all add: playing_def Let_def)

lemma ballPhysics_fields [simp]:
  "paddlePlayerX (ballPhysics r s) = paddlePlayerX s"
  "paddleAIX (ballPhysics r s) = paddleAIX s"
  "handDetected (ballPhysics r s) = handDetected s"
  "missingHandFrames (ballPhysics r s) = missingHandFrames s"
  "handStatus (ballPhysics r s) = handStatus s"
  by (simp_all add: ballPhysics_def)

subsection \<open>The end of a match\<close>

lemma winCondition_max:
  "winCondition p a \<longleftrightarrow> max p a \<ge> WINNING_SCORE \<and> \<bar>p - a\<bar> \<ge> 2"
  by (auto simp: winCondition_def)

lemma processInput_gameState:
  assumes "processInput lm r s = Inr s1"
  shows "gameState s1 = gameState s
       \<or> (gameState s = WAITING_FOR_HAND \<and> gameState s1 \<in> {MENU, SERVING})
       \<or> (gameState s \<in> {MENU, GAME_OVER} \<and> gameState s1 = SERVING)
       \<or> (gameState s = SERVING \<and> gameState s1 = PLAYING)"
proof (cases lm)
  case None
  with assms show ?thesis by (auto simp: processInput_def)
next
  case (Some f)
  let ?m = "markDetected (s\<lparr>missingHandFrames := 0\<rparr>)"
  from assms Some obtain s2 where p: "updatePlayerPaddle f ?m = Inr s2"
    by (auto simp: processInput_def split: sum.splits)
  have g2: "gameState s2 = gameState ?m"
    using updatePlayerPaddle_Inr(1) [OF p] .
  have gm: "gameState ?m = gameState s \<or> (gameState s = WAITING_FOR_HAND \<and> gameState ?m = MENU)"
    by (simp add: markDetected_gameState)
  from assms Some p have "s1 = s2 \<or> s1 = startGame r s2 \<and> gameState s2 \<in> {MENU, GAME_OVER}
      \<or> s1 = triggerServe s2 \<and> gameState s2 = SERVING"
    by (auto simp: processInput_def split: sum.splits if_splits)
  then show ?thesis
    using g2 gm by (auto simp: triggerServe_gameState)
qed

lemma playing_gameState:
  "gameState s = PLAYING \<Longrightarrow> gameState (playing r s) = GAME_OVER \<Longrightarrow>
   winCondition (player (scores (playing r s))) (ai (scores (playing r s)))"
  by (auto simp: playing_def Let_def scorePoint_gameState split: if_splits)

lemma ballPhysics_gameState:
  assumes "gameState (ballPhysics r s) = GAME_OVER" "gameState s \<noteq> GAME_OVER"
  shows "gameState s = PLAYING
       \<and> winCondition (player (scores (ballPhysics r s))) (ai (scores (ballPhysics r s)))"
proof -
  have "gameState s = PLAYING"
    using assms by (auto simp: ballPhysics_def serving_gameState split: if_splits)
  then show ?thesis
    using assms playing_gameState [of s r] by (simp add: ballPhysics_def)
qed

lemma update_enters_GAME_OVER:
  assumes "update lm r s = Inr s'" "gameState s' = GAME_OVER" "gameState s \<noteq> GAME_OVER"
  shows "winCondition (player (scores s')) (ai (scores s'))"
proof -
  from assms(1) obtain s1 where p: "processInput lm r s = Inr s1"
    and s': "s' = ballPhysics r (aiLogic s1)"
    by (auto simp: update_def split: sum.splits)
  have "gameState s1 \<noteq> GAME_OVER"
    using processInput_gameState [OF p] assms(3) by auto
  then show ?thesis
    using ballPhysics_gameState [of r "aiLogic s1"] assms(2) s' by simp
qed

lemma update_GAME_OVER_terminal:
  assumes "gameState s = GAME_OVER" "update lm r s = Inr s'"
  shows "(gameState s' = GAME_OVER \<and> scores s' = scores s)
       \<or> (\<exists>f. lm = Some f \<and> isFist f = Inr True \<and> gameState s' = SERVING)"
proof (cases lm)
  case None
  with assms show ?thesis
    by (auto simp: update_def processInput_def ballPhysics_def)
next
  case (Some f)
  let ?m = "markDetected (s\<lparr>missingHandFrames := 0\<rparr>)"
  from assms Some obtain s2 where p: "updatePlayerPaddle f ?m = Inr s2"
    by (auto simp: update_def processInput_def split: sum.splits)
  have g2: "gameState s2 = GAME_OVER" "scores s2 = scores s"
    using updatePlayerPaddle_Inr(1,2) [OF p] assms(1) by (simp_all add: markDetected_gameState)
  from assms Some p g2 obtain b where b: "isFist f = Inr b"
    and s': "s' = ballPhysics r (aiLogic (if b then startGame r s2 else s2))"
    by (auto simp: update_def processInput_def split: sum.splits)
  show ?thesis
  proof (cases b)
    case True
    then have "gameState s' = SERVING"
      using s' by (simp add: ballPhysics_def serving_gameState)
    with Some b True show ?thesis by simp
  next
    case False
    then show ?thesis using s' g2 by (simp add: ballPhysics_def)
  qed
qed

subsection \<open>Pong Motion: what each step leaves alone\<close>

lemma pm_resetBall_fields [simp]:
  "pm_scores (pm_resetBall w now s) = pm_scores s"
  "pm_servesCount (pm_resetBall w now s) = pm_servesCount s"
  "server (pm_resetBall w now s) = w"
  "isServing (pm_resetBall w now s) = True"
  "pm_gameState (pm_resetBall w now s) = pm_gameState s"
  "physPaddleX (pm_resetBall w now s) = physPaddleX s"
  "aiPaddleX (pm_resetBall w now s) = aiPaddleX s"
  "pm_x (pm_ball (pm_resetBall w now s)) = GAME_WIDTH / 2"
  "serveTimer (pm_resetBall w now s) = now"
  "handGesture (pm_resetBall w now s) = handGesture s"
  "paddleX (pm_resetBall w now s) = paddleX s"
  by (simp_all add: pm_resetBall_def)

lemma checkWinCondition_fst:
  "fst (checkWinCondition s) \<longleftrightarrow>
     max (player (pm_scores s)) (ai (pm_scores s)) \<ge> PM_WINNING_SCORE
       \<and> \<bar>player (pm_scores s) - ai (pm_scores s)\<bar> \<ge> 2"
  by (auto simp: checkWinCondition_def Let_def)

lemma checkWinCondition_snd:
  "snd (checkWinCondition s) =
     (if fst (checkWinCondition s) then s\<lparr>pm_gameState := PM_GAME_OVER\<rparr> else s)"
  by (simp add: checkWinCondition_def Let_def)

lemma handleScoring_scores [simp]:
  "pm_scores (handleScoring w now s) = pm_addPoint w (pm_scores s)"
  by (simp add: handleScoring_def pm_addPoint_def Let_def checkWinCondition_def split: prod.splits)

lemma handleScoring_fields [simp]:
  "physPaddleX (handleScoring w now s) = physPaddleX s"
  "aiPaddleX (handleScoring w now s) = aiPaddleX s"
  "handGesture (handleScoring w now s) = handGesture s"
  "paddleX (handleScoring w now s) = paddleX s"
  by (simp_all add: handleScoring_def Let_def checkWinCondition_def split: prod.splits)

lemma handleScoring_gameState:
  "pm_gameState (handleScoring w now s) =
     (if max (player (pm_addPoint w (pm_scores s))) (ai (pm_addPoint w (pm_scores s)))
           \<ge> PM_WINNING_SCORE
         \<and> \<bar>player (pm_addPoint w (pm_scores s)) - ai (pm_addPoint w (pm_scores s))\<bar> \<ge> 2
      then PM_GAME_OVER else pm_gameState s)"
  by (auto simp: handleScoring_def pm_addPoint_def Let_def checkWinCondition_def split: prod.splits)

lemma launchBall_fields [simp]:
  "pm_scores (launchBall rnd s) = pm_scores s"
  "pm_servesCount (launchBall rnd s) = pm_servesCount s"
  "server (launchBall rnd s) = server s"
  "isServing (launchBall rnd s) = False"
  "pm_gameState (launchBall rnd s) = pm_gameState s"
  "physPaddleX (launchBall rnd s) = physPaddleX s"
  "aiPaddleX (launchBall rnd s) = aiPaddleX s"
  "handGesture (launchBall rnd s) = handGesture s"
  "paddleX (launchBall rnd s) = paddleX s"
  by (simp_all add: launchBall_def Let_def)

lemma lerpPaddle_fields [simp]:
  "pm_scores (lerpPaddle s) = pm_scores s"
  "pm_servesCount (lerpPaddle s) = pm_servesCount s"
  "server (lerpPaddle s) = server s"
  "isServing (lerpPaddle s) = isServing s"
  "pm_gameState (lerpPaddle s) = pm_gameState s"
  "aiPaddleX (lerpPaddle s) = aiPaddleX s"
  "pm_ball (lerpPaddle s) = pm_ball s"
  "serveTimer (lerpPaddle s) = serveTimer s"
  "handGesture (lerpPaddle s) = handGesture s"
  "paddleX (lerpPaddle s) = paddleX s"
  by (simp_all add: lerpPaddle_def Let_def)

lemma serveLogic_fields [simp]:
  "pm_scores (serveLogic now rnd s) = pm_scores s"
  "pm_servesCount (serveLogic now rnd s) = pm_servesCount s"
  "server (serveLogic now rnd s) = server s"
  "pm_gameState (serveLogic now rnd s) = pm_gameState s"
  "physPaddleX (serveLogic now rnd s) = physPaddleX s"
  by (simp_all add: serveLogic_def Let_def)

lemma physicsStep_gameState:
  "pm_gameState (physicsStep now s) = PM_GAME_OVER \<Longrightarrow> pm_gameState s \<noteq> PM_GAME_OVER \<Longrightarrow>
   max (player (pm_scores (physicsStep now s))) (ai (pm_scores (physicsStep now s)))
       \<ge> PM_WINNING_SCORE
     \<and> \<bar>player (pm_scores (physicsStep now s)) - ai (pm_scores (physicsStep now s))\<bar> \<ge> 2"
  by (auto simp: physicsStep_def Let_def handleScoring_gameState split: if_splits)

lemma pm_update_enters_GAME_OVER:
  assumes "pm_gameState (pm_update now rnd s) = PM_GAME_OVER" "pm_gameState s \<noteq> PM_GAME_OVER"
  shows "max (player (pm_scores (pm_update now rnd s))) (ai (pm_scores (pm_update now rnd s)))
       \<ge> PM_WINNING_SCORE
     \<and> \<bar>player (pm_scores (pm_update now rnd s)) - ai (pm_scores (pm_update now rnd s))\<bar> \<ge> 2"
proof -
  have play: "pm_gameState s = PM_PLAYING"
    using assms by (auto simp: pm_update_def split: if_splits)
  show ?thesis
  proof (cases "isServing s")
    case True
    then show ?thesis using assms play by (simp add: pm_update_def Let_def)
  next
    case False
    then have "pm_update now rnd s = physicsStep now (lerpPaddle s)"
      using play by (simp add: pm_update_def Let_def)
    then show ?thesis
      using physicsStep_gameState [of now "lerpPaddle s"] assms by simp
  qed
qed

lemma stateMachine_GAME_OVER:
  "pm_gameState (stateMachine s) = PM_GAME_OVER \<longleftrightarrow> pm_gameState s = PM_GAME_OVER"
  by (auto simp: stateMachine_def startCountdown_def)

lemma stateMachine_scores [simp]:
  "pm_scores (stateMachine s) = pm_scores s"
  "pm_servesCount (stateMachine s) = pm_servesCount s"
  "server (stateMachine s) = server s"
  "isServing (stateMachine s) = isServing s"
  "physPaddleX (stateMachine s) = physPaddleX s"
  "aiPaddleX (stateMachine s) = aiPaddleX s"
  "pm_ball (stateMachine s) = pm_ball s"
  by (simp_all add: stateMachine_def startCountdown_def)

lemma appStep_enters_GAME_OVER:
  assumes "pm_gameState (appStep e s) = PM_GAME_OVER" "pm_gameState s \<noteq> PM_GAME_OVER"
  shows "max (player (pm_scores (appStep e s))) (ai (pm_scores (appStep e s)))
       \<ge> PM_WINNING_SCORE
     \<and> \<bar>player (pm_scores (appStep e s)) - ai (pm_scores (appStep e s))\<bar> \<ge> 2"
proof (cases e)
  case (Frame now rnd)
  then show ?thesis using pm_update_enters_GAME_OVER [of now rnd s] assms by (simp add: appStep_def)
qed (use assms in \<open>auto simp: appStep_def stateMachine_GAME_OVER handleCameraReady_def
      countdownTick_def split: if_splits\<close>)

lemma appStep_GAME_OVER_terminal:
  assumes "pm_gameState s = PM_GAME_OVER"
  shows "(pm_gameState (appStep e s) = PM_GAME_OVER \<and> pm_scores (appStep e s) = pm_scores s)
       \<or> (\<exists>now. e = PlayAgain now)"
  using assms
  by (cases e) (auto simp: appStep_def stateMachine_GAME_OVER handleCameraReady_def
      countdownTick_def pm_update_def)

section \<open>The claims\<close>

subsection \<open>C1: the end of a match\<close>

lemma matchPoint_tick: "update None draws matchPoint = Inr wonMatch"
  by (simp add: update_def processInput_def markMissing_def aiLogic_def ballPhysics_def
      playing_def afterAI_def moveBall_def hitsAI_def hitsPlayer_def scorePoint_def addPoint_def
      winCondition_def WINNING_SCORE_def fp_consts matchPoint_def wonMatch_def draws_def Let_def)

lemma wonMatch_tick: "update None draws wonMatch = Inr (wonMatch\<lparr>missingHandFrames := 2\<rparr>)"
  by (simp add: update_def processInput_def markMissing_def aiLogic_def ballPhysics_def
       matchPoint_def wonMatch_def draws_def Let_def)

lemma pm_matchPoint_tick:
  "appStep (Frame 0 (1 / 2)) pm_matchPoint =
     pm_matchPoint\<lparr>physPaddleX := 340, aiPaddleX := 8,
       pm_ball := (pm_ball pm_matchPoint)\<lparr>pm_y := - 7\<rparr>,
       pm_scores := \<lparr>player = 11, ai = 9\<rparr>, appScores := \<lparr>player = 11, ai = 9\<rparr>,
       pm_gameState := PM_GAME_OVER\<rparr>"
  by (simp add: appStep_def pm_update_def lerpPaddle_def physicsStep_def pm_moveBall_def
      aiMove_def pm_hitsPlayer_def pm_hitsAI_def handleScoring_def pm_addPoint_def
      checkWinCondition_def PM_WINNING_SCORE_def pm_consts pm_matchPoint_def Let_def)

text \<open>
  Claim C1. In both games the point that has just been scored ends the match exactly
  when, for the scores \<open>p\<close> and \<open>a\<close> after the point, \<open>max p a \<ge> WINNING_SCORE\<close> and
  \<open>\<bar>p - a\<bar> \<ge> 2\<close>. A tick (an event of the page) that enters \<open>GAME_OVER\<close> does so at
  such scores, so never earlier. Once in \<open>GAME_OVER\<close>, the phase and the scores stay as
  they are until the restart: a fist in the engine, the "Play Again" button in the
  other game.
\<close>

theorem game_over_iff_win_by_two:
  "(gameState (scorePoint w r s) = GAME_OVER \<longleftrightarrow>
      max (player (scores (scorePoint w r s))) (ai (scores (scorePoint w r s))) \<ge> WINNING_SCORE
      \<and> \<bar>player (scores (scorePoint w r s)) - ai (scores (scorePoint w r s))\<bar> \<ge> 2)
   \<and> (update lm1 r1 s1 = Inr t1 \<and> gameState s1 \<noteq> GAME_OVER \<and> gameState t1 = GAME_OVER \<longrightarrow>
        max (player (scores t1)) (ai (scores t1)) \<ge> WINNING_SCORE
        \<and> \<bar>player (scores t1) - ai (scores t1)\<bar> \<ge> 2)
   \<and> (gameState s2 = GAME_OVER \<and> update lm2 r2 s2 = Inr t2 \<longrightarrow>
        (gameState t2 = GAME_OVER \<and> scores t2 = scores s2)
        \<or> (\<exists>f. lm2 = Some f \<and> isFist f = Inr True \<and> gameState t2 = SERVING))
   \<and> (pm_gameState c \<noteq> PM_GAME_OVER \<longrightarrow>
        (pm_gameState (handleScoring v now c) = PM_GAME_OVER \<longleftrightarrow>
           max (player (pm_scores (handleScoring v now c)))
               (ai (pm_scores (handleScoring v now c))) \<ge> PM_WINNING_SCORE
           \<and> \<bar>player (pm_scores (handleScoring v now c))
                - ai (pm_scores (handleScoring v now c))\<bar> \<ge> 2))
   \<and> (pm_gameState c1 \<noteq> PM_GAME_OVER \<and> pm_gameState (appStep e1 c1) = PM_GAME_OVER \<longrightarrow>
        max (player (pm_scores (appStep e1 c1))) (ai (pm_scores (appStep e1 c1)))
          \<ge> PM_WINNING_SCORE
        \<and> \<bar>player (pm_scores (appStep e1 c1)) - ai (pm_scores (appStep e1 c1))\<bar> \<ge> 2)
   \<and> (pm_gameState c2 = PM_GAME_OVER \<longrightarrow>
        (pm_gameState (appStep e2 c2) = PM_GAME_OVER
           \<and> pm_scores (appStep e2 c2) = pm_scores c2)
        \<or> (\<exists>t. e2 = PlayAgain t))"
proof (intro conjI impI)
  show "gameState (scorePoint w r s) = GAME_OVER \<longleftrightarrow>
      max (player (scores (scorePoint w r s))) (ai (scores (scorePoint w r s))) \<ge> WINNING_SCORE
      \<and> \<bar>player (scores (scorePoint w r s)) - ai (scores (scorePoint w r s))\<bar> \<ge> 2"
    by (simp add: scorePoint_gameState winCondition_max)
next
  assume a: "update lm1 r1 s1 = Inr t1 \<and> gameState s1 \<noteq> GAME_OVER \<and> gameState t1 = GAME_OVER"
  then have "winCondition (player (scores t1)) (ai (scores t1))"
    using update_enters_GAME_OVER by blast
  then show "max (player (scores t1)) (ai (scores t1)) \<ge> WINNING_SCORE"
    and "\<bar>player (scores t1) - ai (scores t1)\<bar> \<ge> 2"
    by (simp_all add: winCondition_max)
next
  assume "gameState s2 = GAME_OVER \<and> update lm2 r2 s2 = Inr t2"
  then show "(gameState t2 = GAME_OVER \<and> scores t2 = scores s2)
        \<or> (\<exists>f. lm2 = Some f \<and> isFist f = Inr True \<and> gameState t2 = SERVING)"
    using update_GAME_OVER_terminal by blast
next
  assume "pm_gameState c \<noteq> PM_GAME_OVER"
  then show "pm_gameState (handleScoring v now c) = PM_GAME_OVER \<longleftrightarrow>
           max (player (pm_scores (handleScoring v now c)))
               (ai (pm_scores (handleScoring v now c))) \<ge> PM_WINNING_SCORE
           \<and> \<bar>player (pm_scores (handleScoring v now c))
                - ai (pm_scores (handleScoring v now c))\<bar> \<ge> 2"
    by (simp add: handleScoring_gameState)
next
  assume a: "pm_gameState c1 \<noteq> PM_GAME_OVER \<and> pm_gameState (appStep e1 c1) = PM_GAME_OVER"
  then show "max (player (pm_scores (appStep e1 c1))) (ai (pm_scores (appStep e1 c1)))
          \<ge> PM_WINNING_SCORE"
    and "\<bar>player (pm_scores (appStep e1 c1)) - ai (pm_scores (appStep e1 c1))\<bar> \<ge> 2"
    using appStep_enters_GAME_OVER [of e1 c1] by simp_all
next
  assume "pm_gameState c2 = PM_GAME_OVER"
  then show "(pm_gameState (appStep e2 c2) = PM_GAME_OVER
           \<and> pm_scores (appStep e2 c2) = pm_scores c2)
        \<or> (\<exists>t. e2 = PlayAgain t)"
    using appStep_GAME_OVER_terminal by blast
qed

theorem game_over_iff_win_by_two_witness:
  "gameState (scorePoint PLAYER draws matchPoint) = GAME_OVER
   \<and> update None draws matchPoint = Inr wonMatch
   \<and> gameState matchPoint \<noteq> GAME_OVER \<and> gameState wonMatch = GAME_OVER
   \<and> max (player (scores wonMatch)) (ai (scores wonMatch)) \<ge> WINNING_SCORE
   \<and> \<bar>player (scores wonMatch) - ai (scores wonMatch)\<bar> \<ge> 2
   \<and> update None draws wonMatch = Inr (wonMatch\<lparr>missingHandFrames := 2\<rparr>)
   \<and> pm_gameState pm_matchPoint \<noteq> PM_GAME_OVER
   \<and> pm_gameState (handleScoring ServerPlayer 0 pm_matchPoint) = PM_GAME_OVER
   \<and> pm_gameState (appStep (Frame 0 (1 / 2)) pm_matchPoint) = PM_GAME_OVER
   \<and> pm_gameState (appStep (Frame 0 (1 / 2))
        (appStep (Frame 0 (1 / 2)) pm_matchPoint)) = PM_GAME_OVER"
  using game_over_iff_win_by_two [where w = PLAYER and r = draws and s = matchPoint
      and ?lm1.0 = None and ?r1.0 = draws and ?s1.0 = matchPoint and ?t1.0 = wonMatch
      and ?lm2.0 = None and ?r2.0 = draws and ?s2.0 = wonMatch
      and ?t2.0 = "wonMatch\<lparr>missingHandFrames := 2\<rparr>"
      and c = pm_matchPoint and v = ServerPlayer and now = 0
      and ?c1.0 = pm_matchPoint and ?e1.0 = "Frame 0 (1 / 2)"
      and ?c2.0 = "appStep (Frame 0 (1 / 2)) pm_matchPoint" and ?e2.0 = "Frame 0 (1 / 2)"]
    matchPoint_tick wonMatch_tick pm_matchPoint_tick
  by (simp add: matchPoint_def wonMatch_def pm_matchPoint_def WINNING_SCORE_def
      PM_WINNING_SCORE_def scorePoint_def addPoint_def winCondition_def Let_def
      handleScoring_def pm_addPoint_def checkWinCondition_def)

subsection \<open>C2: serve rotation\<close>

lemma scorePoint_serveTurn:
  "serveTurn (scorePoint w r s) =
     (let p = player (addPoint w (scores s)); a = ai (addPoint w (scores s))
      in if winCondition p a then serveTurn s
         else if (10 \<le> p \<and> 10 \<le> a) \<or> 2 \<le> servesCount s + 1
         then otherTurn (serveTurn s) else serveTurn s)"
  by (simp add: scorePoint_def Let_def)

lemma scorePoint_servesCount:
  "servesCount (scorePoint w r s) =
     (let p = player (addPoint w (scores s)); a = ai (addPoint w (scores s))
      in if winCondition p a then servesCount s
         else if 10 \<le> p \<and> 10 \<le> a then servesCount s + 1
         else if 2 \<le> servesCount s + 1 then 0 else servesCount s + 1)"
  by (simp add: scorePoint_def Let_def)

lemma addPoint_mono:
  "player sc \<le> player (addPoint w sc)" "ai sc \<le> ai (addPoint w sc)"
  by (simp_all add: addPoint_def)

lemma scorePoint_serveCountOk:
  assumes "serveCountOk s"
  shows "serveCountOk (scorePoint w r s)"
proof -
  have "player (scores s) \<le> player (addPoint w (scores s))"
    "ai (scores s) \<le> ai (addPoint w (scores s))"
    by (rule addPoint_mono)+
  then show ?thesis
    using assms
    by (auto simp: serveCountOk_def scorePoint_servesCount Let_def)
qed

lemma serveCountOk_cong:
  "servesCount t = servesCount s \<Longrightarrow> scores t = scores s \<Longrightarrow> serveCountOk t = serveCountOk s"
  by (simp add: serveCountOk_def)

lemma processInput_serveCountOk:
  assumes "processInput lm r s = Inr s1" "serveCountOk s"
  shows "serveCountOk s1"
proof (cases lm)
  case None
  with assms show ?thesis by (auto simp: processInput_def serveCountOk_def)
next
  case (Some f)
  let ?m = "markDetected (s\<lparr>missingHandFrames := 0\<rparr>)"
  from assms Some obtain s2 where p: "updatePlayerPaddle f ?m = Inr s2"
    by (auto simp: processInput_def split: sum.splits)
  have ok2: "serveCountOk s2"
    using updatePlayerPaddle_Inr(2,4) [OF p] assms(2) by (simp add: serveCountOk_def)
  from assms Some p have "s1 = s2 \<or> s1 = startGame r s2 \<or> s1 = triggerServe s2"
    by (auto simp: processInput_def split: sum.splits if_splits)
  then show ?thesis
    using ok2 by (auto simp: serveCountOk_def)
qed

lemma ballPhysics_serveCountOk:
  assumes "serveCountOk s"
  shows "serveCountOk (ballPhysics r s)"
proof -
  have a: "serveCountOk (s\<lparr>ball := b, aiErrorOffset := e\<rparr>)" "serveCountOk (s\<lparr>ball := b\<rparr>)" for b e
    using assms by (simp_all add: serveCountOk_def)
  have "serveCountOk (playing r s)"
    unfolding playing_def Let_def
    by (simp add: scorePoint_serveCountOk a)
  moreover have "serveCountOk (serving r s)"
    using assms by (simp add: serveCountOk_def)
  ultimately show ?thesis
    using assms by (simp add: ballPhysics_def)
qed

lemma update_serveCountOk:
  assumes "update lm r s = Inr s'" "serveCountOk s"
  shows "serveCountOk s'"
proof -
  from assms(1) obtain s1 where p: "processInput lm r s = Inr s1"
    and s': "s' = ballPhysics r (aiLogic s1)"
    by (auto simp: update_def split: sum.splits)
  have "serveCountOk (aiLogic s1)"
    using processInput_serveCountOk [OF p assms(2)] by (simp add: serveCountOk_def)
  then show ?thesis
    unfolding s' by (rule ballPhysics_serveCountOk)
qed

lemma run_serveCountOk:
  "run s ts = Inr s' \<Longrightarrow> serveCountOk s \<Longrightarrow> serveCountOk s'"
proof (induction ts arbitrary: s)
  case Nil
  then show ?case by simp
next
  case (Cons t ts)
  obtain lm r where t: "t = (lm, r)" by (cases t)
  from Cons.prems(1) t obtain s1 where u: "update lm r s = Inr s1" and rest: "run s1 ts = Inr s'"
    by (auto split: sum.splits)
  show ?case
    using Cons.IH [OF rest] update_serveCountOk [OF u Cons.prems(2)] by simp
qed

lemma initial_serveCountOk: "serveCountOk (cameraReady (initial rnd))"
  by (simp add: serveCountOk_def cameraReady_def initial_def)

lemma handleScoring_server:
  "server (handleScoring w now s) =
     (let p = player (pm_addPoint w (pm_scores s)); a = ai (pm_addPoint w (pm_scores s))
      in if (PM_WINNING_SCORE \<le> p \<or> PM_WINNING_SCORE \<le> a) \<and> 2 \<le> \<bar>p - a\<bar> then server s
         else if (if 10 \<le> p \<and> 10 \<le> a then 1 else 2) \<le> pm_servesCount s + 1
         then otherServer (server s) else server s)"
  by (simp add: handleScoring_def Let_def checkWinCondition_def)

lemma handleScoring_servesCount:
  "pm_servesCount (handleScoring w now s) =
     (let p = player (pm_addPoint w (pm_scores s)); a = ai (pm_addPoint w (pm_scores s))
      in if (PM_WINNING_SCORE \<le> p \<or> PM_WINNING_SCORE \<le> a) \<and> 2 \<le> \<bar>p - a\<bar>
         then pm_servesCount s
         else if (if 10 \<le> p \<and> 10 \<le> a then 1 else 2) \<le> pm_servesCount s + 1
         then 0 else pm_servesCount s + 1)"
  by (simp add: handleScoring_def Let_def checkWinCondition_def)

lemma handleScoring_serveCountOk:
  "pm_serveCountOk s \<Longrightarrow> pm_serveCountOk (handleScoring w now s)"
  by (auto simp: pm_serveCountOk_def handleScoring_servesCount Let_def)

lemma pm_serveCountOk_cong:
  "pm_servesCount t = pm_servesCount s \<Longrightarrow> pm_serveCountOk t = pm_serveCountOk s"
  by (simp add: pm_serveCountOk_def)

lemma physicsStep_cases:
  "(\<exists>a b. physicsStep now s = s\<lparr>aiPaddleX := a, pm_ball := b\<rparr>)
   \<or> (\<exists>a b w. physicsStep now s = handleScoring w now (s\<lparr>aiPaddleX := a, pm_ball := b\<rparr>))"
proof -
  define a where "a = aiMove (pm_x (pm_moveBall (pm_ball s))) (aiPaddleX s)"
  define b2 where "b2 = (if pm_hitsPlayer (physPaddleX s) (pm_moveBall (pm_ball s))
                then pm_bouncePlayer (physPaddleX s) (pm_moveBall (pm_ball s))
                else pm_moveBall (pm_ball s))"
  define b3 where "b3 = (if pm_hitsAI a b2 then pm_bounceAI a b2 else b2)"
  have "physicsStep now s =
      (if pm_y b3 > GAME_HEIGHT then handleScoring ServerAI now (s\<lparr>aiPaddleX := a, pm_ball := b3\<rparr>)
       else if pm_y b3 < 0 then handleScoring ServerPlayer now (s\<lparr>aiPaddleX := a, pm_ball := b3\<rparr>)
       else s\<lparr>aiPaddleX := a, pm_ball := b3\<rparr>)"
    by (simp add: physicsStep_def Let_def a_def b2_def b3_def)
  then show ?thesis by metis
qed

lemma physicsStep_serveCountOk:
  assumes "pm_serveCountOk s"
  shows "pm_serveCountOk (physicsStep now s)"
proof -
  have "pm_serveCountOk (s\<lparr>aiPaddleX := a, pm_ball := b\<rparr>)" for a b
    using assms by (simp add: pm_serveCountOk_def)
  then show ?thesis
    using physicsStep_cases [of now s] handleScoring_serveCountOk by metis
qed

lemma pm_update_serveCountOk:
  assumes "pm_serveCountOk s"
  shows "pm_serveCountOk (pm_update now rnd s)"
proof -
  have l: "pm_serveCountOk (lerpPaddle s)"
    using assms by (simp add: pm_serveCountOk_def)
  then have "pm_serveCountOk (serveLogic now rnd (lerpPaddle s))"
    by (simp add: pm_serveCountOk_def)
  then show ?thesis
    using assms l physicsStep_serveCountOk [of "lerpPaddle s" now]
    by (simp add: pm_update_def Let_def)
qed

lemma resetEffect_fields [simp]:
  "pm_scores (resetEffect now s) = \<lparr>player = 0, ai = 0\<rparr>"
  "pm_servesCount (resetEffect now s) = 0"
  "server (resetEffect now s) = ServerPlayer"
  "isServing (resetEffect now s) = True"
  "pm_gameState (resetEffect now s) = pm_gameState s"
  "physPaddleX (resetEffect now s) = physPaddleX s"
  "aiPaddleX (resetEffect now s) = aiPaddleX s"
  "pm_x (pm_ball (resetEffect now s)) = GAME_WIDTH / 2"
  "handGesture (resetEffect now s) = handGesture s"
  by (simp_all add: resetEffect_def Let_def)

lemma countdownTick_fields [simp]:
  "pm_scores (countdownTick s) = pm_scores s"
  "pm_servesCount (countdownTick s) = pm_servesCount s"
  "server (countdownTick s) = server s"
  "isServing (countdownTick s) = isServing s"
  "physPaddleX (countdownTick s) = physPaddleX s"
  "aiPaddleX (countdownTick s) = aiPaddleX s"
  "pm_ball (countdownTick s) = pm_ball s"
  by (simp_all add: countdownTick_def)

lemma handleCameraReady_fields [simp]:
  "pm_scores (handleCameraReady s) = pm_scores s"
  "pm_servesCount (handleCameraReady s) = pm_servesCount s"
  "server (handleCameraReady s) = server s"
  "isServing (handleCameraReady s) = isServing s"
  "physPaddleX (handleCameraReady s) = physPaddleX s"
  "aiPaddleX (handleCameraReady s) = aiPaddleX s"
  "pm_ball (handleCameraReady s) = pm_ball s"
  "handGesture (handleCameraReady s) = handGesture s"
  by (simp_all add: handleCameraReady_def)

lemma appStep_serveCountOk:
  assumes "pm_serveCountOk s"
  shows "pm_serveCountOk (appStep e s)"
proof (cases e)
  case (Frame now rnd)
  then show ?thesis using pm_update_serveCountOk [OF assms] by (simp add: appStep_def)
qed (use assms in \<open>simp_all add: appStep_def pm_serveCountOk_def\<close>)

lemma pm_run_serveCountOk:
  "pm_serveCountOk s \<Longrightarrow> pm_serveCountOk (pm_run s es)"
  by (induction es arbitrary: s) (simp_all add: appStep_serveCountOk)

lemma pm_initial_serveCountOk: "pm_serveCountOk (pm_initial now)"
  by (simp add: pm_serveCountOk_def pm_initial_def)

lemma servers_scenario:
  "servers r1 (startGame r2 s1) [PLAYER, PLAYER, AI, AI, PLAYER]
     = [PLAYER, PLAYER, AI, AI, PLAYER]"
  by (simp add: scorePoint_serveTurn scorePoint_servesCount addPoint_def winCondition_def
      WINNING_SCORE_def otherTurn_def Let_def)

lemma pm_servers_scenario:
  "pm_servers t1 (resetEffect t2 c1)
       [ServerPlayer, ServerPlayer, ServerAI, ServerAI, ServerPlayer]
     = [ServerPlayer, ServerPlayer, ServerAI, ServerAI, ServerPlayer]"
  by (simp add: handleScoring_server handleScoring_servesCount pm_addPoint_def
      PM_WINNING_SCORE_def otherServer_def Let_def)

lemma serverOfPoint_Suc:
  "serverOfPoint (Suc n) =
     (if 20 \<le> Suc n \<or> odd n then otherTurn (serverOfPoint n) else serverOfPoint n)"
proof -
  consider "n < 19" | "n = 19" | "20 \<le> n" by linarith
  then show ?thesis
  proof cases
    case 1
    have "Suc n div 2 = (if odd n then Suc (n div 2) else n div 2)"
      by (auto elim!: oddE evenE)
    then show ?thesis using 1 by (auto simp: serverOfPoint_def otherTurn_def)
  next
    case 2
    then show ?thesis by (simp add: serverOfPoint_def otherTurn_def)
  next
    case 3
    then show ?thesis by (auto simp: serverOfPoint_def otherTurn_def)
  qed
qed

lemma servesAfter_Suc:
  "servesAfter (Suc n) =
     (if 20 \<le> Suc n then servesAfter n + 1 else if odd n then 0 else servesAfter n + 1)"
proof -
  have "Suc n mod 2 = (if odd n then 0 else 1)" by (auto simp: mod2_eq_if)
  moreover have "n mod 2 = (if odd n then 1 else 0)" by (auto simp: mod2_eq_if)
  ultimately show ?thesis
    by (auto simp: servesAfter_def)
qed

lemma servesAfter_two: "n < 20 \<Longrightarrow> 2 \<le> servesAfter n + 1 \<longleftrightarrow> odd n"
  by (auto simp: servesAfter_def mod2_eq_if)

lemma deuce_iff_twenty:
  assumes "0 \<le> p" "0 \<le> a" "p + a = int n" "\<not> winCondition p a"
  shows "10 \<le> p \<and> 10 \<le> a \<longleftrightarrow> 20 \<le> n"
  using assms by (auto simp: winCondition_def WINNING_SCORE_def)

lemma addPoint_sum:
  "player (addPoint w sc) + ai (addPoint w sc) = player sc + ai sc + 1"
  by (simp add: addPoint_def)

lemma scorePoint_rotationAt:
  assumes "rotationAt s n" "gameState (scorePoint w r s) \<noteq> GAME_OVER"
  shows "rotationAt (scorePoint w r s) (Suc n)"
proof -
  let ?p = "player (addPoint w (scores s))" and ?a = "ai (addPoint w (scores s))"
  have nw: "\<not> winCondition ?p ?a"
    using assms(2) by (simp add: scorePoint_gameState split: if_splits)
  have nn: "0 \<le> ?p" "0 \<le> ?a"
    using assms(1) addPoint_mono [of "scores s" w] by (auto simp: rotationAt_def)
  have sum: "?p + ?a = int (Suc n)"
    using assms(1) by (simp add: addPoint_sum rotationAt_def)
  have deuce: "10 \<le> ?p \<and> 10 \<le> ?a \<longleftrightarrow> 20 \<le> Suc n"
    by (rule deuce_iff_twenty [OF nn sum nw])
  have st: "serveTurn s = serverOfPoint n" and sc: "servesCount s = servesAfter n"
    using assms(1) by (simp_all add: rotationAt_def)
  have two: "\<not> 20 \<le> Suc n \<Longrightarrow> 2 \<le> servesAfter n + 1 \<longleftrightarrow> odd n"
    using servesAfter_two [of n] by simp
  have "serveTurn (scorePoint w r s) = serverOfPoint (Suc n)"
    using nw deuce two st sc
    by (auto simp: scorePoint_serveTurn Let_def serverOfPoint_Suc)
  moreover have "servesCount (scorePoint w r s) = servesAfter (Suc n)"
    using nw deuce two sc
    by (auto simp: scorePoint_servesCount Let_def servesAfter_Suc)
  ultimately show ?thesis
    using nw nn sum by (simp add: rotationAt_def)
qed

lemma triggerServe_rotationAt: "rotationAt (triggerServe s) n = rotationAt s n"
  by (simp add: rotationAt_def)

lemma startGame_rotationAt: "rotationAt (startGame r s) 0"
  by (simp add: rotationAt_def winCondition_def WINNING_SCORE_def serverOfPoint_def
      servesAfter_def)

lemma map_upt_shift:
  "map (\<lambda>k. f (n + k)) [0..<Suc m] = f n # map (\<lambda>k. f (Suc n + k)) [0..<m]"
  by (simp add: map_upt_Suc del: upt_Suc)

lemma rotation_over_points:
  "rotationAt s n \<Longrightarrow> matchOn r s ws \<Longrightarrow>
   servers r s ws = map (\<lambda>k. serverOfPoint (n + k)) [0..<length ws]
   \<and> (gameState (points r s ws) \<noteq> GAME_OVER \<longrightarrow> rotationAt (points r s ws) (n + length ws))"
proof (induction ws arbitrary: s n)
  case Nil
  then show ?case by simp
next
  case (Cons w ws)
  let ?s' = "scorePoint w r (triggerServe s)"
  have m: "matchOn r ?s' ws" using Cons.prems(2) by simp
  have st: "serveTurn s = serverOfPoint n"
    using Cons.prems(1) by (simp add: rotationAt_def)
  have step: "gameState ?s' \<noteq> GAME_OVER \<Longrightarrow> rotationAt ?s' (Suc n)"
    using scorePoint_rotationAt [of "triggerServe s" n w r] Cons.prems(1)
    by (simp add: triggerServe_rotationAt)
  show ?case
  proof (cases ws)
    case Nil
    then show ?thesis using st step by simp
  next
    case (Cons v vs)
    then have "gameState ?s' \<noteq> GAME_OVER" using m by simp
    then have "rotationAt ?s' (Suc n)" by (rule step)
    then have ih: "servers r ?s' ws = map (\<lambda>k. serverOfPoint (Suc n + k)) [0..<length ws]
       \<and> (gameState (points r ?s' ws) \<noteq> GAME_OVER
            \<longrightarrow> rotationAt (points r ?s' ws) (Suc n + length ws))"
      using Cons.IH m by blast
    have "servers r s (w # ws) = serverOfPoint n # servers r ?s' ws"
      using st by simp
    also have "\<dots> = map (\<lambda>k. serverOfPoint (n + k)) [0..<Suc (length ws)]"
      using ih by (simp only: map_upt_shift)
    finally show ?thesis using ih by simp
  qed
qed


lemma pm_serverOfPoint_Suc:
  "pm_serverOfPoint (Suc n) =
     (if 20 \<le> Suc n \<or> odd n then otherServer (pm_serverOfPoint n) else pm_serverOfPoint n)"
proof -
  consider "n < 19" | "n = 19" | "20 \<le> n" by linarith
  then show ?thesis
  proof cases
    case 1
    have "Suc n div 2 = (if odd n then Suc (n div 2) else n div 2)"
      by (auto elim!: oddE evenE)
    then show ?thesis using 1 by (auto simp: pm_serverOfPoint_def otherServer_def)
  next
    case 2
    then show ?thesis by (simp add: pm_serverOfPoint_def otherServer_def)
  next
    case 3
    then show ?thesis by (auto simp: pm_serverOfPoint_def otherServer_def)
  qed
qed

lemma pm_servesAfter_Suc:
  "pm_servesAfter (Suc n) = (if 20 \<le> Suc n \<or> odd n then 0 else pm_servesAfter n + 1)"
proof -
  have "Suc n mod 2 = (if odd n then 0 else 1)" by (auto simp: mod2_eq_if)
  moreover have "n mod 2 = (if odd n then 1 else 0)" by (auto simp: mod2_eq_if)
  ultimately show ?thesis
    by (auto simp: pm_servesAfter_def)
qed

lemma pm_servesAfter_two:
  "n < 20 \<Longrightarrow> 2 \<le> pm_servesAfter n + 1 \<longleftrightarrow> odd n" "0 \<le> pm_servesAfter n"
  by (auto simp: pm_servesAfter_def mod2_eq_if)

lemma pm_deuce_iff_twenty:
  assumes "0 \<le> p" "0 \<le> a" "p + a = int n"
    "\<not> ((PM_WINNING_SCORE \<le> p \<or> PM_WINNING_SCORE \<le> a) \<and> 2 \<le> \<bar>p - a\<bar>)"
  shows "10 \<le> p \<and> 10 \<le> a \<longleftrightarrow> 20 \<le> n"
  using assms by (auto simp: PM_WINNING_SCORE_def)

lemma pm_addPoint_sum:
  "player (pm_addPoint w sc) + ai (pm_addPoint w sc) = player sc + ai sc + 1"
  "player sc \<le> player (pm_addPoint w sc)" "ai sc \<le> ai (pm_addPoint w sc)"
  by (simp_all add: pm_addPoint_def)

lemma handleScoring_rotationAt:
  assumes "pm_rotationAt s n" "pm_gameState (handleScoring w now s) \<noteq> PM_GAME_OVER"
  shows "pm_rotationAt (handleScoring w now s) (Suc n)"
proof -
  let ?p = "player (pm_addPoint w (pm_scores s))" and ?a = "ai (pm_addPoint w (pm_scores s))"
  have nw: "\<not> ((PM_WINNING_SCORE \<le> ?p \<or> PM_WINNING_SCORE \<le> ?a) \<and> 2 \<le> \<bar>?p - ?a\<bar>)"
    using assms(2) by (auto simp: handleScoring_gameState split: if_splits)
  have nn: "0 \<le> ?p" "0 \<le> ?a"
    using assms(1) pm_addPoint_sum(2,3) [of "pm_scores s" w] by (auto simp: pm_rotationAt_def)
  have sum: "?p + ?a = int (Suc n)"
    using assms(1) by (simp add: pm_addPoint_sum(1) pm_rotationAt_def)
  have deuce: "10 \<le> ?p \<and> 10 \<le> ?a \<longleftrightarrow> 20 \<le> Suc n"
    by (rule pm_deuce_iff_twenty [OF nn sum nw])
  have st: "server s = pm_serverOfPoint n" and sc: "pm_servesCount s = pm_servesAfter n"
    using assms(1) by (simp_all add: pm_rotationAt_def)
  have two: "\<not> 20 \<le> Suc n \<Longrightarrow> 2 \<le> pm_servesAfter n + 1 \<longleftrightarrow> odd n"
    using pm_servesAfter_two(1) [of n] by simp
  have one: "1 \<le> pm_servesAfter n + 1"
    using pm_servesAfter_two(2) [of n] by simp
  have sw: "(if 10 \<le> ?p \<and> 10 \<le> ?a then 1 else 2) \<le> pm_servesCount s + 1
      \<longleftrightarrow> 20 \<le> Suc n \<or> odd n"
  proof (cases "20 \<le> Suc n")
    case True
    then have "(if 10 \<le> ?p \<and> 10 \<le> ?a then 1 else 2) = (1::int)"
      using deuce by simp
    then show ?thesis unfolding sc using True one by simp
  next
    case False
    then have "(if 10 \<le> ?p \<and> 10 \<le> ?a then 1 else 2) = (2::int)"
      using deuce by simp
    then show ?thesis unfolding sc using False two by simp
  qed
  have "server (handleScoring w now s) = pm_serverOfPoint (Suc n)"
    using nw st unfolding handleScoring_server Let_def sw pm_serverOfPoint_Suc by auto
  moreover have "pm_servesCount (handleScoring w now s) = pm_servesAfter (Suc n)"
    using nw sc unfolding handleScoring_servesCount Let_def sw pm_servesAfter_Suc by auto
  ultimately show ?thesis
    using nw nn sum by (simp add: pm_rotationAt_def)
qed

lemma launchBall_rotationAt: "pm_rotationAt (launchBall rnd s) n = pm_rotationAt s n"
  by (simp add: pm_rotationAt_def)

lemma resetEffect_rotationAt: "pm_rotationAt (resetEffect now s) 0"
  by (simp add: pm_rotationAt_def PM_WINNING_SCORE_def pm_serverOfPoint_def pm_servesAfter_def)

lemma pm_rotation_over_points:
  "pm_rotationAt s n \<Longrightarrow> pm_matchOn now s ws \<Longrightarrow>
   pm_servers now s ws = map (\<lambda>k. pm_serverOfPoint (n + k)) [0..<length ws]
   \<and> (pm_gameState (pm_points now s ws) \<noteq> PM_GAME_OVER
        \<longrightarrow> pm_rotationAt (pm_points now s ws) (n + length ws))"
proof (induction ws arbitrary: s n)
  case Nil
  then show ?case by simp
next
  case (Cons w ws)
  let ?s' = "handleScoring w now (launchBall (1 / 2) s)"
  have m: "pm_matchOn now ?s' ws" using Cons.prems(2) by simp
  have st: "server s = pm_serverOfPoint n"
    using Cons.prems(1) by (simp add: pm_rotationAt_def)
  have step: "pm_gameState ?s' \<noteq> PM_GAME_OVER \<Longrightarrow> pm_rotationAt ?s' (Suc n)"
    using handleScoring_rotationAt [of "launchBall (1 / 2) s" n w now] Cons.prems(1)
    by (simp add: launchBall_rotationAt)
  show ?case
  proof (cases ws)
    case Nil
    then show ?thesis using st step by simp
  next
    case (Cons v vs)
    then have "pm_gameState ?s' \<noteq> PM_GAME_OVER" using m by simp
    then have "pm_rotationAt ?s' (Suc n)" by (rule step)
    then have ih: "pm_servers now ?s' ws
         = map (\<lambda>k. pm_serverOfPoint (Suc n + k)) [0..<length ws]
       \<and> (pm_gameState (pm_points now ?s' ws) \<noteq> PM_GAME_OVER
            \<longrightarrow> pm_rotationAt (pm_points now ?s' ws) (Suc n + length ws))"
      using Cons.IH m by blast
    have "pm_servers now s (w # ws) = pm_serverOfPoint n # pm_servers now ?s' ws"
      using st by simp
    also have "\<dots> = map (\<lambda>k. pm_serverOfPoint (n + k)) [0..<Suc (length ws)]"
      using ih by (simp only: map_upt_shift)
    finally show ?thesis using ih by simp
  qed
qed

lemma servers_from_start:
  assumes "matchOn r1 (startGame r2 s1) ws"
  shows "servers r1 (startGame r2 s1) ws = map serverOfPoint [0..<length ws]"
    and "gameState (points r1 (startGame r2 s1) ws) \<noteq> GAME_OVER \<Longrightarrow>
         rotationAt (points r1 (startGame r2 s1) ws) (length ws)"
  using rotation_over_points [OF startGame_rotationAt assms] by simp_all

lemma pm_servers_from_start:
  assumes "pm_matchOn t1 (resetEffect t2 c1) vs"
  shows "pm_servers t1 (resetEffect t2 c1) vs = map pm_serverOfPoint [0..<length vs]"
    and "pm_gameState (pm_points t1 (resetEffect t2 c1) vs) \<noteq> PM_GAME_OVER \<Longrightarrow>
         pm_rotationAt (pm_points t1 (resetEffect t2 c1) vs) (length vs)"
  using pm_rotation_over_points [OF resetEffect_rotationAt assms] by simp_all


text \<open>
  Claim C2. After a point that does not end the match, the server changes when both
  scores are at least 10, and otherwise exactly when the serve counter reaches 2 with
  this point; the counter is 0 or 1 before such a point in every state the games reach.
  From a fresh match, the winners \<open>P, P, A, A, P\<close> are served by \<open>P, P, A, A, P\<close>.
  The counter advances by one with every point that does not end the match, whoever wins
  it: below 10-10 it returns to zero when it reaches 2; at 10-10 and beyond the engine
  keeps counting and the canvas returns it to zero with every point. Whoever wins the
  points of a match, as long as the match is on the \<open>k\<close>-th point is served by
  \<open>serverOfPoint k\<close>: the player serves the first two points, the opponent the next two,
  and so on in turns of two, and from the twentieth point on the sides alternate; after
  the points the server, the counter and the number of points played are as the closed
  form says.
\<close>

theorem serve_rotation:
  "(serveCountOk s \<and> gameState (scorePoint w r s) \<noteq> GAME_OVER \<longrightarrow>
      serveTurn (scorePoint w r s) =
        (if (10 \<le> player (scores (scorePoint w r s)) \<and> 10 \<le> ai (scores (scorePoint w r s)))
            \<or> servesCount s + 1 = 2
         then otherTurn (serveTurn s) else serveTurn s))
   \<and> (pm_serveCountOk c \<and> pm_gameState c \<noteq> PM_GAME_OVER
        \<and> pm_gameState (handleScoring v now c) \<noteq> PM_GAME_OVER \<longrightarrow>
      server (handleScoring v now c) =
        (if (10 \<le> player (pm_scores (handleScoring v now c))
              \<and> 10 \<le> ai (pm_scores (handleScoring v now c)))
            \<or> pm_servesCount c + 1 = 2
         then otherServer (server c) else server c))
   \<and> servers r1 (startGame r2 s1) [PLAYER, PLAYER, AI, AI, PLAYER]
        = [PLAYER, PLAYER, AI, AI, PLAYER]
   \<and> pm_servers t1 (resetEffect t2 c1)
          [ServerPlayer, ServerPlayer, ServerAI, ServerAI, ServerPlayer]
        = [ServerPlayer, ServerPlayer, ServerAI, ServerAI, ServerPlayer]
   \<and> (run (cameraReady (initial rnd)) ts = Inr s2 \<longrightarrow> serveCountOk s2)
   \<and> pm_serveCountOk (pm_run (pm_initial t3) es)
   \<and> (gameState (scorePoint w r s) \<noteq> GAME_OVER \<longrightarrow>
      servesCount (scorePoint w r s) =
        (if 10 \<le> player (scores (scorePoint w r s)) \<and> 10 \<le> ai (scores (scorePoint w r s))
         then servesCount s + 1
         else if 2 \<le> servesCount s + 1 then 0 else servesCount s + 1))
   \<and> (pm_gameState (handleScoring v now c) \<noteq> PM_GAME_OVER \<longrightarrow>
      pm_servesCount (handleScoring v now c) =
        (if (if 10 \<le> player (pm_scores (handleScoring v now c))
                \<and> 10 \<le> ai (pm_scores (handleScoring v now c)) then 1 else 2)
            \<le> pm_servesCount c + 1
         then 0 else pm_servesCount c + 1))
   \<and> (matchOn r1 (startGame r2 s1) ws \<longrightarrow>
      servers r1 (startGame r2 s1) ws = map serverOfPoint [0..<length ws])
   \<and> (matchOn r1 (startGame r2 s1) ws
        \<and> gameState (points r1 (startGame r2 s1) ws) \<noteq> GAME_OVER \<longrightarrow>
      serveTurn (points r1 (startGame r2 s1) ws) = serverOfPoint (length ws)
      \<and> servesCount (points r1 (startGame r2 s1) ws) = servesAfter (length ws)
      \<and> player (scores (points r1 (startGame r2 s1) ws))
          + ai (scores (points r1 (startGame r2 s1) ws)) = int (length ws))
   \<and> (pm_matchOn t1 (resetEffect t2 c1) vs \<longrightarrow>
      pm_servers t1 (resetEffect t2 c1) vs = map pm_serverOfPoint [0..<length vs])
   \<and> (pm_matchOn t1 (resetEffect t2 c1) vs
        \<and> pm_gameState (pm_points t1 (resetEffect t2 c1) vs) \<noteq> PM_GAME_OVER \<longrightarrow>
      server (pm_points t1 (resetEffect t2 c1) vs) = pm_serverOfPoint (length vs)
      \<and> pm_servesCount (pm_points t1 (resetEffect t2 c1) vs) = pm_servesAfter (length vs)
      \<and> player (pm_scores (pm_points t1 (resetEffect t2 c1) vs))
          + ai (pm_scores (pm_points t1 (resetEffect t2 c1) vs)) = int (length vs))"
proof -
  have c1: "serveTurn (scorePoint w r s) =
        (if (10 \<le> player (scores (scorePoint w r s)) \<and> 10 \<le> ai (scores (scorePoint w r s)))
            \<or> servesCount s + 1 = 2
         then otherTurn (serveTurn s) else serveTurn s)"
    if a: "serveCountOk s \<and> gameState (scorePoint w r s) \<noteq> GAME_OVER"
  proof -
    from a have nw: "\<not> winCondition (player (addPoint w (scores s))) (ai (addPoint w (scores s)))"
      by (simp add: scorePoint_gameState split: if_splits)
    have "player (scores s) \<le> player (addPoint w (scores s))"
      "ai (scores s) \<le> ai (addPoint w (scores s))"
      by (rule addPoint_mono)+
    then show ?thesis
      using a nw by (auto simp: scorePoint_serveTurn Let_def serveCountOk_def)
  qed
  have c2: "server (handleScoring v now c) =
        (if (10 \<le> player (pm_scores (handleScoring v now c))
              \<and> 10 \<le> ai (pm_scores (handleScoring v now c)))
            \<or> pm_servesCount c + 1 = 2
         then otherServer (server c) else server c)"
    if a: "pm_serveCountOk c \<and> pm_gameState c \<noteq> PM_GAME_OVER
        \<and> pm_gameState (handleScoring v now c) \<noteq> PM_GAME_OVER"
    using a
    by (auto simp: handleScoring_server handleScoring_gameState Let_def pm_serveCountOk_def
        split: if_splits)
  have c3: "servers r1 (startGame r2 s1) [PLAYER, PLAYER, AI, AI, PLAYER]
        = [PLAYER, PLAYER, AI, AI, PLAYER]"
    by (rule servers_scenario)
  have c4: "pm_servers t1 (resetEffect t2 c1)
          [ServerPlayer, ServerPlayer, ServerAI, ServerAI, ServerPlayer]
        = [ServerPlayer, ServerPlayer, ServerAI, ServerAI, ServerPlayer]"
    by (rule pm_servers_scenario)
  have c5: "serveCountOk s2" if "run (cameraReady (initial rnd)) ts = Inr s2"
    using that run_serveCountOk initial_serveCountOk by blast
  have c6: "pm_serveCountOk (pm_run (pm_initial t3) es)"
    by (simp add: pm_run_serveCountOk pm_initial_serveCountOk)
  have c7: "servesCount (scorePoint w r s) =
        (if 10 \<le> player (scores (scorePoint w r s)) \<and> 10 \<le> ai (scores (scorePoint w r s))
         then servesCount s + 1
         else if 2 \<le> servesCount s + 1 then 0 else servesCount s + 1)"
    if a: "gameState (scorePoint w r s) \<noteq> GAME_OVER"
  proof -
    from a have "\<not> winCondition (player (addPoint w (scores s))) (ai (addPoint w (scores s)))"
      by (simp add: scorePoint_gameState split: if_splits)
    then show ?thesis by (simp add: scorePoint_servesCount Let_def)
  qed
  have c8: "pm_servesCount (handleScoring v now c) =
        (if (if 10 \<le> player (pm_scores (handleScoring v now c))
                \<and> 10 \<le> ai (pm_scores (handleScoring v now c)) then 1 else 2)
            \<le> pm_servesCount c + 1
         then 0 else pm_servesCount c + 1)"
    if a: "pm_gameState (handleScoring v now c) \<noteq> PM_GAME_OVER"
  proof -
    from a have "\<not> ((PM_WINNING_SCORE \<le> player (pm_addPoint v (pm_scores c))
          \<or> PM_WINNING_SCORE \<le> ai (pm_addPoint v (pm_scores c)))
        \<and> 2 \<le> \<bar>player (pm_addPoint v (pm_scores c)) - ai (pm_addPoint v (pm_scores c))\<bar>)"
      by (auto simp: handleScoring_gameState split: if_splits)
    then show ?thesis by (auto simp: handleScoring_servesCount Let_def)
  qed
  have c9: "servers r1 (startGame r2 s1) ws = map serverOfPoint [0..<length ws]"
    if "matchOn r1 (startGame r2 s1) ws"
    using that by (rule servers_from_start(1))
  have c10: "serveTurn (points r1 (startGame r2 s1) ws) = serverOfPoint (length ws)
      \<and> servesCount (points r1 (startGame r2 s1) ws) = servesAfter (length ws)
      \<and> player (scores (points r1 (startGame r2 s1) ws))
          + ai (scores (points r1 (startGame r2 s1) ws)) = int (length ws)"
    if "matchOn r1 (startGame r2 s1) ws
        \<and> gameState (points r1 (startGame r2 s1) ws) \<noteq> GAME_OVER"
    using servers_from_start(2) [of r1 r2 s1 ws] that by (simp add: rotationAt_def)
  have c11: "pm_servers t1 (resetEffect t2 c1) vs = map pm_serverOfPoint [0..<length vs]"
    if "pm_matchOn t1 (resetEffect t2 c1) vs"
    using that by (rule pm_servers_from_start(1))
  have c12: "server (pm_points t1 (resetEffect t2 c1) vs) = pm_serverOfPoint (length vs)
      \<and> pm_servesCount (pm_points t1 (resetEffect t2 c1) vs) = pm_servesAfter (length vs)
      \<and> player (pm_scores (pm_points t1 (resetEffect t2 c1) vs))
          + ai (pm_scores (pm_points t1 (resetEffect t2 c1) vs)) = int (length vs)"
    if "pm_matchOn t1 (resetEffect t2 c1) vs
        \<and> pm_gameState (pm_points t1 (resetEffect t2 c1) vs) \<noteq> PM_GAME_OVER"
    using pm_servers_from_start(2) [of t1 t2 c1 vs] that by (simp add: pm_rotationAt_def)
  show ?thesis
    using c1 c2 c3 c4 c5 c6 c7 c8 c9 c10 c11 c12 by blast
qed

lemma first_tick:
  "run (cameraReady (initial (1 / 2))) [(None, draws)]
     = Inr (markMissing (cameraReady (initial (1 / 2))))"
  by (simp add: update_def processInput_def aiLogic_def ballPhysics_def cameraReady_def
      initial_def)

lemma receiver_wins_four:
  "matchOn r1 (startGame r2 s1) [AI, AI, AI, AI]"
  "gameState (points r1 (startGame r2 s1) [AI, AI, AI, AI]) \<noteq> GAME_OVER"
  "scores (points r1 (startGame r2 s1) [AI, AI, AI, AI]) = \<lparr>player = 0, ai = 4\<rparr>"
  by (simp_all add: scorePoint_gameState addPoint_def winCondition_def WINNING_SCORE_def)

lemma pm_receiver_wins_four:
  "pm_gameState c1 \<noteq> PM_GAME_OVER \<Longrightarrow>
   pm_matchOn t1 (resetEffect t2 c1) [ServerAI, ServerAI, ServerAI, ServerAI]"
  "pm_gameState c1 \<noteq> PM_GAME_OVER \<Longrightarrow>
   pm_gameState (pm_points t1 (resetEffect t2 c1) [ServerAI, ServerAI, ServerAI, ServerAI])
     \<noteq> PM_GAME_OVER"
  "pm_scores (pm_points t1 (resetEffect t2 c1) [ServerAI, ServerAI, ServerAI, ServerAI])
     = \<lparr>player = 0, ai = 4\<rparr>"
  by (simp_all add: handleScoring_gameState pm_addPoint_def PM_WINNING_SCORE_def)

theorem serve_rotation_witness:
  "serveCountOk matchPoint \<and> gameState (scorePoint AI draws matchPoint) \<noteq> GAME_OVER
   \<and> serveTurn matchPoint = AI \<and> serveTurn (scorePoint AI draws matchPoint) = PLAYER
   \<and> pm_serveCountOk pm_matchPoint \<and> pm_gameState pm_matchPoint \<noteq> PM_GAME_OVER
   \<and> pm_gameState (handleScoring ServerAI 0 pm_matchPoint) \<noteq> PM_GAME_OVER
   \<and> server pm_matchPoint = ServerAI
   \<and> server (handleScoring ServerAI 0 pm_matchPoint) = ServerPlayer
   \<and> servers draws (startGame draws matchPoint) [PLAYER, PLAYER, AI, AI, PLAYER]
        = [PLAYER, PLAYER, AI, AI, PLAYER]
   \<and> run (cameraReady (initial (1 / 2))) [(None, draws)]
        = Inr (markMissing (cameraReady (initial (1 / 2))))
   \<and> serveCountOk (markMissing (cameraReady (initial (1 / 2))))
   \<and> servesCount matchPoint = 1 \<and> servesCount (scorePoint AI draws matchPoint) = 2
   \<and> pm_servesCount pm_matchPoint = 1
   \<and> pm_servesCount (handleScoring ServerAI 0 pm_matchPoint) = 0
   \<and> matchOn draws (startGame draws matchPoint) [AI, AI, AI, AI]
   \<and> gameState (points draws (startGame draws matchPoint) [AI, AI, AI, AI]) \<noteq> GAME_OVER
   \<and> servers draws (startGame draws matchPoint) [AI, AI, AI, AI] = [PLAYER, PLAYER, AI, AI]
   \<and> serveTurn (points draws (startGame draws matchPoint) [AI, AI, AI, AI]) = PLAYER
   \<and> servesCount (points draws (startGame draws matchPoint) [AI, AI, AI, AI]) = 0
   \<and> pm_matchOn 0 (resetEffect 0 pm_matchPoint) [ServerAI, ServerAI, ServerAI, ServerAI]
   \<and> pm_gameState (pm_points 0 (resetEffect 0 pm_matchPoint)
         [ServerAI, ServerAI, ServerAI, ServerAI]) \<noteq> PM_GAME_OVER
   \<and> pm_servers 0 (resetEffect 0 pm_matchPoint) [ServerAI, ServerAI, ServerAI, ServerAI]
        = [ServerPlayer, ServerPlayer, ServerAI, ServerAI]
   \<and> server (pm_points 0 (resetEffect 0 pm_matchPoint)
         [ServerAI, ServerAI, ServerAI, ServerAI]) = ServerPlayer
   \<and> pm_servesCount (pm_points 0 (resetEffect 0 pm_matchPoint)
         [ServerAI, ServerAI, ServerAI, ServerAI]) = 0"
proof -
  have g: "pm_gameState pm_matchPoint \<noteq> PM_GAME_OVER"
    by (simp add: pm_matchPoint_def)
  have e: "serveCountOk matchPoint" "gameState (scorePoint AI draws matchPoint) \<noteq> GAME_OVER"
    "serveTurn matchPoint = AI" "servesCount matchPoint = 1"
    "scores (scorePoint AI draws matchPoint) = \<lparr>player = 10, ai = 10\<rparr>"
    "serveCountOk (markMissing (cameraReady (initial (1 / 2))))"
    by (simp_all add: serveCountOk_def matchPoint_def scorePoint_gameState addPoint_def
        winCondition_def WINNING_SCORE_def cameraReady_def initial_def)
  have p: "pm_serveCountOk pm_matchPoint"
    "pm_gameState (handleScoring ServerAI 0 pm_matchPoint) \<noteq> PM_GAME_OVER"
    "server pm_matchPoint = ServerAI" "pm_servesCount pm_matchPoint = 1"
    "pm_scores (handleScoring ServerAI 0 pm_matchPoint) = \<lparr>player = 10, ai = 10\<rparr>"
    by (simp_all add: pm_serveCountOk_def pm_matchPoint_def handleScoring_gameState
        pm_addPoint_def PM_WINNING_SCORE_def)
  show ?thesis
    using serve_rotation [where s = matchPoint and w = AI and r = draws
        and c = pm_matchPoint and v = ServerAI and now = 0
        and ?r1.0 = draws and ?r2.0 = draws and ?s1.0 = matchPoint
        and rnd = "1 / 2" and ts = "[(None, draws)]"
        and ?s2.0 = "markMissing (cameraReady (initial (1 / 2)))"
        and ws = "[AI, AI, AI, AI]" and ?t1.0 = 0 and ?t2.0 = 0 and ?c1.0 = pm_matchPoint
        and vs = "[ServerAI, ServerAI, ServerAI, ServerAI]"]
      first_tick g e p
      receiver_wins_four [where ?r1.0 = draws and ?r2.0 = draws and ?s1.0 = matchPoint]
      pm_receiver_wins_four [where ?c1.0 = pm_matchPoint and ?t1.0 = 0 and ?t2.0 = 0]
    by (simp add: otherTurn_def otherServer_def serverOfPoint_def pm_serverOfPoint_def
        servesAfter_def pm_servesAfter_def
        del: servers.simps pm_servers.simps points.simps pm_points.simps matchOn.simps
          pm_matchOn.simps)
qed

subsection \<open>C3: the serve counter when the server changes\<close>

lemma points_append: "points r s (ws @ vs) = points r (points r s ws) vs"
  by (induction ws arbitrary: s) simp_all

lemma tenNine_fields:
  "scores tenNine = \<lparr>player = 10, ai = 9\<rparr>" "servesCount tenNine = 1" "serveTurn tenNine = AI"
    "gameState tenNine = SERVING"
  by (simp_all add: tenNine_def eval_nat_numeral scorePoint_serveTurn scorePoint_servesCount
      scorePoint_gameState addPoint_def winCondition_def WINNING_SCORE_def otherTurn_def Let_def)

text \<open>
  Claim C3 fails in the engine at deuce. When the opponent wins the point at 10-9, the
  server changes, and the serve counter is left at 2: the deuce branch of \<open>scorePoint\<close>
  switches the server without the reset that the branch below deuce makes.
\<close>

theorem deuce_switch_keeps_counter:
  "scores tenNine = \<lparr>player = 10, ai = 9\<rparr>
   \<and> serveTurn tenNine = AI
   \<and> servesCount tenNine = 1
   \<and> serveTurn (scorePoint AI draws (triggerServe tenNine)) = PLAYER
   \<and> servesCount (scorePoint AI draws (triggerServe tenNine)) = 2"
  by (simp add: tenNine_fields scorePoint_serveTurn scorePoint_servesCount
      addPoint_def winCondition_def WINNING_SCORE_def otherTurn_def Let_def)

text \<open>Below deuce the engine does reset the counter with the server, and the canvas of
  the other game resets it at every change of server.\<close>

lemma scorePoint_reset_below_deuce:
  assumes "serveTurn (scorePoint w r s) \<noteq> serveTurn s"
    and "\<not> (10 \<le> player (scores (scorePoint w r s)) \<and> 10 \<le> ai (scores (scorePoint w r s)))"
  shows "servesCount (scorePoint w r s) = 0"
  using assms by (auto simp: scorePoint_serveTurn scorePoint_servesCount Let_def split: if_splits)

lemma handleScoring_reset:
  assumes "server (handleScoring w now s) \<noteq> server s"
  shows "pm_servesCount (handleScoring w now s) = 0"
  using assms by (auto simp: handleScoring_server handleScoring_servesCount Let_def split: if_splits)

subsection \<open>C4: the speed of the ball\<close>

lemma moveBall_dy [simp]: "ball_dy (moveBall b) = ball_dy b"
  by (simp add: moveBall_def Let_def)

lemma bounceAI_dy: "\<bar>ball_dy (bounceAI p b)\<bar> = 105 / 100 * \<bar>ball_dy b\<bar>"
  by (simp add: bounceAI_def Let_def abs_mult)

lemma bouncePlayer_dy: "\<bar>ball_dy (bouncePlayer p b)\<bar> = 105 / 100 * \<bar>ball_dy b\<bar>"
  by (simp add: bouncePlayer_def Let_def abs_mult)

lemma bounceAI_not_hitsPlayer: "\<not> hitsPlayer p (bounceAI q b)"
  by (simp add: hitsPlayer_def bounceAI_def Let_def fp_consts)

lemma bounceAI_in_field: "0 \<le> ball_y (bounceAI q b)" "ball_y (bounceAI q b) \<le> CANVAS_HEIGHT"
  by (simp_all add: bounceAI_def Let_def fp_consts)

lemma bouncePlayer_in_field:
  "0 \<le> ball_y (bouncePlayer q b)" "ball_y (bouncePlayer q b) \<le> CANVAS_HEIGHT"
  by (simp_all add: bouncePlayer_def Let_def fp_consts)

lemma playing_hit:
  assumes "paddleHit s"
  shows "playing r s = (if hitsAI (paddleAIX s) (moveBall (ball s))
                        then s\<lparr>ball := bounceAI (paddleAIX s) (moveBall (ball s))\<rparr>
                        else s\<lparr>ball := bouncePlayer (paddlePlayerX s) (moveBall (ball s)),
                               aiErrorOffset := hitError (rndHitErr r)\<rparr>)"
proof (cases "hitsAI (paddleAIX s) (moveBall (ball s))")
  case True
  then have "afterAI s = bounceAI (paddleAIX s) (moveBall (ball s))"
    by (simp add: afterAI_def Let_def)
  then show ?thesis
    using True bounceAI_in_field [of "paddleAIX s" "moveBall (ball s)"]
    by (simp add: playing_def Let_def bounceAI_not_hitsPlayer)
next
  case False
  then have a: "afterAI s = moveBall (ball s)"
    by (simp add: afterAI_def Let_def)
  with False assms have "hitsPlayer (paddlePlayerX s) (moveBall (ball s))"
    by (simp add: paddleHit_def)
  then show ?thesis
    using False a bouncePlayer_in_field [of "paddlePlayerX s" "moveBall (ball s)"]
    by (simp add: playing_def Let_def)
qed

lemma playing_miss:
  assumes "\<not> paddleHit s" "gameState s = PLAYING" "gameState (playing r s) = PLAYING"
  shows "playing r s = s\<lparr>ball := moveBall (ball s)\<rparr>"
proof -
  from assms(1) have a: "afterAI s = moveBall (ball s)"
    "\<not> hitsPlayer (paddlePlayerX s) (moveBall (ball s))"
    by (auto simp: paddleHit_def afterAI_def Let_def)
  show ?thesis
    using assms(2,3) a
    by (auto simp: playing_def Let_def scorePoint_gameState split: if_splits)
qed

lemma playing_dy:
  assumes "gameState s = PLAYING" "gameState (playing r s) = PLAYING"
  shows "\<bar>ball_dy (ball (playing r s))\<bar>
       = (if paddleHit s then 105 / 100 else 1) * \<bar>ball_dy (ball s)\<bar>"
proof (cases "paddleHit s")
  case True
  then show ?thesis
    by (simp add: playing_hit bounceAI_dy bouncePlayer_dy)
next
  case False
  then show ?thesis
    using playing_miss [OF False assms] by simp
qed

lemma processInput_PLAYING:
  assumes "gameState s = PLAYING" "processInput lm r s = Inr s1"
  shows "gameState s1 = PLAYING" "ball s1 = ball s" "aiErrorOffset s1 = aiErrorOffset s"
    "scores s1 = scores s"
proof -
  have "gameState s1 = PLAYING \<and> ball s1 = ball s \<and> aiErrorOffset s1 = aiErrorOffset s
      \<and> scores s1 = scores s"
  proof (cases lm)
    case None
    with assms show ?thesis by (auto simp: processInput_def)
  next
    case (Some f)
    let ?m = "markDetected (s\<lparr>missingHandFrames := 0\<rparr>)"
    from assms Some obtain s2 where p: "updatePlayerPaddle f ?m = Inr s2"
      by (auto simp: processInput_def split: sum.splits)
    have g2: "gameState s2 = PLAYING"
      using updatePlayerPaddle_Inr(1) [OF p] assms(1) by (simp add: markDetected_gameState)
    with assms Some p have "s1 = s2"
      by (auto simp: processInput_def split: sum.splits if_splits)
    then show ?thesis
      using g2 updatePlayerPaddle_Inr(2,5,7) [OF p] by simp
  qed
  then show "gameState s1 = PLAYING" "ball s1 = ball s" "aiErrorOffset s1 = aiErrorOffset s"
    "scores s1 = scores s"
    by simp_all
qed

lemma rally_speed:
  "inRally s ts \<Longrightarrow> run s ts = Inr s' \<Longrightarrow>
   \<bar>ball_dy (ball s')\<bar> = (105 / 100) ^ rallyHits s ts * \<bar>ball_dy (ball s)\<bar>"
proof (induction ts arbitrary: s)
  case Nil
  then show ?case by simp
next
  case (Cons t ts)
  obtain lm r where t: "t = (lm, r)" by (cases t)
  from Cons.prems t obtain s2 where u: "update lm r s = Inr s2" and rest: "run s2 ts = Inr s'"
    and pl: "gameState s = PLAYING" and ir: "inRally s2 ts"
    by (auto split: sum.splits)
  from u obtain s1 where p: "processInput lm r s = Inr s1"
    and s2: "s2 = ballPhysics r (aiLogic s1)"
    by (auto simp: update_def split: sum.splits)
  have g1: "gameState s1 = PLAYING" and b1: "ball s1 = ball s"
    using processInput_PLAYING [OF pl p] by simp_all
  have s2p: "s2 = playing r (aiLogic s1)"
    using s2 g1 by (simp add: ballPhysics_def)
  have g2: "gameState s2 = PLAYING"
    using ir by (cases ts) auto
  have step: "\<bar>ball_dy (ball s2)\<bar>
       = (if paddleHit (aiLogic s1) then 105 / 100 else 1) * \<bar>ball_dy (ball s)\<bar>"
    using playing_dy [of "aiLogic s1" r] g1 g2 s2p b1 by simp
  have "\<bar>ball_dy (ball s')\<bar> = (105 / 100) ^ rallyHits s2 ts * \<bar>ball_dy (ball s2)\<bar>"
    by (rule Cons.IH [OF ir rest])
  then show ?case
    using step t p g1 s2 by (simp add: power_add)
qed

lemma pm_bounce_speed:
  "speed (pm_bouncePlayer p b) = min (speed b + 1) 25"
  "speed (pm_bounceAI p b) = min (speed b + 1) 25"
  by (simp_all add: pm_bouncePlayer_def pm_bounceAI_def Let_def)

lemma abs_mult_cos_le: "0 \<le> v \<Longrightarrow> \<bar>v * cos a\<bar> \<le> (v::real)"
proof -
  assume v: "0 \<le> v"
  have "\<bar>v * cos a\<bar> = v * \<bar>cos a\<bar>" using v by (simp add: abs_mult)
  also have "\<dots> \<le> v * 1" using v by (intro mult_left_mono) simp_all
  finally show ?thesis by simp
qed

lemma pm_bounce_dy:
  assumes "0 \<le> speed b"
  shows "\<bar>pm_dy (pm_bouncePlayer p b)\<bar> \<le> speed (pm_bouncePlayer p b)"
    "\<bar>pm_dy (pm_bounceAI p b)\<bar> \<le> speed (pm_bounceAI p b)"
proof -
  have v: "0 \<le> min (speed b + 1) 25" using assms by simp
  show "\<bar>pm_dy (pm_bouncePlayer p b)\<bar> \<le> speed (pm_bouncePlayer p b)"
    using abs_mult_cos_le [OF v] by (simp add: pm_bouncePlayer_def Let_def)
  show "\<bar>pm_dy (pm_bounceAI p b)\<bar> \<le> speed (pm_bounceAI p b)"
    using abs_mult_cos_le [OF v] by (simp add: pm_bounceAI_def Let_def)
qed

lemma sqrt3_bound: "13 * sqrt 3 < 24"
proof -
  have "sqrt 3 < sqrt ((24 / 13)\<^sup>2)"
    by (subst real_sqrt_less_iff) (simp add: power2_eq_square)
  then have "sqrt 3 < 24 / 13" by simp
  then show ?thesis by simp
qed

lemma pm_firstReturn_tick:
  "pm_update 0 (1 / 2) pm_firstReturn =
     pm_firstReturn\<lparr>physPaddleX := 300, aiPaddleX := 340,
       pm_ball := \<lparr>pm_x = 400, pm_y = 1158, pm_dx = 13 / 2, pm_dy = - (13 * sqrt 3 / 2),
                   speed = 13\<rparr>\<rparr>"
  by (simp add: pm_update_def lerpPaddle_def physicsStep_def pm_moveBall_def
      aiMove_def pm_hitsPlayer_def pm_hitsAI_def pm_bouncePlayer_def pm_consts
      pm_firstReturn_def Let_def cos_30 sin_30)

lemma paddleHit_dy_nonzero: "paddleHit s \<Longrightarrow> ball_dy (ball s) \<noteq> 0"
  by (auto simp: paddleHit_def afterAI_def Let_def hitsAI_def hitsPlayer_def split: if_splits)

lemma returnState_tick: "update None draws returnState = Inr returned"
  by (simp add: update_def processInput_def markMissing_def aiLogic_def ballPhysics_def
      playing_def afterAI_def moveBall_def hitsAI_def hitsPlayer_def bouncePlayer_def
      hitError_def fp_consts returnState_def returned_def draws_def Let_def)

lemma returnState_paddleHit: "paddleHit returnState"
  by (simp add: paddleHit_def afterAI_def moveBall_def hitsAI_def hitsPlayer_def
      fp_consts returnState_def Let_def)

lemma returnState_playing:
  "playing draws returnState = returned\<lparr>missingHandFrames := 0\<rparr>"
  by (simp add: playing_def afterAI_def moveBall_def hitsAI_def hitsPlayer_def bouncePlayer_def
      hitError_def fp_consts returnState_def returned_def draws_def Let_def)

lemma midField_playing:
  "\<not> paddleHit midField
   \<and> playing draws midField = midField\<lparr>ball := (ball midField)\<lparr>ball_y := 307\<rparr>\<rparr>"
  by (simp add: paddleHit_def playing_def afterAI_def moveBall_def hitsAI_def hitsPlayer_def
      fp_consts returnState_def midField_def draws_def Let_def)

lemma returnState_rally:
  "inRally returnState [(None, draws)] \<and> rallyHits returnState [(None, draws)] = 1"
proof -
  have a: "aiLogic (markMissing returnState) = markMissing returnState"
    by (simp add: aiLogic_def markMissing_def returnState_def fp_consts Let_def)
  have h: "paddleHit (markMissing returnState)"
    by (simp add: paddleHit_def afterAI_def moveBall_def hitsAI_def hitsPlayer_def
      fp_consts returnState_def markMissing_def Let_def)
  have g: "gameState returnState = PLAYING" "gameState returned = PLAYING"
    by (simp_all add: returnState_def returned_def)
  show ?thesis
    using a h g by (simp add: returnState_tick processInput_def)
qed

text \<open>
  Claim C4 as amended. In the engine every paddle hit multiplies the magnitude of the
  ball's vertical velocity by 1.05, with no cap, a tick without a hit leaves the
  vertical velocity as it is, and so after a rally with \<open>N\<close> hits the magnitude is
  \<open>1.05 ^ N\<close> times the one at its start, larger after every hit. In the canvas of the
  other game a hit adds 1 to the scalar speed up to the cap 25, and the vertical
  component is that speed times the cosine of the bounce angle, so at most the speed.
\<close>

theorem engine_hit_speeds_up:
  "(gameState s = PLAYING \<and> paddleHit s \<longrightarrow>
      gameState (playing r s) = PLAYING
      \<and> \<bar>ball_dy (ball (playing r s))\<bar> = 105 / 100 * \<bar>ball_dy (ball s)\<bar>
      \<and> \<bar>ball_dy (ball s)\<bar> < \<bar>ball_dy (ball (playing r s))\<bar>)
   \<and> (gameState s1 = PLAYING \<and> \<not> paddleHit s1 \<and> gameState (playing r1 s1) = PLAYING \<longrightarrow>
        ball_dy (ball (playing r1 s1)) = ball_dy (ball s1))
   \<and> (inRally s2 ts \<and> run s2 ts = Inr t2 \<longrightarrow>
        \<bar>ball_dy (ball t2)\<bar> = (105 / 100) ^ rallyHits s2 ts * \<bar>ball_dy (ball s2)\<bar>)
   \<and> (inRally s3 us \<and> run s3 us = Inr t3 \<and> ball_dy (ball s3) \<noteq> 0 \<and> 0 < rallyHits s3 us \<longrightarrow>
        \<bar>ball_dy (ball s3)\<bar> < \<bar>ball_dy (ball t3)\<bar>)
   \<and> (0 \<le> speed b \<longrightarrow>
        speed (pm_bouncePlayer p b) = min (speed b + 1) 25
        \<and> speed (pm_bounceAI p b) = min (speed b + 1) 25
        \<and> \<bar>pm_dy (pm_bouncePlayer p b)\<bar> \<le> speed (pm_bouncePlayer p b)
        \<and> \<bar>pm_dy (pm_bounceAI p b)\<bar> \<le> speed (pm_bounceAI p b))"
proof (intro conjI impI)
  assume a: "gameState s = PLAYING \<and> paddleHit s"
  then show "gameState (playing r s) = PLAYING"
    by (simp add: playing_hit)
  then have e: "\<bar>ball_dy (ball (playing r s))\<bar> = 105 / 100 * \<bar>ball_dy (ball s)\<bar>"
    using playing_dy [of s r] a by simp
  then show "\<bar>ball_dy (ball (playing r s))\<bar> = 105 / 100 * \<bar>ball_dy (ball s)\<bar>" .
  have "0 < \<bar>ball_dy (ball s)\<bar>"
    using a paddleHit_dy_nonzero by simp
  then show "\<bar>ball_dy (ball s)\<bar> < \<bar>ball_dy (ball (playing r s))\<bar>"
    unfolding e by simp
next
  assume "gameState s1 = PLAYING \<and> \<not> paddleHit s1 \<and> gameState (playing r1 s1) = PLAYING"
  then show "ball_dy (ball (playing r1 s1)) = ball_dy (ball s1)"
    using playing_miss [of s1 r1] by simp
next
  assume "inRally s2 ts \<and> run s2 ts = Inr t2"
  then show "\<bar>ball_dy (ball t2)\<bar> = (105 / 100) ^ rallyHits s2 ts * \<bar>ball_dy (ball s2)\<bar>"
    using rally_speed by blast
next
  assume a: "inRally s3 us \<and> run s3 us = Inr t3 \<and> ball_dy (ball s3) \<noteq> 0 \<and> 0 < rallyHits s3 us"
  then have e: "\<bar>ball_dy (ball t3)\<bar> = (105 / 100) ^ rallyHits s3 us * \<bar>ball_dy (ball s3)\<bar>"
    using rally_speed by blast
  have "(1::real) < (105 / 100) ^ rallyHits s3 us"
    using a by (intro one_less_power) simp_all
  moreover have "0 < \<bar>ball_dy (ball s3)\<bar>" using a by simp
  ultimately show "\<bar>ball_dy (ball s3)\<bar> < \<bar>ball_dy (ball t3)\<bar>"
    unfolding e by simp
next
  assume "0 \<le> speed b"
  then show "\<bar>pm_dy (pm_bouncePlayer p b)\<bar> \<le> speed (pm_bouncePlayer p b)"
    and "\<bar>pm_dy (pm_bounceAI p b)\<bar> \<le> speed (pm_bounceAI p b)"
    by (rule pm_bounce_dy)+
qed (simp_all add: pm_bounce_speed)

theorem engine_hit_speeds_up_witness:
  "gameState returnState = PLAYING \<and> paddleHit returnState
   \<and> \<bar>ball_dy (ball returnState)\<bar> = 7
   \<and> \<bar>ball_dy (ball (playing draws returnState))\<bar> = 147 / 20
   \<and> gameState midField = PLAYING \<and> \<not> paddleHit midField
   \<and> gameState (playing draws midField) = PLAYING
   \<and> ball_dy (ball (playing draws midField)) = 7
   \<and> inRally returnState [(None, draws)]
   \<and> run returnState [(None, draws)] = Inr returned
   \<and> rallyHits returnState [(None, draws)] = 1
   \<and> \<bar>ball_dy (ball returned)\<bar> = 147 / 20
   \<and> 0 \<le> speed (pm_ball pm_firstReturn)
   \<and> speed (pm_bouncePlayer 300 (pm_ball pm_firstReturn)) = 13"
  using engine_hit_speeds_up [where s = returnState and r = draws
      and ?s1.0 = midField and ?r1.0 = draws
      and ?s2.0 = returnState and ts = "[(None, draws)]" and ?t2.0 = returned
      and ?s3.0 = returnState and us = "[(None, draws)]" and ?t3.0 = returned
      and b = "pm_ball pm_firstReturn" and p = 300]
    returnState_paddleHit returnState_tick returnState_rally midField_playing
  by (simp add: returnState_def returned_def midField_def pm_firstReturn_def)

text \<open>
  Claim C4 as stated fails in the other game. The opponent's serve comes down with
  vertical speed 12 and hits the player's paddle 40 pixels off its centre: the scalar
  speed becomes 13, the bounce angle is \<open>pi / 6\<close>, and the vertical speed after the hit
  is \<open>13 * sqrt 3 / 2\<close>, less than 12. At the cap the scalar speed stays 25.
\<close>

theorem canvas_hit_slows_ball:
  "pm_gameState pm_firstReturn = PM_PLAYING
   \<and> pm_hitsPlayer (physPaddleX (lerpPaddle pm_firstReturn))
        (pm_moveBall (pm_ball (lerpPaddle pm_firstReturn)))
   \<and> pm_dy (pm_ball pm_firstReturn) = 12
   \<and> pm_dy (pm_ball (pm_update 0 (1 / 2) pm_firstReturn)) = - (13 * sqrt 3 / 2)
   \<and> \<bar>pm_dy (pm_ball (pm_update 0 (1 / 2) pm_firstReturn))\<bar> < \<bar>pm_dy (pm_ball pm_firstReturn)\<bar>
   \<and> speed (pm_bouncePlayer 300 ((pm_ball pm_firstReturn)\<lparr>speed := 25\<rparr>)) = 25"
proof -
  have "pm_hitsPlayer (physPaddleX (lerpPaddle pm_firstReturn))
        (pm_moveBall (pm_ball (lerpPaddle pm_firstReturn)))"
    by (simp add: lerpPaddle_def pm_moveBall_def pm_hitsPlayer_def pm_consts
        pm_firstReturn_def Let_def)
  moreover have "\<bar>- (13 * sqrt 3 / 2)\<bar> < (12::real)"
    using sqrt3_bound by simp
  ultimately show ?thesis
    by (simp add: pm_firstReturn_tick pm_bounce_speed) (simp add: pm_firstReturn_def)
qed

subsection \<open>C5: the opponent's error offset\<close>

lemma processInput_aiErrorOffset:
  assumes "processInput lm r s = Inr s1"
  shows "aiErrorOffset s1 = aiErrorOffset s
       \<or> (gameState s \<noteq> SERVING \<and> gameState s1 = SERVING
          \<and> serveTurn s1 = PLAYER \<and> aiErrorOffset s1 = serveError (rndServeErr r))"
proof (cases lm)
  case None
  with assms show ?thesis by (auto simp: processInput_def)
next
  case (Some f)
  let ?m = "markDetected (s\<lparr>missingHandFrames := 0\<rparr>)"
  from assms Some obtain s2 where p: "updatePlayerPaddle f ?m = Inr s2"
    by (auto simp: processInput_def split: sum.splits)
  have g2: "gameState s2 = gameState ?m" "aiErrorOffset s2 = aiErrorOffset s"
    using updatePlayerPaddle_Inr(1,5) [OF p] by simp_all
  have gm: "gameState ?m = SERVING \<longleftrightarrow> gameState s = SERVING"
    by (simp add: markDetected_gameState)
  from assms Some p have "s1 = s2 \<or> s1 = startGame r s2 \<and> gameState s2 \<in> {MENU, GAME_OVER}
      \<or> s1 = triggerServe s2"
    by (auto simp: processInput_def split: sum.splits if_splits)
  then show ?thesis
    using g2 gm by auto
qed

lemma playing_aiErrorOffset:
  assumes "gameState s = PLAYING"
  shows "aiErrorOffset (playing r s) = aiErrorOffset s
       \<or> (gameState (playing r s) = SERVING
          \<and> aiErrorOffset (playing r s) = serveError (rndServeErr r))
       \<or> (hitsPlayer (paddlePlayerX s) (afterAI s)
          \<and> aiErrorOffset (playing r s) = hitError (rndHitErr r))"
proof -
  define s4 where "s4 = (if hitsPlayer (paddlePlayerX s) (afterAI s)
                then s\<lparr>ball := bouncePlayer (paddlePlayerX s) (afterAI s),
                       aiErrorOffset := hitError (rndHitErr r)\<rparr>
                else s\<lparr>ball := afterAI s\<rparr>)"
  have p: "playing r s = (if ball_y (ball s4) < 0 then scorePoint PLAYER r s4
         else if ball_y (ball s4) > CANVAS_HEIGHT then scorePoint AI r s4 else s4)"
    by (simp add: playing_def Let_def s4_def)
  have o4: "aiErrorOffset s4 = aiErrorOffset s
      \<or> (hitsPlayer (paddlePlayerX s) (afterAI s) \<and> aiErrorOffset s4 = hitError (rndHitErr r))"
    by (simp add: s4_def)
  have sc: "aiErrorOffset (scorePoint w r s4) = aiErrorOffset s4
      \<or> (gameState (scorePoint w r s4) = SERVING
         \<and> aiErrorOffset (scorePoint w r s4) = serveError (rndServeErr r))" for w
    by (simp add: scorePoint_aiErrorOffset scorePoint_gameState)
  show ?thesis
    using p o4 sc [of PLAYER] sc [of AI] by (auto split: if_splits)
qed

lemma update_aiErrorOffset:
  assumes "update lm r s = Inr s'" "aiErrorOffset s' \<noteq> aiErrorOffset s"
  shows "\<exists>s1. processInput lm r s = Inr s1
       \<and> ((gameState s \<noteq> SERVING \<and> gameState s1 = SERVING
            \<and> aiErrorOffset s' = serveError (rndServeErr r))
          \<or> (gameState s1 = PLAYING \<and> gameState s' = SERVING
            \<and> aiErrorOffset s' = serveError (rndServeErr r))
          \<or> (gameState s1 = PLAYING \<and> hitsPlayer (paddlePlayerX s1) (afterAI (aiLogic s1))
            \<and> aiErrorOffset s' = hitError (rndHitErr r)))"
proof -
  from assms(1) obtain s1 where p: "processInput lm r s = Inr s1"
    and s': "s' = ballPhysics r (aiLogic s1)"
    by (auto simp: update_def split: sum.splits)
  consider (play) "gameState s1 = PLAYING" | (serve) "gameState s1 = SERVING"
    | (other) "gameState s1 \<noteq> PLAYING" "gameState s1 \<noteq> SERVING"
    by blast
  then show ?thesis
  proof cases
    case play
    then have e: "s' = playing r (aiLogic s1)"
      using s' by (simp add: ballPhysics_def)
    have "aiErrorOffset s1 = aiErrorOffset s"
      using processInput_aiErrorOffset [OF p] play by auto
    then show ?thesis
      using playing_aiErrorOffset [of "aiLogic s1" r] play assms(2) p e by auto
  next
    case serve
    then have "aiErrorOffset s' = aiErrorOffset s1"
      using s' by (simp add: ballPhysics_def)
    then show ?thesis
      using processInput_aiErrorOffset [OF p] assms(2) p by auto
  next
    case other
    then have "aiErrorOffset s' = aiErrorOffset s1"
      using s' by (simp add: ballPhysics_def)
    then show ?thesis
      using processInput_aiErrorOffset [OF p] assms(2) other by auto
  qed
qed

lemma error_ranges:
  assumes "0 \<le> u" "u < 1"
  shows "- 25 \<le> serveError u" "serveError u < 25" "- 40 \<le> hitError u" "hitError u < 40"
  using assms by (simp_all add: serveError_def hitError_def)

lemma serveError_in_hit_range:
  assumes "0 \<le> u" "u < 1"
  shows "\<exists>v. 0 \<le> v \<and> v < 1 \<and> hitError v = serveError u"
proof (intro exI conjI)
  show "hitError (3 / 16 + 5 * u / 8) = serveError u"
    by (simp add: hitError_def serveError_def)
  show "0 \<le> 3 / 16 + 5 * u / 8" "3 / 16 + 5 * u / 8 < 1"
    using assms by linarith+
qed

text \<open>
  Claim C5 as amended. A tick changes the opponent's error offset only if in that tick a
  serve phase begins (a match is started, or a point has been scored and the next serve
  is set up), where the offset is drawn as \<open>(u - 0.5) * 50\<close>, or the player's paddle has
  hit the ball, where it is drawn as \<open>(u - 0.5) * 80\<close>. For \<open>u\<close> in \<open>[0, 1)\<close> the first
  lies in \<open>[-25, 25)\<close> and the second in \<open>[-40, 40)\<close>: the range at the start of a serve
  phase is the narrower one and lies within the other.
\<close>

theorem error_offset_events:
  "(update lm r s = Inr s' \<and> aiErrorOffset s' \<noteq> aiErrorOffset s \<longrightarrow>
      (\<exists>s1. processInput lm r s = Inr s1
        \<and> ((gameState s \<noteq> SERVING \<and> gameState s1 = SERVING
             \<and> aiErrorOffset s' = serveError (rndServeErr r))
           \<or> (gameState s1 = PLAYING \<and> gameState s' = SERVING
             \<and> aiErrorOffset s' = serveError (rndServeErr r))
           \<or> (gameState s1 = PLAYING \<and> hitsPlayer (paddlePlayerX s1) (afterAI (aiLogic s1))
             \<and> aiErrorOffset s' = hitError (rndHitErr r)))))
   \<and> aiErrorOffset (startServePhase r2 s2) = serveError (rndServeErr r2)
   \<and> (0 \<le> u \<and> u < 1 \<longrightarrow>
        - 25 \<le> serveError u \<and> serveError u < 25 \<and> - 40 \<le> hitError u \<and> hitError u < 40
        \<and> (\<exists>v. 0 \<le> v \<and> v < 1 \<and> hitError v = serveError u))"
  using update_aiErrorOffset [of lm r s s'] error_ranges [of u] serveError_in_hit_range [of u]
  by simp

lemma returnState_hit:
  "gameState (markMissing returnState) = PLAYING
   \<and> hitsPlayer (paddlePlayerX (markMissing returnState))
        (afterAI (aiLogic (markMissing returnState)))"
  by (simp add: returnState_def hitsPlayer_def afterAI_def moveBall_def hitsAI_def aiLogic_def
      markMissing_def fp_consts Let_def)

theorem error_offset_events_witness:
  "update None draws returnState = Inr returned
   \<and> aiErrorOffset returned \<noteq> aiErrorOffset returnState
   \<and> processInput None draws returnState = Inr (markMissing returnState)
   \<and> gameState (markMissing returnState) = PLAYING
   \<and> hitsPlayer (paddlePlayerX (markMissing returnState))
        (afterAI (aiLogic (markMissing returnState)))
   \<and> aiErrorOffset returned = hitError (rndHitErr draws)
   \<and> (0::real) \<le> 0 \<and> (0::real) < 1 \<and> serveError 0 = - 25 \<and> hitError 0 = - 40
   \<and> hitError (3 / 16) = serveError 0"
proof -
  have a: "aiErrorOffset returned \<noteq> aiErrorOffset returnState"
    "aiErrorOffset returned = hitError (rndHitErr draws)"
    by (simp_all add: returned_def returnState_def draws_def hitError_def)
  have b: "processInput None draws returnState = Inr (markMissing returnState)"
    by (simp add: processInput_def)
  have c: "serveError 0 = - 25" "hitError 0 = - 40" "hitError (3 / 16) = serveError 0"
    by (simp_all add: serveError_def hitError_def)
  show ?thesis
    using error_offset_events [where lm = None and r = draws and s = returnState
      and s' = returned and u = 0 and ?r2.0 = draws and ?s2.0 = returnState]
      returnState_tick returnState_hit a b c
    by simp
qed

text \<open>
  Claim C5 as stated fails in its last part. The draw 0 after a hit of the player's
  paddle gives the offset \<open>-40\<close>, which no draw at the start of a serve phase can give:
  those offsets stay within 25 of zero.
\<close>

theorem serve_offset_range_is_narrower:
  "update None draws returnState = Inr returned
   \<and> rndHitErr draws = 0
   \<and> aiErrorOffset returned = - 40
   \<and> \<not> (\<exists>v. 0 \<le> v \<and> v < 1 \<and> serveError v = - 40)
   \<and> \<not> (\<exists>v. 0 \<le> v \<and> v < 1 \<and> 25 < \<bar>serveError v\<bar>)"
proof -
  have "\<not> (\<exists>v. 0 \<le> v \<and> v < 1 \<and> serveError v = - 40)"
    "\<not> (\<exists>v. 0 \<le> v \<and> v < 1 \<and> 25 < \<bar>serveError v\<bar>)"
    by (auto simp: serveError_def)
  moreover have "rndHitErr draws = 0" "aiErrorOffset returned = - 40"
    by (simp_all add: returned_def draws_def)
  ultimately show ?thesis
    using returnState_tick by simp
qed

subsection \<open>C6: the paddles stay within the field\<close>

lemma aiLogic_paddleAIX:
  "inField (paddleAIX s) \<Longrightarrow> inField (paddleAIX (aiLogic s))"
  by (simp add: aiLogic_def Let_def inField_def fp_consts)

lemma processInput_paddles:
  assumes "processInput lm r s = Inr s1"
  shows "paddleAIX s1 = paddleAIX s"
    and "inField (paddlePlayerX s) \<Longrightarrow> inField (paddlePlayerX s1)"
    and "lm \<noteq> None \<Longrightarrow> inField (paddlePlayerX s1)"
proof -
  have "paddleAIX s1 = paddleAIX s
      \<and> (inField (paddlePlayerX s) \<longrightarrow> inField (paddlePlayerX s1))
      \<and> (lm \<noteq> None \<longrightarrow> inField (paddlePlayerX s1))"
  proof (cases lm)
    case None
    with assms show ?thesis by (auto simp: processInput_def)
  next
    case (Some f)
    let ?m = "markDetected (s\<lparr>missingHandFrames := 0\<rparr>)"
    from assms Some obtain s2 where p: "updatePlayerPaddle f ?m = Inr s2"
      by (auto simp: processInput_def split: sum.splits)
    have i2: "inField (paddlePlayerX s2)" "paddleAIX s2 = paddleAIX s"
      using updatePlayerPaddle_Inr(6,11,12) [OF p] by (simp_all add: inField_def)
    from assms Some p have "s1 = s2 \<or> s1 = startGame r s2 \<or> s1 = triggerServe s2"
      by (auto simp: processInput_def split: sum.splits if_splits)
    then show ?thesis
      using i2 by auto
  qed
  then show "paddleAIX s1 = paddleAIX s"
    and "inField (paddlePlayerX s) \<Longrightarrow> inField (paddlePlayerX s1)"
    and "lm \<noteq> None \<Longrightarrow> inField (paddlePlayerX s1)"
    by simp_all
qed

lemma update_paddles:
  assumes "update lm r s = Inr s'"
  shows "inField (paddleAIX s) \<Longrightarrow> inField (paddleAIX s')"
    and "inField (paddlePlayerX s) \<Longrightarrow> inField (paddlePlayerX s')"
    and "lm \<noteq> None \<Longrightarrow> inField (paddlePlayerX s')"
proof -
  from assms(1) obtain s1 where p: "processInput lm r s = Inr s1"
    and s': "s' = ballPhysics r (aiLogic s1)"
    by (auto simp: update_def split: sum.splits)
  show "inField (paddleAIX s) \<Longrightarrow> inField (paddleAIX s')"
    using processInput_paddles(1) [OF p] aiLogic_paddleAIX [of s1] s' by simp
  show "inField (paddlePlayerX s) \<Longrightarrow> inField (paddlePlayerX s')"
    using processInput_paddles(2) [OF p] s' by simp
  show "lm \<noteq> None \<Longrightarrow> inField (paddlePlayerX s')"
    using processInput_paddles(3) [OF p] s' by simp
qed

lemma run_paddles:
  "run s ts = Inr s' \<Longrightarrow> inField (paddlePlayerX s) \<and> inField (paddleAIX s) \<Longrightarrow>
   inField (paddlePlayerX s') \<and> inField (paddleAIX s')"
proof (induction ts arbitrary: s)
  case Nil
  then show ?case by simp
next
  case (Cons t ts)
  obtain lm r where t: "t = (lm, r)" by (cases t)
  from Cons.prems(1) t obtain s1 where u: "update lm r s = Inr s1" and rest: "run s1 ts = Inr s'"
    by (auto split: sum.splits)
  show ?case
    using Cons.IH [OF rest] update_paddles(1,2) [OF u] Cons.prems(2) by simp
qed

lemma initial_paddles:
  "inField (paddlePlayerX (cameraReady (initial rnd)))
   \<and> inField (paddleAIX (cameraReady (initial rnd)))"
  by (simp add: cameraReady_def initial_def inField_def fp_consts)

lemma lerpPaddle_inField:
  assumes "pm_inField (physPaddleX s)"
  shows "pm_inField (physPaddleX (lerpPaddle s))"
proof -
  define c where "c = max 0 (min (GAME_WIDTH - PM_PADDLE_WIDTH)
                              (paddleX s * GAME_WIDTH - PM_PADDLE_WIDTH / 2))"
  have c: "0 \<le> c" "c \<le> 680"
    by (simp_all add: c_def pm_consts)
  have "physPaddleX (lerpPaddle s) = physPaddleX s + (c - physPaddleX s) * (3 / 10)"
    by (simp add: lerpPaddle_def Let_def c_def)
  then have e: "physPaddleX (lerpPaddle s) = 7 / 10 * physPaddleX s + 3 / 10 * c"
    by (simp add: field_simps)
  have p: "0 \<le> physPaddleX s" "physPaddleX s \<le> 680"
    using assms by (simp_all add: pm_inField_def pm_consts)
  have "0 \<le> physPaddleX (lerpPaddle s)"
    unfolding e using c p by linarith
  moreover have "physPaddleX (lerpPaddle s) \<le> 680"
    unfolding e using c p by linarith
  ultimately show ?thesis
    by (simp add: pm_inField_def pm_consts)
qed

lemma aiMove_inField: "pm_inField (aiMove bx a)"
  by (simp add: aiMove_def Let_def pm_inField_def pm_consts)

lemma pm_paddlesOk_resetBall:
  "pm_inField (physPaddleX s) \<Longrightarrow> pm_inField (aiPaddleX s) \<Longrightarrow>
   pm_paddlesOk (pm_resetBall w now s)"
  by (simp add: pm_paddlesOk_def)

lemma handleScoring_ball:
  "\<not> isServing s \<Longrightarrow> isServing (handleScoring w now s) \<Longrightarrow>
   pm_x (pm_ball (handleScoring w now s)) = GAME_WIDTH / 2"
  by (auto simp: handleScoring_def Let_def checkWinCondition_def split: if_splits)

lemma handleScoring_paddlesOk:
  assumes "pm_inField (physPaddleX s)" "pm_inField (aiPaddleX s)" "\<not> isServing s"
  shows "pm_paddlesOk (handleScoring w now s)"
  using assms handleScoring_ball [of s w now] by (simp add: pm_paddlesOk_def)

lemma pm_paddlesOk_cong:
  "physPaddleX t = physPaddleX s \<Longrightarrow> aiPaddleX t = aiPaddleX s \<Longrightarrow> isServing t = isServing s
   \<Longrightarrow> server t = server s \<Longrightarrow> pm_ball t = pm_ball s \<Longrightarrow> pm_paddlesOk t = pm_paddlesOk s"
  by (simp add: pm_paddlesOk_def)

lemma serveLogic_paddlesOk:
  assumes "pm_paddlesOk s" "isServing s"
  shows "pm_paddlesOk (serveLogic now rnd s)"
proof (cases "server s = ServerPlayer")
  case True
  then show ?thesis
    using assms by (simp add: serveLogic_def Let_def pm_paddlesOk_def)
next
  case False
  then have ai: "server s = ServerAI" by (cases "server s") simp_all
  then have x: "pm_x (pm_ball s) = GAME_WIDTH / 2"
    using assms by (simp add: pm_paddlesOk_def)
  have "pm_inField (pm_x (pm_ball s) - PM_PADDLE_WIDTH / 2)"
    unfolding x by (simp add: pm_inField_def pm_consts)
  then show ?thesis
    using assms ai by (simp add: serveLogic_def Let_def pm_paddlesOk_def)
qed

lemma physicsStep_paddlesOk:
  assumes "pm_inField (physPaddleX s)" "\<not> isServing s"
  shows "pm_paddlesOk (physicsStep now s)"
proof -
  define a where "a = aiMove (pm_x (pm_moveBall (pm_ball s))) (aiPaddleX s)"
  define b2 where "b2 = (if pm_hitsPlayer (physPaddleX s) (pm_moveBall (pm_ball s))
                then pm_bouncePlayer (physPaddleX s) (pm_moveBall (pm_ball s))
                else pm_moveBall (pm_ball s))"
  define b3 where "b3 = (if pm_hitsAI a b2 then pm_bounceAI a b2 else b2)"
  define s3 where "s3 = s\<lparr>aiPaddleX := a, pm_ball := b3\<rparr>"
  have e: "physicsStep now s =
      (if pm_y b3 > GAME_HEIGHT then handleScoring ServerAI now s3
       else if pm_y b3 < 0 then handleScoring ServerPlayer now s3
       else s3)"
    by (simp add: physicsStep_def Let_def a_def b2_def b3_def s3_def)
  have f: "pm_inField (physPaddleX s3)" "pm_inField (aiPaddleX s3)" "\<not> isServing s3"
    using assms by (simp_all add: s3_def a_def aiMove_inField)
  then have "pm_paddlesOk s3"
    by (simp add: pm_paddlesOk_def)
  then show ?thesis
    using e handleScoring_paddlesOk [OF f] by simp
qed

lemma pm_update_paddlesOk:
  assumes "pm_paddlesOk s"
  shows "pm_paddlesOk (pm_update now rnd s)"
proof (cases "pm_gameState s = PM_PLAYING")
  case False
  then show ?thesis using assms by (simp add: pm_update_def)
next
  case True
  have l: "pm_paddlesOk (lerpPaddle s)"
    using assms lerpPaddle_inField [of s] by (simp add: pm_paddlesOk_def)
  show ?thesis
  proof (cases "isServing s")
    case True
    then show ?thesis
      using \<open>pm_gameState s = PM_PLAYING\<close> serveLogic_paddlesOk [OF l, of now rnd]
      by (simp add: pm_update_def Let_def)
  next
    case False
    then show ?thesis
      using \<open>pm_gameState s = PM_PLAYING\<close> physicsStep_paddlesOk [of "lerpPaddle s" now] l
      by (simp add: pm_update_def Let_def pm_paddlesOk_def)
  qed
qed

lemma appStep_paddlesOk:
  assumes "pm_paddlesOk s"
  shows "pm_paddlesOk (appStep e s)"
proof (cases e)
  case (Frame now rnd)
  then show ?thesis using pm_update_paddlesOk [OF assms] by (simp add: appStep_def)
next
  case (PlayAgain now)
  have "pm_paddlesOk (resetEffect now (restartGame s))"
    using assms by (simp add: pm_paddlesOk_def restartGame_def)
  then show ?thesis
    using PlayAgain assms by (simp add: appStep_def pm_paddlesOk_def)
qed (use assms in \<open>simp_all add: appStep_def pm_paddlesOk_def\<close>)

lemma pm_run_paddlesOk: "pm_paddlesOk s \<Longrightarrow> pm_paddlesOk (pm_run s es)"
  by (induction es arbitrary: s) (simp_all add: appStep_paddlesOk)

lemma pm_initial_paddlesOk: "pm_paddlesOk (pm_initial now)"
  by (simp add: pm_paddlesOk_def pm_initial_def pm_inField_def pm_consts)

text \<open>
  Claim C6. In the engine a tick keeps both paddle centres within
  \<open>[PADDLE_WIDTH / 2, CANVAS_WIDTH - PADDLE_WIDTH / 2]\<close>, a tick with a hand frame puts
  the player's paddle there whatever the frame asks for, and so both are there after
  every run of the loop. In the canvas of the other game every event keeps both paddles
  within the corresponding bounds, from the first state on. Within these bounds the
  extent of a paddle lies in the field.
\<close>

theorem paddles_stay_in_field:
  "(update lm r s = Inr s' \<and> inField (paddlePlayerX s) \<and> inField (paddleAIX s) \<longrightarrow>
      inField (paddlePlayerX s') \<and> inField (paddleAIX s'))
   \<and> (update (Some f) r1 s1 = Inr t1 \<longrightarrow> inField (paddlePlayerX t1))
   \<and> (run (cameraReady (initial rnd)) ts = Inr s2 \<longrightarrow>
        inField (paddlePlayerX s2) \<and> inField (paddleAIX s2))
   \<and> (pm_paddlesOk c \<longrightarrow> pm_paddlesOk (appStep e c))
   \<and> pm_paddlesOk (pm_run (pm_initial now) es)
   \<and> (pm_paddlesOk c1 \<longrightarrow>
        0 \<le> physPaddleX c1 \<and> physPaddleX c1 + PM_PADDLE_WIDTH \<le> GAME_WIDTH
        \<and> 0 \<le> aiPaddleX c1 \<and> aiPaddleX c1 + PM_PADDLE_WIDTH \<le> GAME_WIDTH)
   \<and> (inField v \<longrightarrow> 0 \<le> v - PADDLE_WIDTH / 2 \<and> v + PADDLE_WIDTH / 2 \<le> CANVAS_WIDTH)"
proof (intro conjI impI)
  assume "update lm r s = Inr s' \<and> inField (paddlePlayerX s) \<and> inField (paddleAIX s)"
  then show "inField (paddlePlayerX s')" "inField (paddleAIX s')"
    using update_paddles(1,2) by blast+
next
  assume "update (Some f) r1 s1 = Inr t1"
  then show "inField (paddlePlayerX t1)"
    using update_paddles(3) by blast
next
  assume "run (cameraReady (initial rnd)) ts = Inr s2"
  then show "inField (paddlePlayerX s2)" "inField (paddleAIX s2)"
    using run_paddles initial_paddles by blast+
next
  assume "pm_paddlesOk c"
  then show "pm_paddlesOk (appStep e c)"
    by (rule appStep_paddlesOk)
next
  show "pm_paddlesOk (pm_run (pm_initial now) es)"
    by (simp add: pm_run_paddlesOk pm_initial_paddlesOk)
next
  assume "pm_paddlesOk c1"
  then show "0 \<le> physPaddleX c1" "physPaddleX c1 + PM_PADDLE_WIDTH \<le> GAME_WIDTH"
    "0 \<le> aiPaddleX c1" "aiPaddleX c1 + PM_PADDLE_WIDTH \<le> GAME_WIDTH"
    by (simp_all add: pm_paddlesOk_def pm_inField_def pm_consts)
next
  assume "inField v"
  then show "0 \<le> v - PADDLE_WIDTH / 2" "v + PADDLE_WIDTH / 2 \<le> CANVAS_WIDTH"
    by (simp_all add: inField_def fp_consts)
qed

lemma farFrame_tick:
  "update (Some farFrame) draws returnState
     = Inr (returnState\<lparr>paddlePlayerX := 1220,
              ball := (ball returnState)\<lparr>ball_y := 672\<rparr>\<rparr>)"
  by (simp add: update_def processInput_def markDetected_def updatePlayerPaddle_def aiLogic_def
      ballPhysics_def playing_def afterAI_def moveBall_def hitsAI_def hitsPlayer_def
      fp_consts returnState_def farFrame_def draws_def Let_def)

theorem paddles_stay_in_field_witness:
  "update (Some farFrame) draws returnState
     = Inr (returnState\<lparr>paddlePlayerX := 1220, ball := (ball returnState)\<lparr>ball_y := 672\<rparr>\<rparr>)
   \<and> (1 - pt_x (farFrame ! 8)) * CANVAS_WIDTH = 5120
   \<and> inField (paddlePlayerX returnState) \<and> inField (paddleAIX returnState)
   \<and> inField 1220
   \<and> run (cameraReady (initial (1 / 2))) [(None, draws)]
       = Inr (markMissing (cameraReady (initial (1 / 2))))
   \<and> inField (paddlePlayerX (markMissing (cameraReady (initial (1 / 2)))))
   \<and> pm_paddlesOk pm_firstReturn
   \<and> pm_paddlesOk (appStep (Frame 0 (1 / 2)) pm_firstReturn)
   \<and> physPaddleX pm_firstReturn + PM_PADDLE_WIDTH \<le> GAME_WIDTH
   \<and> (0::real) \<le> 1220 - PADDLE_WIDTH / 2 \<and> 1220 + PADDLE_WIDTH / 2 \<le> CANVAS_WIDTH"
proof -
  have a: "(1 - pt_x (farFrame ! 8)) * CANVAS_WIDTH = 5120"
    by (simp add: farFrame_def fp_consts)
  have b: "inField (paddlePlayerX returnState)" "inField (paddleAIX returnState)" "inField 1220"
    by (simp_all add: inField_def returnState_def fp_consts)
  have c: "pm_paddlesOk pm_firstReturn"
    by (simp add: pm_paddlesOk_def pm_inField_def pm_firstReturn_def pm_consts)
  show ?thesis
    using paddles_stay_in_field [where lm = "Some farFrame" and r = draws and s = returnState
        and s' = "returnState\<lparr>paddlePlayerX := 1220,
                     ball := (ball returnState)\<lparr>ball_y := 672\<rparr>\<rparr>"
        and f = farFrame and ?r1.0 = draws and ?s1.0 = returnState
        and ?t1.0 = "returnState\<lparr>paddlePlayerX := 1220,
                     ball := (ball returnState)\<lparr>ball_y := 672\<rparr>\<rparr>"
        and rnd = "1 / 2" and ts = "[(None, draws)]"
        and ?s2.0 = "markMissing (cameraReady (initial (1 / 2)))"
        and c = pm_firstReturn and e = "Frame 0 (1 / 2)" and ?c1.0 = pm_firstReturn
        and v = 1220]
      farFrame_tick first_tick a b c
    by simp
qed

subsection \<open>C7: the fist\<close>

paragraph \<open>Rounding to a double\<close>

lemma pow2_Suc: "pow2 (k + 1) = 2 * pow2 k"
proof (cases "0 \<le> k")
  case True
  then have "nat (k + 1) = Suc (nat k)" by simp
  then show ?thesis using True by (simp add: pow2_def)
next
  case False
  then have "nat (- k) = Suc (nat (- (k + 1)))" by simp
  then have "(2::real) ^ nat (- k) = 2 * 2 ^ nat (- (k + 1))" by simp
  then show ?thesis using False by (simp add: pow2_def)
qed

lemma pow2_pos: "0 < pow2 k"
  by (simp add: pow2_def)

lemma pow2_le_one: "k \<le> 0 \<Longrightarrow> pow2 k \<le> 1"
  by (auto simp: pow2_def field_simps)

lemma expDown_correct:
  "pow2 (- int k) \<le> x \<Longrightarrow> x < pow2 (1 - int k) \<Longrightarrow> k \<le> n \<Longrightarrow> expDown n x = - int k"
proof (induction n arbitrary: x k)
  case 0
  then have "k = 0" by simp
  then show ?case by simp
next
  case (Suc n)
  show ?case
  proof (cases k)
    case 0
    then have "1 \<le> x" using Suc.prems(1) by (simp add: pow2_def)
    then show ?thesis using 0 by simp
  next
    case (Suc j)
    have "pow2 (1 - int k) \<le> 1"
      using Suc by (intro pow2_le_one) simp
    then have lt: "\<not> 1 \<le> x"
      using Suc.prems(2) by simp
    have e1: "- int j = - int k + 1" and e2: "1 - int j = (1 - int k) + 1"
      using Suc by simp_all
    have "pow2 (- int j) = 2 * pow2 (- int k)"
      unfolding e1 by (rule pow2_Suc)
    then have a: "pow2 (- int j) \<le> x * 2"
      using Suc.prems(1) by linarith
    have "pow2 (1 - int j) = 2 * pow2 (1 - int k)"
      unfolding e2 by (rule pow2_Suc)
    then have b: "x * 2 < pow2 (1 - int j)"
      using Suc.prems(2) by linarith
    have kn: "j \<le> n" using Suc.prems(3) Suc by simp
    have "expDown n (x * 2) = - int j"
      by (rule Suc.IH [OF a b kn])
    moreover have "expDown (Suc n) x = expDown n (x * 2) - 1"
      using lt by simp
    ultimately show ?thesis using Suc by simp
  qed
qed

lemma exponent_below_one:
  assumes "pow2 e \<le> x" "x < pow2 (e + 1)" "- 1022 \<le> e" "e < 0"
  shows "exponent x = e"
proof -
  have "x < 1"
  proof -
    have "pow2 (e + 1) \<le> 1" using assms(4) by (intro pow2_le_one) simp
    then show ?thesis using assms(2) by simp
  qed
  moreover have "expDown 1022 x = - int (nat (- e))"
    using assms by (intro expDown_correct) (simp_all add: add.commute)
  ultimately show ?thesis using assms(4) by (simp add: exponent_def)
qed

lemma roundEven_near: "\<bar>x - of_int m\<bar> < 1 / 2 \<Longrightarrow> roundEven x = m"
proof -
  assume a: "\<bar>x - of_int m\<bar> < 1 / 2"
  show ?thesis
  proof (cases "of_int m \<le> x")
    case True
    then have "\<lfloor>x\<rfloor> = m" using a by (intro floor_unique) auto
    then show ?thesis using a True by (simp add: roundEven_def Let_def)
  next
    case False
    then have "\<lfloor>x\<rfloor> = m - 1" using a by (intro floor_unique) auto
    then show ?thesis using a False by (auto simp: roundEven_def Let_def)
  qed
qed

lemma double_near:
  assumes "pow2 e \<le> x" "x < pow2 (e + 1)" "- 1022 \<le> e" "e < 0"
    and "\<bar>x - pow2 (e - 52) * of_int m\<bar> < pow2 (e - 52) / 2"
  shows "double x = pow2 (e - 52) * of_int m"
proof -
  let ?u = "pow2 (e - 52)"
  have u: "0 < ?u" by (rule pow2_pos)
  have x: "0 < x" using assms(1) pow2_pos [of e] by linarith
  have ex: "exponent \<bar>x\<bar> = e"
    using exponent_below_one [OF assms(1-4)] x by simp
  have "\<bar>x / ?u - of_int m\<bar> = \<bar>x - ?u * of_int m\<bar> / ?u"
    using u by (simp add: field_simps abs_divide)
  also have "\<dots> < 1 / 2"
    using assms(5) u by (simp add: field_simps)
  finally have "roundEven (x / ?u) = m" by (rule roundEven_near)
  then show ?thesis
    using x ex by (simp add: double_def Let_def)
qed

lemma double_zero [simp]: "double 0 = 0"
  by (simp add: double_def)

lemma double_minus: "double (- x) = - double x"
  by (simp add: double_def Let_def sgn_minus)

lemma double_eval:
  assumes "pow2 e \<le> x" "x < pow2 (e + 1)" "- 1022 \<le> e" "e < 0"
  shows "double x = pow2 (e - 52) * of_int (roundEven (x / pow2 (e - 52)))"
proof -
  have x: "0 < x" using assms(1) pow2_pos [of e] by linarith
  have "exponent \<bar>x\<bar> = e"
    using exponent_below_one [OF assms] x by simp
  then show ?thesis
    using x by (simp add: double_def Let_def)
qed

lemma double_exact:
  assumes "pow2 e \<le> x" "x < pow2 (e + 1)" "- 1022 \<le> e" "e < 0"
    and "x = pow2 (e - 52) * of_int m"
  shows "double x = x"
proof -
  have "\<bar>x - pow2 (e - 52) * of_int m\<bar> < pow2 (e - 52) / 2"
    using assms(5) pow2_pos [of "e - 52"] by simp
  then have "double x = pow2 (e - 52) * of_int m"
    by (rule double_near [OF assms(1-4)])
  then show ?thesis using assms(5) by simp
qed

lemma FIST_THRESHOLD_eq: "FIST_THRESHOLD = 5764607523034235 / 2 ^ 56"
  unfolding FIST_THRESHOLD_def
  using double_near [where x = "8 / 100" and e = "- 4" and m = 5764607523034235]
  by (simp add: pow2_def)

lemma double_nine_tenths: "double (9 / 10) = 8106479329266893 / 2 ^ 53"
  using double_near [where x = "9 / 10" and e = "- 1" and m = 8106479329266893]
  by (simp add: pow2_def)

lemma avgDist_eq:
  "avgDist lm = ddiv (dadd (dadd (dadd (dadd 0 (dist (lm ! 8) (lm ! 0))) (dist (lm ! 12) (lm ! 0)))
                        (dist (lm ! 16) (lm ! 0))) (dist (lm ! 20) (lm ! 0))) 4"
  by (simp add: avgDist_def Let_def)

lemma sqrt_square: "0 \<le> a \<Longrightarrow> sqrt (a * a) = a"
  by simp

lemma double_dyadic:
  "double (1 / 2) = 1 / 2" "double (1 / 4) = 1 / 4" "double (3 / 8) = 3 / 8"
  "double (1 / 8) = 1 / 8" "double (1 / 64) = 1 / 64" "double (1 / 32) = 1 / 32"
  "double (1 / 1024) = 1 / 1024" "double (1 / 16) = 1 / 16"
  "double (5 / 16) = 5 / 16" "double (25 / 256) = 25 / 256" "double (1 / 4096) = 1 / 4096"
  "double (3 / 16) = 3 / 16" "double (9 / 256) = 9 / 256" "double (3 / 4) = 3 / 4"
  "double (1 / 128) = 1 / 128"
proof -
  show "double (1 / 2) = 1 / 2"
    by (rule double_exact [where e = "- 1" and m = "2 ^ 52"]) (simp_all add: pow2_def)
  show "double (1 / 4) = 1 / 4"
    by (rule double_exact [where e = "- 2" and m = "2 ^ 52"]) (simp_all add: pow2_def)
  show "double (3 / 8) = 3 / 8"
    by (rule double_exact [where e = "- 2" and m = "3 * 2 ^ 51"]) (simp_all add: pow2_def)
  show "double (1 / 8) = 1 / 8"
    by (rule double_exact [where e = "- 3" and m = "2 ^ 52"]) (simp_all add: pow2_def)
  show "double (1 / 64) = 1 / 64"
    by (rule double_exact [where e = "- 6" and m = "2 ^ 52"]) (simp_all add: pow2_def)
  show "double (1 / 32) = 1 / 32"
    by (rule double_exact [where e = "- 5" and m = "2 ^ 52"]) (simp_all add: pow2_def)
  show "double (1 / 1024) = 1 / 1024"
    by (rule double_exact [where e = "- 10" and m = "2 ^ 52"]) (simp_all add: pow2_def)
  show "double (1 / 16) = 1 / 16"
    by (rule double_exact [where e = "- 4" and m = "2 ^ 52"]) (simp_all add: pow2_def)
  show "double (5 / 16) = 5 / 16"
    by (rule double_exact [where e = "- 2" and m = "5 * 2 ^ 50"]) (simp_all add: pow2_def)
  show "double (25 / 256) = 25 / 256"
    by (rule double_exact [where e = "- 4" and m = "25 * 2 ^ 48"]) (simp_all add: pow2_def)
  show "double (1 / 4096) = 1 / 4096"
    by (rule double_exact [where e = "- 12" and m = "2 ^ 52"]) (simp_all add: pow2_def)
  show "double (3 / 16) = 3 / 16"
    by (rule double_exact [where e = "- 3" and m = "3 * 2 ^ 51"]) (simp_all add: pow2_def)
  show "double (9 / 256) = 9 / 256"
    by (rule double_exact [where e = "- 5" and m = "9 * 2 ^ 49"]) (simp_all add: pow2_def)
  show "double (3 / 4) = 3 / 4"
    by (rule double_exact [where e = "- 1" and m = "3 * 2 ^ 51"]) (simp_all add: pow2_def)
  show "double (1 / 128) = 1 / 128"
    by (rule double_exact [where e = "- 7" and m = "2 ^ 52"]) (simp_all add: pow2_def)
qed

lemma sqrt_dyadic:
  "sqrt (1 / 64) = 1 / 8" "sqrt (1 / 1024) = 1 / 32" "sqrt (25 / 256) = 5 / 16"
  "sqrt (1 / 4) = 1 / 2" "sqrt (1 / 4096) = 1 / 64" "sqrt (9 / 256) = 3 / 16"
  using sqrt_square [of "1 / 8"] sqrt_square [of "1 / 32"] sqrt_square [of "5 / 16"]
    sqrt_square [of "1 / 2"] sqrt_square [of "1 / 64"] sqrt_square [of "3 / 16"]
  by simp_all

lemma fistFrame_isFist: "isFist fistFrame = Inr True"
  by (simp add: isFist_def avgDist_eq fistFrame_def dist_def dsub_def dsquare_def dadd_def
      dsqrt_def ddiv_def FIST_THRESHOLD_eq)

lemma openFrame_dist:
  "dist \<lparr>pt_x = 1 / 2, pt_y = 3 / 8\<rparr> \<lparr>pt_x = 1 / 2, pt_y = 1 / 2\<rparr> = 1 / 8"
  by (simp add: dist_def dsub_def dsquare_def dadd_def dsqrt_def double_minus double_dyadic
      sqrt_dyadic)

lemma openFrame_isFist: "isFist openFrame = Inr False"
  by (simp add: isFist_def avgDist_eq openFrame_def openFrame_dist dadd_def ddiv_def
      double_dyadic FIST_THRESHOLD_eq)

paragraph \<open>Distances along an axis\<close>

lemma dist_axis:
  assumes "double a = a" "double (double (a * a)) = double (a * a)"
    "double (sqrt (double (a * a))) = a"
  shows "dist \<lparr>pt_x = a, pt_y = 0\<rparr> \<lparr>pt_x = 0, pt_y = 0\<rparr> = a"
    and "dist \<lparr>pt_x = 0, pt_y = a\<rparr> \<lparr>pt_x = 0, pt_y = 0\<rparr> = a"
  using assms by (simp_all add: dist_def dsub_def dsquare_def dadd_def dsqrt_def)

lemma dist_same: "dist p p = 0"
  by (simp add: dist_def dsub_def dsquare_def dadd_def dsqrt_def)

text \<open>A number of at most 26 significant bits: its square is a double, and so is the
  root of the square.\<close>

lemma short_mantissa:
  assumes "0 < a" "double a = a" "double (a * a) = a * a"
  shows "double (double (a * a)) = double (a * a)" "double (sqrt (double (a * a))) = a"
  using assms by simp_all

paragraph \<open>The frame at the threshold\<close>

lemma threshold_exact: "double FIST_THRESHOLD = FIST_THRESHOLD"
  unfolding FIST_THRESHOLD_eq
  by (rule double_exact [where e = "- 4" and m = 5764607523034235]) (simp_all add: pow2_def)

lemma threshold_square:
  "double (FIST_THRESHOLD * FIST_THRESHOLD) = 7378697629483821 / 2 ^ 60"
  unfolding FIST_THRESHOLD_eq
  using double_near [where x = "5764607523034235 / 2 ^ 56 * (5764607523034235 / 2 ^ 56)"
      and e = "- 8" and m = 7378697629483821]
  by (simp add: pow2_def)

lemma threshold_square_exact:
  "double (7378697629483821 / 2 ^ 60) = 7378697629483821 / 2 ^ 60"
  by (rule double_exact [where e = "- 8" and m = 7378697629483821]) (simp_all add: pow2_def)

lemma threshold_sqrt:
  "double (sqrt (7378697629483821 / 2 ^ 60)) = FIST_THRESHOLD"
proof -
  let ?q = "7378697629483821 / 2 ^ 60 :: real"
  let ?t = "5764607523034235 / 2 ^ 56 :: real"
  have lo: "?t - 1 / 2 ^ 57 < sqrt ?q"
    by (rule real_less_rsqrt) (simp add: power2_eq_square)
  have hi: "sqrt ?q < ?t + 1 / 2 ^ 57"
    by (rule real_less_lsqrt) (simp_all add: power2_eq_square)
  have b1: "pow2 (- 4) \<le> sqrt ?q"
    using lo by (simp add: pow2_def)
  have b2: "sqrt ?q < pow2 (- 4 + 1)"
    using hi by (simp add: pow2_def)
  have d: "\<bar>sqrt ?q - ?t\<bar> < 1 / 2 ^ 57"
    using lo hi by linarith
  have e1: "pow2 (- 4 - 52) * of_int 5764607523034235 = ?t"
    and e2: "pow2 (- 4 - 52) / 2 = 1 / 2 ^ 57"
    by (simp_all add: pow2_def)
  have near: "\<bar>sqrt ?q - pow2 (- 4 - 52) * of_int 5764607523034235\<bar> < pow2 (- 4 - 52) / 2"
    unfolding e1 e2 by (rule d)
  show ?thesis
    unfolding FIST_THRESHOLD_eq
    using double_near [OF b1 b2 _ _ near] by (simp add: pow2_def)
qed

lemma threshold_dist:
  "dist \<lparr>pt_x = FIST_THRESHOLD, pt_y = 0\<rparr> \<lparr>pt_x = 0, pt_y = 0\<rparr> = FIST_THRESHOLD"
  "dist \<lparr>pt_x = 0, pt_y = FIST_THRESHOLD\<rparr> \<lparr>pt_x = 0, pt_y = 0\<rparr> = FIST_THRESHOLD"
proof -
  have a: "double (double (FIST_THRESHOLD * FIST_THRESHOLD))
           = double (FIST_THRESHOLD * FIST_THRESHOLD)"
    unfolding threshold_square by (rule threshold_square_exact)
  have b: "double (sqrt (double (FIST_THRESHOLD * FIST_THRESHOLD))) = FIST_THRESHOLD"
    unfolding threshold_square by (rule threshold_sqrt)
  show "dist \<lparr>pt_x = FIST_THRESHOLD, pt_y = 0\<rparr> \<lparr>pt_x = 0, pt_y = 0\<rparr> = FIST_THRESHOLD"
    "dist \<lparr>pt_x = 0, pt_y = FIST_THRESHOLD\<rparr> \<lparr>pt_x = 0, pt_y = 0\<rparr> = FIST_THRESHOLD"
    by (rule dist_axis [OF threshold_exact a b])+
qed

text \<open>Four times the threshold, added up from zero and divided by four, is the
  threshold again: the sum of three rounds to even, downwards, and the fourth addition
  rounds back up.\<close>

lemma threshold_sum:
  "ddiv (dadd (dadd (dadd (dadd 0 FIST_THRESHOLD) FIST_THRESHOLD) FIST_THRESHOLD) FIST_THRESHOLD) 4
     = FIST_THRESHOLD"
proof -
  let ?t = "5764607523034235 / 2 ^ 56 :: real"
  have t: "double ?t = ?t"
    using threshold_exact unfolding FIST_THRESHOLD_eq .
  have s1: "double (0 + ?t) = ?t" using t by simp
  have s2: "double (?t + ?t) = 5764607523034235 / 2 ^ 55"
    using double_exact [where x = "?t + ?t" and e = "- 3" and m = 5764607523034235]
    by (simp add: pow2_def)
  have s3: "double (5764607523034235 / 2 ^ 55 + ?t) = 17293822569102704 / 2 ^ 56"
    using double_eval [where x = "5764607523034235 / 2 ^ 55 + ?t" and e = "- 3"]
    by (simp add: pow2_def roundEven_def)
  have s4: "double (17293822569102704 / 2 ^ 56 + ?t) = 5764607523034235 / 2 ^ 54"
    using double_near [where x = "17293822569102704 / 2 ^ 56 + ?t" and e = "- 2"
        and m = 5764607523034235]
    by (simp add: pow2_def)
  have s5: "double (5764607523034235 / 2 ^ 54 / 4) = ?t"
    using t by simp
  show ?thesis
    unfolding FIST_THRESHOLD_eq dadd_def ddiv_def s1 s2 s3 s4 s5 ..
qed

lemma thresholdFrame_isFist: "isFist thresholdFrame = Inr False"
proof -
  have "avgDist thresholdFrame = FIST_THRESHOLD"
    by (simp add: avgDist_eq thresholdFrame_def threshold_dist threshold_sum)
  then show ?thesis by (simp add: isFist_def thresholdFrame_def)
qed

paragraph \<open>The frame whose sum is rounded\<close>

lemma farTip_exact: "0 < farTip" "double farTip = farTip" "double (farTip * farTip) = farTip * farTip"
proof -
  show "0 < farTip" by (simp add: farTip_def)
  show "double farTip = farTip"
    unfolding farTip_def
    by (rule double_exact [where e = "- 2" and m = 5764607394185216]) (simp_all add: pow2_def)
  show "double (farTip * farTip) = farTip * farTip"
    unfolding farTip_def
    by (rule double_exact [where e = "- 4" and m = 7378697299630336]) (simp_all add: pow2_def)
qed

lemma nearTip_exact:
  "0 < nearTip" "double nearTip = nearTip" "double (nearTip * nearTip) = nearTip * nearTip"
proof -
  show "0 < nearTip" by (simp add: nearTip_def)
  show "double nearTip = nearTip"
    unfolding nearTip_def
    by (rule double_exact [where e = "- 28" and m = "128849018 * 2 ^ 26"])
      (simp_all add: pow2_def)
  show "double (nearTip * nearTip) = nearTip * nearTip"
    unfolding nearTip_def
    by (rule double_exact [where e = "- 55" and m = 8301034719782162]) (simp_all add: pow2_def)
qed

lemma tinyTip_exact:
  "0 < tinyTip" "double tinyTip = tinyTip" "double (tinyTip * tinyTip) = tinyTip * tinyTip"
proof -
  show "0 < tinyTip" by (simp add: tinyTip_def)
  show "double tinyTip = tinyTip"
    unfolding tinyTip_def
    by (rule double_exact [where e = "- 55" and m = "3 * 2 ^ 51"]) (simp_all add: pow2_def)
  show "double (tinyTip * tinyTip) = tinyTip * tinyTip"
    unfolding tinyTip_def
    by (rule double_exact [where e = "- 109" and m = "9 * 2 ^ 49"]) (simp_all add: pow2_def)
qed

lemma roundingFrame_dist:
  "dist \<lparr>pt_x = farTip, pt_y = 0\<rparr> \<lparr>pt_x = 0, pt_y = 0\<rparr> = farTip"
  "dist \<lparr>pt_x = nearTip, pt_y = 0\<rparr> \<lparr>pt_x = 0, pt_y = 0\<rparr> = nearTip"
  "dist \<lparr>pt_x = tinyTip, pt_y = 0\<rparr> \<lparr>pt_x = 0, pt_y = 0\<rparr> = tinyTip"
  using dist_axis(1) [OF farTip_exact(2) short_mantissa [OF farTip_exact]]
    dist_axis(1) [OF nearTip_exact(2) short_mantissa [OF nearTip_exact]]
    dist_axis(1) [OF tinyTip_exact(2) short_mantissa [OF tinyTip_exact]]
  by simp_all

lemma roundingFrame_sum:
  "ddiv (dadd (dadd (dadd (dadd 0 farTip) nearTip) tinyTip) 0) 4 = FIST_THRESHOLD"
proof -
  have s1: "double (0 + farTip) = farTip" using farTip_exact(2) by simp
  have s2: "double (farTip + nearTip) = 5764607523034234 / 2 ^ 54"
    unfolding farTip_def nearTip_def
    using double_exact [where x = "5764607394185216 / 2 ^ 54 + 128849018 / 2 ^ 54"
        and e = "- 2" and m = 5764607523034234]
    by (simp add: pow2_def)
  have s3: "double (5764607523034234 / 2 ^ 54 + tinyTip) = 5764607523034235 / 2 ^ 54"
    unfolding tinyTip_def
    using double_near [where x = "5764607523034234 / 2 ^ 54 + 3 / 2 ^ 56" and e = "- 2"
        and m = 5764607523034235]
    by (simp add: pow2_def)
  have s4: "double (5764607523034235 / 2 ^ 54 + 0) = 5764607523034235 / 2 ^ 54"
    using double_exact [where x = "5764607523034235 / 2 ^ 54" and e = "- 2"
        and m = 5764607523034235]
    by (simp add: pow2_def)
  have s5: "double (5764607523034235 / 2 ^ 54 / 4) = 5764607523034235 / 2 ^ 56"
    using double_exact [where x = "5764607523034235 / 2 ^ 54 / 4" and e = "- 4"
        and m = 5764607523034235]
    by (simp add: pow2_def)
  show ?thesis
    unfolding FIST_THRESHOLD_eq dadd_def ddiv_def s1 s2 s3 s4 s5 ..
qed

lemma roundingFrame_isFist: "isFist roundingFrame = Inr False"
proof -
  have "avgDist roundingFrame = FIST_THRESHOLD"
    by (simp add: avgDist_eq roundingFrame_def roundingFrame_dist dist_same roundingFrame_sum)
  then show ?thesis by (simp add: isFist_def roundingFrame_def)
qed

lemma euclid_axis: "0 \<le> a \<Longrightarrow> euclid \<lparr>pt_x = a, pt_y = 0\<rparr> \<lparr>pt_x = 0, pt_y = 0\<rparr> = a"
  by (simp add: euclid_def)

lemma euclid_same_x: "euclid \<lparr>pt_x = a, pt_y = b\<rparr> \<lparr>pt_x = a, pt_y = c\<rparr> = \<bar>b - c\<bar>"
  by (simp add: euclid_def)

lemma roundingFrame_meanEuclid:
  "meanEuclid roundingFrame = (farTip + nearTip + tinyTip) / 4"
  using farTip_exact(1) nearTip_exact(1) tinyTip_exact(1)
  by (simp add: meanEuclid_def roundingFrame_def euclid_axis euclid_def)

lemma roundingFrame_below:
  "meanEuclid roundingFrame < FIST_THRESHOLD" "meanEuclid roundingFrame < 8 / 100"
  by (simp_all add: roundingFrame_meanEuclid FIST_THRESHOLD_eq farTip_def nearTip_def tinyTip_def)

paragraph \<open>Two frames for the vision service\<close>

lemma nine_tenths_scaled:
  "double (8106479329266893 / 18014398509481984) = 8106479329266893 / 18014398509481984"
  "double (8106479329266893 / 576460752303423488) = 8106479329266893 / 576460752303423488"
proof -
  show "double (8106479329266893 / 18014398509481984) = 8106479329266893 / 18014398509481984"
    by (rule double_exact [where e = "- 2" and m = 8106479329266893]) (simp_all add: pow2_def)
  show "double (8106479329266893 / 576460752303423488) = 8106479329266893 / 576460752303423488"
    by (rule double_exact [where e = "- 7" and m = 8106479329266893]) (simp_all add: pow2_def)
qed

lemma bigFist_detectGesture: "detectGesture bigFist = Inr FIST"
  by (simp add: detectGesture_def hypotDist_def dhypot_def dsub_def dmul_def bigFist_def Let_def
      double_minus double_dyadic sqrt_dyadic double_nine_tenths nine_tenths_scaled)

lemma smallOpenHand_detectGesture: "detectGesture smallOpenHand = Inr OPEN_PALM"
  by (simp add: detectGesture_def hypotDist_def dhypot_def dsub_def dmul_def smallOpenHand_def
      Let_def double_minus double_dyadic sqrt_dyadic double_nine_tenths nine_tenths_scaled)

lemma vision_meanEuclid: "meanEuclid bigFist = 3 / 16" "meanEuclid smallOpenHand = 1 / 32"
  by (simp_all add: meanEuclid_def bigFist_def smallOpenHand_def euclid_same_x)

paragraph \<open>The two hands and the fist test of the engine\<close>

lemma double_more_dyadic: "double (9 / 16) = 9 / 16" "double (3 / 32) = 3 / 32"
proof -
  show "double (9 / 16) = 9 / 16"
    by (rule double_exact [where e = "- 1" and m = "9 * 2 ^ 49"]) (simp_all add: pow2_def)
  show "double (3 / 32) = 3 / 32"
    by (rule double_exact [where e = "- 4" and m = "3 * 2 ^ 51"]) (simp_all add: pow2_def)
qed

lemma hands_dist:
  "dist \<lparr>pt_x = 1 / 2, pt_y = 9 / 16\<rparr> \<lparr>pt_x = 1 / 2, pt_y = 3 / 4\<rparr> = 3 / 16"
  "dist \<lparr>pt_x = 1 / 2, pt_y = 15 / 32\<rparr> \<lparr>pt_x = 1 / 2, pt_y = 1 / 2\<rparr> = 1 / 32"
  by (simp_all add: dist_def dsub_def dsquare_def dadd_def dsqrt_def double_minus double_dyadic
      sqrt_dyadic)

lemma bigFist_isFist: "isFist bigFist = Inr False"
  by (simp add: isFist_def avgDist_eq bigFist_def hands_dist dadd_def ddiv_def
      double_dyadic double_more_dyadic FIST_THRESHOLD_eq)

lemma smallOpenHand_isFist: "isFist smallOpenHand = Inr True"
  by (simp add: isFist_def avgDist_eq smallOpenHand_def hands_dist dadd_def ddiv_def
      double_dyadic double_more_dyadic FIST_THRESHOLD_eq)

lemma thresholdFrame_dists:
  "length thresholdFrame = 21"
  "dist (thresholdFrame ! 8) (thresholdFrame ! 0) = FIST_THRESHOLD"
  "dist (thresholdFrame ! 12) (thresholdFrame ! 0) = FIST_THRESHOLD"
  "dist (thresholdFrame ! 16) (thresholdFrame ! 0) = FIST_THRESHOLD"
  "dist (thresholdFrame ! 20) (thresholdFrame ! 0) = FIST_THRESHOLD"
  by (simp_all add: thresholdFrame_def threshold_dist)

text \<open>
  Claim C7 as amended. On a frame of 21 landmarks \<open>isFist\<close> answers whether the mean of
  the four fingertip-to-wrist distances, as the engine computes it, is strictly below
  \<open>FIST_THRESHOLD\<close>: the distances are added up from zero one by one and the sum is
  divided by 4, every sum and the quotient being rounded to a double. Each distance is
  the rounded root of the rounded sum of the rounded squares of the rounded differences,
  and the threshold is the double nearest to 0.08, which is
  \<open>5764607523034235 / 2 ^ 56\<close>. When the four computed distances equal the threshold,
  the answer is false. The answer is a function of the frame. The vision service of the
  other game has another test: \<open>detectGesture\<close> reports a fist exactly when each of the
  four distances from a fingertip to the base of its finger is below 0.9 times the
  distance from the wrist to the base of the index finger.
\<close>

theorem isFist_rounded_mean_below_threshold:
  "(length lm = 21 \<longrightarrow>
      isFist lm =
        Inr (ddiv (dadd (dadd (dadd (dadd 0 (dist (lm ! 8) (lm ! 0))) (dist (lm ! 12) (lm ! 0)))
                              (dist (lm ! 16) (lm ! 0))) (dist (lm ! 20) (lm ! 0))) 4
             < FIST_THRESHOLD))
   \<and> (length lm1 = 21 \<and> dist (lm1 ! 8) (lm1 ! 0) = FIST_THRESHOLD
        \<and> dist (lm1 ! 12) (lm1 ! 0) = FIST_THRESHOLD
        \<and> dist (lm1 ! 16) (lm1 ! 0) = FIST_THRESHOLD
        \<and> dist (lm1 ! 20) (lm1 ! 0) = FIST_THRESHOLD \<longrightarrow>
      isFist lm1 = Inr False)
   \<and> dist p q =
       double (sqrt (double (double (double (pt_x p - pt_x q) * double (pt_x p - pt_x q))
                             + double (double (pt_y p - pt_y q) * double (pt_y p - pt_y q)))))
   \<and> dadd a b = double (a + b) \<and> ddiv a b = double (a / b)
   \<and> FIST_THRESHOLD = double (8 / 100) \<and> FIST_THRESHOLD = 5764607523034235 / 2 ^ 56
   \<and> (length lm2 = 21 \<longrightarrow>
      (detectGesture lm2 = Inr FIST \<longleftrightarrow>
         hypotDist (lm2 ! 8) (lm2 ! 5) < dmul (hypotDist (lm2 ! 0) (lm2 ! 5)) (double (9 / 10))
         \<and> hypotDist (lm2 ! 12) (lm2 ! 9)
             < dmul (hypotDist (lm2 ! 0) (lm2 ! 5)) (double (9 / 10))
         \<and> hypotDist (lm2 ! 16) (lm2 ! 13)
             < dmul (hypotDist (lm2 ! 0) (lm2 ! 5)) (double (9 / 10))
         \<and> hypotDist (lm2 ! 20) (lm2 ! 17)
             < dmul (hypotDist (lm2 ! 0) (lm2 ! 5)) (double (9 / 10))))"
proof -
  have a: "isFist lm =
        Inr (ddiv (dadd (dadd (dadd (dadd 0 (dist (lm ! 8) (lm ! 0))) (dist (lm ! 12) (lm ! 0)))
                              (dist (lm ! 16) (lm ! 0))) (dist (lm ! 20) (lm ! 0))) 4
             < FIST_THRESHOLD)" if "length lm = 21"
    using that by (simp add: isFist_def avgDist_eq)
  have b: "isFist lm1 = Inr False"
    if "length lm1 = 21 \<and> dist (lm1 ! 8) (lm1 ! 0) = FIST_THRESHOLD
        \<and> dist (lm1 ! 12) (lm1 ! 0) = FIST_THRESHOLD
        \<and> dist (lm1 ! 16) (lm1 ! 0) = FIST_THRESHOLD
        \<and> dist (lm1 ! 20) (lm1 ! 0) = FIST_THRESHOLD"
  proof -
    have "avgDist lm1 = FIST_THRESHOLD"
      unfolding avgDist_eq using that by (simp add: threshold_sum)
    then show ?thesis using that by (simp add: isFist_def)
  qed
  have c: "dist p q =
       double (sqrt (double (double (double (pt_x p - pt_x q) * double (pt_x p - pt_x q))
                             + double (double (pt_y p - pt_y q) * double (pt_y p - pt_y q)))))"
    by (simp add: dist_def dsqrt_def dadd_def dsquare_def dsub_def)
  have d: "dadd a b = double (a + b)" "ddiv a b = double (a / b)"
    by (simp_all add: dadd_def ddiv_def)
  have e: "FIST_THRESHOLD = double (8 / 100)" "FIST_THRESHOLD = 5764607523034235 / 2 ^ 56"
    by (rule FIST_THRESHOLD_def, rule FIST_THRESHOLD_eq)
  have f: "detectGesture lm2 = Inr FIST \<longleftrightarrow>
         hypotDist (lm2 ! 8) (lm2 ! 5) < dmul (hypotDist (lm2 ! 0) (lm2 ! 5)) (double (9 / 10))
         \<and> hypotDist (lm2 ! 12) (lm2 ! 9)
             < dmul (hypotDist (lm2 ! 0) (lm2 ! 5)) (double (9 / 10))
         \<and> hypotDist (lm2 ! 16) (lm2 ! 13)
             < dmul (hypotDist (lm2 ! 0) (lm2 ! 5)) (double (9 / 10))
         \<and> hypotDist (lm2 ! 20) (lm2 ! 17)
             < dmul (hypotDist (lm2 ! 0) (lm2 ! 5)) (double (9 / 10))" if "length lm2 = 21"
    using that by (simp add: detectGesture_def Let_def)
  show ?thesis
    using a b c d e f by blast
qed

theorem isFist_rounded_mean_below_threshold_witness:
  "length fistFrame = 21 \<and> isFist fistFrame = Inr True
   \<and> length thresholdFrame = 21
   \<and> dist (thresholdFrame ! 8) (thresholdFrame ! 0) = FIST_THRESHOLD
   \<and> dist (thresholdFrame ! 12) (thresholdFrame ! 0) = FIST_THRESHOLD
   \<and> dist (thresholdFrame ! 16) (thresholdFrame ! 0) = FIST_THRESHOLD
   \<and> dist (thresholdFrame ! 20) (thresholdFrame ! 0) = FIST_THRESHOLD
   \<and> isFist thresholdFrame = Inr False
   \<and> isFist openFrame = Inr False
   \<and> length bigFist = 21 \<and> detectGesture bigFist = Inr FIST
   \<and> hypotDist (bigFist ! 8) (bigFist ! 5)
       < dmul (hypotDist (bigFist ! 0) (bigFist ! 5)) (double (9 / 10))"
proof -
  have l: "length fistFrame = 21" "length bigFist = 21"
    by (simp_all add: fistFrame_def bigFist_def)
  show ?thesis
    using isFist_rounded_mean_below_threshold [where lm = fistFrame
        and ?lm1.0 = thresholdFrame and ?lm2.0 = bigFist]
      l thresholdFrame_dists fistFrame_isFist openFrame_isFist bigFist_detectGesture
    by simp
qed

text \<open>
  Claim C7 as stated fails: the fist test is not a comparison of the mean distance with a
  fixed threshold. In the engine the mean is a rounded sum: on \<open>roundingFrame\<close> the mean
  of the four distances is strictly below the threshold, both the double and the decimal
  0.08, and \<open>isFist\<close> answers false. In the vision service the threshold is relative to
  the size of the hand: the closed hand \<open>bigFist\<close>, whose fingertips are on average 3/16
  from the wrist, is a fist, and the open hand \<open>smallOpenHand\<close>, whose fingertips are on
  average 1/32 from the wrist, is not; the engine judges the two hands the other way
  round.
\<close>

theorem fist_is_not_mean_below_fixed_threshold:
  "length roundingFrame = 21
   \<and> meanEuclid roundingFrame < FIST_THRESHOLD \<and> meanEuclid roundingFrame < 8 / 100
   \<and> isFist roundingFrame = Inr False
   \<and> length bigFist = 21 \<and> length smallOpenHand = 21
   \<and> meanEuclid smallOpenHand = 1 / 32 \<and> meanEuclid bigFist = 3 / 16
   \<and> detectGesture bigFist = Inr FIST \<and> detectGesture smallOpenHand = Inr OPEN_PALM
   \<and> isFist bigFist = Inr False \<and> isFist smallOpenHand = Inr True"
proof -
  have "length roundingFrame = 21" "length bigFist = 21" "length smallOpenHand = 21"
    by (simp_all add: roundingFrame_def bigFist_def smallOpenHand_def)
  then show ?thesis
    using roundingFrame_below roundingFrame_isFist vision_meanEuclid bigFist_detectGesture
      smallOpenHand_detectGesture bigFist_isFist smallOpenHand_isFist
    by simp
qed

subsection \<open>C8: losing and finding the hand\<close>

lemma processInput_Some_hand:
  assumes "processInput (Some f) r s = Inr s1"
  shows "missingHandFrames s1 = 0" "handDetected s1"
    "handStatus s1 = (if handDetected s then handStatus s else ''Hand Detected'')"
proof -
  let ?m = "markDetected (s\<lparr>missingHandFrames := 0\<rparr>)"
  from assms obtain s2 where p: "updatePlayerPaddle f ?m = Inr s2"
    by (auto simp: processInput_def split: sum.splits)
  have h2: "missingHandFrames s2 = 0" "handDetected s2"
    "handStatus s2 = (if handDetected s then handStatus s else ''Hand Detected'')"
    using updatePlayerPaddle_Inr(8,9,10) [OF p] by (simp_all add: markDetected_handStatus)
  from assms p have "s1 = s2 \<or> s1 = startGame r s2 \<or> s1 = triggerServe s2"
    by (auto simp: processInput_def split: sum.splits if_splits)
  then have "missingHandFrames s1 = 0 \<and> handDetected s1
      \<and> handStatus s1 = (if handDetected s then handStatus s else ''Hand Detected'')"
    using h2 by auto
  then show "missingHandFrames s1 = 0" "handDetected s1"
    "handStatus s1 = (if handDetected s then handStatus s else ''Hand Detected'')"
    by simp_all
qed

lemma update_Some_hand:
  assumes "update (Some f) r s = Inr s'"
  shows "missingHandFrames s' = 0" "handDetected s'"
    "handStatus s' = (if handDetected s then handStatus s else ''Hand Detected'')"
proof -
  from assms obtain s1 where p: "processInput (Some f) r s = Inr s1"
    and s': "s' = ballPhysics r (aiLogic s1)"
    by (auto simp: update_def split: sum.splits)
  show "missingHandFrames s' = 0" "handDetected s'"
    "handStatus s' = (if handDetected s then handStatus s else ''Hand Detected'')"
    using processInput_Some_hand [OF p] s' by simp_all
qed

lemma markMissing_handStatus:
  "handStatus (markMissing s) =
     (if handDetected s \<and> 30 < missingHandFrames s + 1
      then ''Lost Tracking - Raise Hand'' else handStatus s)"
  by (simp add: markMissing_def Let_def)

lemma update_None_hand:
  assumes "update None r s = Inr s'"
  shows "missingHandFrames s' = missingHandFrames s + 1"
    "handDetected s' \<longleftrightarrow> handDetected s \<and> missingHandFrames s + 1 \<le> 30"
    "handStatus s' = (if handDetected s \<and> 30 < missingHandFrames s + 1
                      then ''Lost Tracking - Raise Hand'' else handStatus s)"
proof -
  from assms have s': "s' = ballPhysics r (aiLogic (markMissing s))"
    by (auto simp: update_def processInput_def)
  show "missingHandFrames s' = missingHandFrames s + 1"
    "handDetected s' \<longleftrightarrow> handDetected s \<and> missingHandFrames s + 1 \<le> 30"
    "handStatus s' = (if handDetected s \<and> 30 < missingHandFrames s + 1
                      then ''Lost Tracking - Raise Hand'' else handStatus s)"
    unfolding s' by (simp_all add: markMissing_handDetected markMissing_handStatus)
qed

lemma run_append:
  "run s (ts @ us) = (case run s ts of Inl e \<Rightarrow> Inl e | Inr s1 \<Rightarrow> run s1 us)"
  by (induction ts arbitrary: s) (auto split: sum.splits)

lemma absentTail_snoc:
  "absentTail (ts @ [(lm, r)]) = (if lm = None then Suc (absentTail ts) else 0)"
  by (simp add: absentTail_def)

lemma run_absentTail:
  "run s ts = Inr s' \<Longrightarrow> \<exists>t\<in>set ts. fst t \<noteq> None \<Longrightarrow>
   missingHandFrames s' = absentTail ts \<and> (handDetected s' \<or> 30 < absentTail ts)"
proof (induction ts arbitrary: s' rule: rev_induct)
  case Nil
  then show ?case by simp
next
  case (snoc t ts)
  obtain lm r where t: "t = (lm, r)" by (cases t)
  from snoc.prems(1) t obtain s1 where r1: "run s ts = Inr s1" and u: "update lm r s1 = Inr s'"
    by (auto simp: run_append split: sum.splits)
  show ?case
  proof (cases lm)
    case (Some f)
    then show ?thesis
      using update_Some_hand(1,2) [of f r s1 s'] u t by (simp add: absentTail_snoc)
  next
    case None
    with snoc.prems(2) t have "\<exists>t\<in>set ts. fst t \<noteq> None" by auto
    then have ih: "missingHandFrames s1 = absentTail ts"
      "handDetected s1 \<or> 30 < absentTail ts"
      using snoc.IH [OF r1] by simp_all
    show ?thesis
      using update_None_hand(1,2) [of r s1 s'] u None t ih
      by (auto simp: absentTail_snoc)
  qed
qed

lemma handAway_tick:
  "update None draws handAway
     = Inr (handAway\<lparr>ball := (ball handAway)\<lparr>ball_y := 307\<rparr>, missingHandFrames := 31,
              handDetected := False, handStatus := ''Lost Tracking - Raise Hand''\<rparr>)"
  by (simp add: update_def processInput_def markMissing_def aiLogic_def ballPhysics_def
      playing_def afterAI_def moveBall_def hitsAI_def hitsPlayer_def
      fp_consts returnState_def midField_def handAway_def draws_def Let_def)

lemma waiting_tick: "update (Some openFrame) draws waiting = Inr handSeen"
proof -
  have "isFist openFrame = Inr False" by (rule openFrame_isFist)
  moreover have "length openFrame = 21" "pt_x (openFrame ! 8) = 1 / 2"
    by (simp_all add: openFrame_def)
  ultimately show ?thesis
    by (simp add: update_def processInput_def markDetected_def updatePlayerPaddle_def
        aiLogic_def ballPhysics_def fp_consts waiting_def handSeen_def cameraReady_def
        initial_def Let_def)
qed

lemma handSeen_tick: "update None draws handSeen = Inr (handSeen\<lparr>missingHandFrames := 1\<rparr>)"
  by (simp add: update_def processInput_def markMissing_def aiLogic_def ballPhysics_def
      waiting_def handSeen_def cameraReady_def initial_def Let_def)

text \<open>
  Claim C8. A tick without a hand frame adds one to the counter of missing frames and
  turns "hand detected" off only when the counter, after the increment, exceeds 30. A
  tick with a hand frame sets the counter to zero and "hand detected" on, and reports
  "Hand Detected" if the hand was absent before. Over a run of the loop that has seen a
  hand frame, the counter is the number of ticks without a frame at the end of the run,
  and the hand can only count as lost if there are more than 30 of them.
\<close>

theorem hand_lost_after_thirty_frames:
  "(update None r s = Inr s' \<longrightarrow>
      missingHandFrames s' = missingHandFrames s + 1
      \<and> (handDetected s' \<longleftrightarrow> handDetected s \<and> missingHandFrames s' \<le> 30))
   \<and> (update None r1 s1 = Inr t1 \<and> handDetected s1 \<and> \<not> handDetected t1 \<longrightarrow>
        30 < missingHandFrames t1 \<and> handStatus t1 = ''Lost Tracking - Raise Hand'')
   \<and> (update (Some f) r2 s2 = Inr t2 \<longrightarrow>
        missingHandFrames t2 = 0 \<and> handDetected t2
        \<and> (\<not> handDetected s2 \<longrightarrow> handStatus t2 = ''Hand Detected''))
   \<and> (run s3 ts = Inr t3 \<and> (\<exists>t\<in>set ts. fst t \<noteq> None) \<longrightarrow>
        missingHandFrames t3 = absentTail ts \<and> (\<not> handDetected t3 \<longrightarrow> 30 < absentTail ts))"
proof (intro conjI impI)
  assume a: "update None r s = Inr s'"
  show "missingHandFrames s' = missingHandFrames s + 1"
    using update_None_hand(1) [OF a] .
  then show "handDetected s' \<longleftrightarrow> handDetected s \<and> missingHandFrames s' \<le> 30"
    using update_None_hand(2) [OF a] by simp
next
  assume a: "update None r1 s1 = Inr t1 \<and> handDetected s1 \<and> \<not> handDetected t1"
  then have u: "update None r1 s1 = Inr t1" by simp
  show "30 < missingHandFrames t1"
    using update_None_hand(1,2) [OF u] a by simp
  show "handStatus t1 = ''Lost Tracking - Raise Hand''"
    using update_None_hand(2,3) [OF u] a by simp
next
  assume a: "update (Some f) r2 s2 = Inr t2"
  show "missingHandFrames t2 = 0" "handDetected t2"
    using update_Some_hand(1,2) [OF a] .
  assume "\<not> handDetected s2"
  then show "handStatus t2 = ''Hand Detected''"
    using update_Some_hand(3) [OF a] by simp
next
  assume a: "run s3 ts = Inr t3 \<and> (\<exists>t\<in>set ts. fst t \<noteq> None)"
  then have b: "missingHandFrames t3 = absentTail ts \<and> (handDetected t3 \<or> 30 < absentTail ts)"
    using run_absentTail by blast
  then show "missingHandFrames t3 = absentTail ts" by simp
  assume "\<not> handDetected t3"
  then show "30 < absentTail ts" using b by simp
qed

theorem hand_lost_after_thirty_frames_witness:
  "update None draws handAway
     = Inr (handAway\<lparr>ball := (ball handAway)\<lparr>ball_y := 307\<rparr>, missingHandFrames := 31,
              handDetected := False, handStatus := ''Lost Tracking - Raise Hand''\<rparr>)
   \<and> handDetected handAway \<and> missingHandFrames handAway = 30
   \<and> update (Some openFrame) draws waiting = Inr handSeen
   \<and> \<not> handDetected waiting
   \<and> missingHandFrames handSeen = 0 \<and> handDetected handSeen
   \<and> handStatus handSeen = ''Hand Detected''
   \<and> run waiting [(Some openFrame, draws), (None, draws)]
       = Inr (handSeen\<lparr>missingHandFrames := 1\<rparr>)
   \<and> absentTail [(Some openFrame, draws), (None, draws)] = 1"
proof -
  let ?lost = "handAway\<lparr>ball := (ball handAway)\<lparr>ball_y := 307\<rparr>, missingHandFrames := 31,
              handDetected := False, handStatus := ''Lost Tracking - Raise Hand''\<rparr>"
  have a: "handDetected handAway" "missingHandFrames handAway = 30" "\<not> handDetected ?lost"
    by (simp_all add: handAway_def midField_def returnState_def)
  have b: "\<not> handDetected waiting"
    by (simp add: waiting_def cameraReady_def initial_def)
  have c: "run waiting [(Some openFrame, draws), (None, draws)]
       = Inr (handSeen\<lparr>missingHandFrames := 1\<rparr>)"
    by (simp add: waiting_tick handSeen_tick)
  have d: "absentTail [(Some openFrame, draws), (None, draws)] = 1"
    by (simp add: absentTail_def)
  show ?thesis
    using hand_lost_after_thirty_frames [where r = draws and s = handAway and s' = ?lost
        and ?r1.0 = draws and ?s1.0 = handAway and ?t1.0 = ?lost
        and f = openFrame and ?r2.0 = draws and ?s2.0 = waiting and ?t2.0 = handSeen
        and ?s3.0 = waiting and ts = "[(Some openFrame, draws), (None, draws)]"
        and ?t3.0 = "handSeen\<lparr>missingHandFrames := 1\<rparr>"]
      handAway_tick waiting_tick a b c d
    by simp
qed

subsection \<open>C9: the opponent's serve\<close>










subsection \<open>C10: the start of a match\<close>

lemma ballPhysics_after_startGame:
  "gameState (ballPhysics r (aiLogic (startGame r s))) = SERVING"
  "scores (ballPhysics r (aiLogic (startGame r s))) = \<lparr>player = 0, ai = 0\<rparr>"
  "servesCount (ballPhysics r (aiLogic (startGame r s))) = 0"
  "serveTurn (ballPhysics r (aiLogic (startGame r s))) = PLAYER"
  by (simp_all add: ballPhysics_def serving_gameState)

lemma update_new_match:
  assumes "gameState s \<noteq> SERVING" "gameState s \<noteq> PLAYING" "update lm r s = Inr s'"
  shows "(gameState s' = gameState s \<or> gameState s' = MENU) \<and> scores s' = scores s
           \<and> servesCount s' = servesCount s \<and> serveTurn s' = serveTurn s
       \<or> (\<exists>f. lm = Some f \<and> isFist f = Inr True) \<and> gameState s' = SERVING
           \<and> scores s' = \<lparr>player = 0, ai = 0\<rparr> \<and> servesCount s' = 0 \<and> serveTurn s' = PLAYER"
proof (cases lm)
  case None
  with assms show ?thesis
    by (auto simp: update_def processInput_def ballPhysics_def)
next
  case (Some f)
  let ?m = "markDetected (s\<lparr>missingHandFrames := 0\<rparr>)"
  from assms Some obtain s2 where p: "updatePlayerPaddle f ?m = Inr s2"
    by (auto simp: update_def processInput_def split: sum.splits)
  have g2: "gameState s2 = gameState s \<or> gameState s2 = MENU"
    "gameState s2 \<noteq> SERVING" "gameState s2 \<noteq> PLAYING"
    "scores s2 = scores s" "servesCount s2 = servesCount s" "serveTurn s2 = serveTurn s"
    using updatePlayerPaddle_Inr(1,2,3,4) [OF p] assms(1,2)
    by (auto simp: markDetected_gameState)
  from assms(3) Some p g2(2) have
    "s' = ballPhysics r (aiLogic s2)
     \<or> isFist f = Inr True \<and> s' = ballPhysics r (aiLogic (startGame r s2))"
    by (auto simp: update_def processInput_def split: sum.splits if_splits)
  then show ?thesis
  proof
    assume "s' = ballPhysics r (aiLogic s2)"
    then show ?thesis using g2 by (auto simp: ballPhysics_def)
  next
    assume "isFist f = Inr True \<and> s' = ballPhysics r (aiLogic (startGame r s2))"
    then show ?thesis using Some by (simp add: ballPhysics_after_startGame)
  qed
qed

lemma update_fist_starts:
  assumes "gameState s = MENU \<or> gameState s = GAME_OVER" "isFist f = Inr True"
    "update (Some f) r s = Inr s'"
  shows "gameState s' = SERVING \<and> scores s' = \<lparr>player = 0, ai = 0\<rparr> \<and> servesCount s' = 0
       \<and> serveTurn s' = PLAYER"
proof -
  let ?m = "markDetected (s\<lparr>missingHandFrames := 0\<rparr>)"
  from assms obtain s2 where p: "updatePlayerPaddle f ?m = Inr s2"
    by (auto simp: update_def processInput_def split: sum.splits)
  have "gameState s2 = MENU \<or> gameState s2 = GAME_OVER"
    using updatePlayerPaddle_Inr(1) [OF p] assms(1) by (auto simp: markDetected_gameState)
  with assms(2,3) p have "s' = ballPhysics r (aiLogic (startGame r s2))"
    by (auto simp: update_def processInput_def split: sum.splits)
  then show ?thesis by (simp add: ballPhysics_after_startGame)
qed

lemma pm_fresh_cong:
  "pm_scores t = pm_scores s \<Longrightarrow> pm_servesCount t = pm_servesCount s \<Longrightarrow> server t = server s
   \<Longrightarrow> pm_fresh t = pm_fresh s"
  by (simp add: pm_fresh_def)

lemma PlayAgain_fresh:
  assumes "pm_gameState c = PM_GAME_OVER"
  shows "pm_fresh (appStep (PlayAgain now) c)"
    "pm_gameState (appStep (PlayAgain now) c) \<in> {PM_MENU, PM_HAND_DETECTED}"
  using assms
  by (simp_all add: appStep_def pm_fresh_def stateMachine_def restartGame_def)

lemma appStep_gameState:
  "pm_gameState (appStep e c) = pm_gameState c
   \<or> (pm_gameState c = PM_LOADING \<and> pm_gameState (appStep e c) \<in> {PM_MENU, PM_HAND_DETECTED})
   \<or> (pm_gameState c = PM_MENU \<and> pm_gameState (appStep e c) = PM_HAND_DETECTED)
   \<or> (pm_gameState c = PM_HAND_DETECTED \<and> pm_gameState (appStep e c) = PM_COUNTDOWN)
   \<or> (pm_gameState c = PM_COUNTDOWN \<and> e = Countdown \<and> pm_gameState (appStep e c) = PM_PLAYING)
   \<or> (pm_gameState c = PM_PLAYING \<and> pm_gameState (appStep e c) = PM_GAME_OVER)
   \<or> (pm_gameState c = PM_GAME_OVER \<and> pm_gameState (appStep e c) \<in> {PM_MENU, PM_HAND_DETECTED})"
proof (cases e)
  case (Frame now rnd)
  have "pm_gameState (pm_update now rnd c) = pm_gameState c
      \<or> pm_gameState c = PM_PLAYING \<and> pm_gameState (pm_update now rnd c) = PM_GAME_OVER"
  proof (cases "pm_gameState c = PM_PLAYING \<and> \<not> isServing c")
    case True
    then have e: "pm_update now rnd c = physicsStep now (lerpPaddle c)"
      by (simp add: pm_update_def Let_def)
    have "pm_gameState (s\<lparr>aiPaddleX := a, pm_ball := b\<rparr>) = pm_gameState s" for s :: Canvas and a b
      by simp
    then have "pm_gameState (physicsStep now (lerpPaddle c)) = PM_PLAYING
        \<or> pm_gameState (physicsStep now (lerpPaddle c)) = PM_GAME_OVER"
      using physicsStep_cases [of now "lerpPaddle c"] True
      by (auto simp: handleScoring_gameState)
    then show ?thesis using e True by auto
  next
    case False
    then show ?thesis by (auto simp: pm_update_def Let_def)
  qed
  then show ?thesis using Frame by (auto simp: appStep_def)
qed (auto simp: appStep_def stateMachine_def startCountdown_def handleCameraReady_def
      countdownTick_def restartGame_def)

lemma appStep_fresh:
  assumes "pm_gameState c \<noteq> PM_PLAYING" "pm_fresh c"
  shows "pm_fresh (appStep e c)"
  using assms
  by (cases e) (simp_all add: appStep_def pm_update_def pm_fresh_def restartGame_def)

lemma appStep_beforeMatchFresh:
  assumes "beforeMatchFresh c"
  shows "beforeMatchFresh (appStep e c)"
proof (cases "pm_gameState c = PM_PLAYING")
  case True
  then show ?thesis
    using appStep_gameState [of e c] by (auto simp: beforeMatchFresh_def)
next
  case False
  show ?thesis
  proof (cases "pm_gameState c = PM_GAME_OVER")
    case True
    then show ?thesis
      using appStep_gameState [of e c] appStep_GAME_OVER_terminal [of c e]
        PlayAgain_fresh(1) [of c]
      by (auto simp: beforeMatchFresh_def)
  next
    case False
    with \<open>pm_gameState c \<noteq> PM_PLAYING\<close> assms have "pm_fresh c"
      by (simp add: beforeMatchFresh_def)
    then show ?thesis
      using appStep_fresh [OF \<open>pm_gameState c \<noteq> PM_PLAYING\<close>] by (simp add: beforeMatchFresh_def)
  qed
qed

lemma pm_run_beforeMatchFresh:
  "beforeMatchFresh s \<Longrightarrow> beforeMatchFresh (pm_run s es)"
  by (induction es arbitrary: s) (simp_all add: appStep_beforeMatchFresh)

lemma pm_initial_fresh: "beforeMatchFresh (pm_initial now)"
  by (simp add: beforeMatchFresh_def pm_fresh_def pm_initial_def)

lemma enter_PLAYING_fresh:
  assumes "beforeMatchFresh c" "pm_gameState c \<noteq> PM_PLAYING"
    "pm_gameState (appStep e c) = PM_PLAYING"
  shows "pm_fresh (appStep e c)"
proof -
  have "pm_gameState c = PM_COUNTDOWN"
    using appStep_gameState [of e c] assms(2,3) by auto
  then have "pm_fresh c"
    using assms(1) by (simp add: beforeMatchFresh_def)
  then show ?thesis
    by (rule appStep_fresh [OF assms(2)])
qed

lemma wonMatch_fist_tick: "update (Some fistFrame) draws wonMatch = Inr rematch"
proof -
  have "isFist fistFrame = Inr True" by (rule fistFrame_isFist)
  moreover have "length fistFrame = 21" "pt_x (fistFrame ! 8) = 1 / 2"
    by (simp_all add: fistFrame_def)
  ultimately show ?thesis
    by (simp add: update_def processInput_def markDetected_def updatePlayerPaddle_def
        startGame_def startServePhase_def serveError_def resetBall_def
        aiLogic_def ballPhysics_def serving_def fp_consts wonMatch_def matchPoint_def
        rematch_def draws_def Let_def)
qed

lemma toCountdown_run:
  "pm_gameState (pm_run (pm_initial 0) toCountdown) = PM_COUNTDOWN
   \<and> countdown (pm_run (pm_initial 0) toCountdown) = 0"
  by (simp add: toCountdown_def appStep_def handleCameraReady_def stateMachine_def
      startCountdown_def countdownTick_def pm_initial_def resetEffect_def pm_resetBall_def
      Let_def)

lemma toCountdown_play:
  "pm_gameState (appStep Countdown (pm_run (pm_initial 0) toCountdown)) = PM_PLAYING"
  using toCountdown_run by (simp add: appStep_def countdownTick_def)

text \<open>
  Claim C10. In the engine a fist seen in \<open>MENU\<close> or \<open>GAME_OVER\<close> starts a match with
  both scores 0, the serve counter 0 and the player to serve, and there is no other way
  into \<open>SERVING\<close> or \<open>PLAYING\<close> from outside a match. In the other game the "Play
  Again" button leaves the canvas with both scores 0, the counter 0 and the player to
  serve, whatever the match before was, and whenever the phase becomes \<open>PLAYING\<close>, at
  the first start or after a restart, the canvas is in that condition.
\<close>

theorem new_match_starts_fresh:
  "((gameState s = MENU \<or> gameState s = GAME_OVER) \<and> isFist f = Inr True
      \<and> update (Some f) r s = Inr s' \<longrightarrow>
      gameState s' = SERVING \<and> scores s' = \<lparr>player = 0, ai = 0\<rparr> \<and> servesCount s' = 0
      \<and> serveTurn s' = PLAYER)
   \<and> (gameState s1 \<noteq> SERVING \<and> gameState s1 \<noteq> PLAYING \<and> update lm r1 s1 = Inr t1
        \<and> (gameState t1 = SERVING \<or> gameState t1 = PLAYING) \<longrightarrow>
        gameState t1 = SERVING \<and> scores t1 = \<lparr>player = 0, ai = 0\<rparr> \<and> servesCount t1 = 0
        \<and> serveTurn t1 = PLAYER)
   \<and> (pm_gameState c = PM_GAME_OVER \<longrightarrow>
        pm_scores (appStep (PlayAgain now) c) = \<lparr>player = 0, ai = 0\<rparr>
        \<and> pm_servesCount (appStep (PlayAgain now) c) = 0
        \<and> server (appStep (PlayAgain now) c) = ServerPlayer
        \<and> pm_gameState (appStep (PlayAgain now) c) \<in> {PM_MENU, PM_HAND_DETECTED})
   \<and> (pm_gameState (pm_run (pm_initial t0) es) \<noteq> PM_PLAYING
        \<and> pm_gameState (appStep e (pm_run (pm_initial t0) es)) = PM_PLAYING \<longrightarrow>
        pm_scores (appStep e (pm_run (pm_initial t0) es)) = \<lparr>player = 0, ai = 0\<rparr>
        \<and> pm_servesCount (appStep e (pm_run (pm_initial t0) es)) = 0
        \<and> server (appStep e (pm_run (pm_initial t0) es)) = ServerPlayer)"
proof (intro conjI impI)
  assume "(gameState s = MENU \<or> gameState s = GAME_OVER) \<and> isFist f = Inr True
      \<and> update (Some f) r s = Inr s'"
  then have "gameState s' = SERVING \<and> scores s' = \<lparr>player = 0, ai = 0\<rparr> \<and> servesCount s' = 0
       \<and> serveTurn s' = PLAYER"
    using update_fist_starts by blast
  then show "gameState s' = SERVING" "scores s' = \<lparr>player = 0, ai = 0\<rparr>" "servesCount s' = 0"
    "serveTurn s' = PLAYER"
    by simp_all
next
  assume a: "gameState s1 \<noteq> SERVING \<and> gameState s1 \<noteq> PLAYING \<and> update lm r1 s1 = Inr t1
        \<and> (gameState t1 = SERVING \<or> gameState t1 = PLAYING)"
  then have "gameState t1 = SERVING \<and> scores t1 = \<lparr>player = 0, ai = 0\<rparr> \<and> servesCount t1 = 0
        \<and> serveTurn t1 = PLAYER"
    using update_new_match [of s1 lm r1 t1] by auto
  then show "gameState t1 = SERVING" "scores t1 = \<lparr>player = 0, ai = 0\<rparr>" "servesCount t1 = 0"
    "serveTurn t1 = PLAYER"
    by simp_all
next
  assume a: "pm_gameState c = PM_GAME_OVER"
  show "pm_scores (appStep (PlayAgain now) c) = \<lparr>player = 0, ai = 0\<rparr>"
    "pm_servesCount (appStep (PlayAgain now) c) = 0"
    "server (appStep (PlayAgain now) c) = ServerPlayer"
    using PlayAgain_fresh(1) [OF a, of now] by (simp_all add: pm_fresh_def)
  show "pm_gameState (appStep (PlayAgain now) c) \<in> {PM_MENU, PM_HAND_DETECTED}"
    using PlayAgain_fresh(2) [OF a] .
next
  assume a: "pm_gameState (pm_run (pm_initial t0) es) \<noteq> PM_PLAYING
        \<and> pm_gameState (appStep e (pm_run (pm_initial t0) es)) = PM_PLAYING"
  have "beforeMatchFresh (pm_run (pm_initial t0) es)"
    by (simp add: pm_run_beforeMatchFresh pm_initial_fresh)
  then have "pm_fresh (appStep e (pm_run (pm_initial t0) es))"
    using enter_PLAYING_fresh a by blast
  then show "pm_scores (appStep e (pm_run (pm_initial t0) es)) = \<lparr>player = 0, ai = 0\<rparr>"
    "pm_servesCount (appStep e (pm_run (pm_initial t0) es)) = 0"
    "server (appStep e (pm_run (pm_initial t0) es)) = ServerPlayer"
    by (simp_all add: pm_fresh_def)
qed

theorem new_match_starts_fresh_witness:
  "gameState wonMatch = GAME_OVER \<and> scores wonMatch = \<lparr>player = 11, ai = 9\<rparr>
   \<and> serveTurn wonMatch = AI \<and> servesCount wonMatch = 1
   \<and> isFist fistFrame = Inr True
   \<and> update (Some fistFrame) draws wonMatch = Inr rematch
   \<and> gameState rematch = SERVING \<and> scores rematch = \<lparr>player = 0, ai = 0\<rparr>
   \<and> servesCount rematch = 0 \<and> serveTurn rematch = PLAYER
   \<and> pm_gameState (appStep (Frame 0 (1 / 2)) pm_matchPoint) = PM_GAME_OVER
   \<and> server (appStep (Frame 0 (1 / 2)) pm_matchPoint) = ServerAI
   \<and> server (appStep (PlayAgain 0) (appStep (Frame 0 (1 / 2)) pm_matchPoint)) = ServerPlayer
   \<and> pm_gameState (pm_run (pm_initial 0) toCountdown) \<noteq> PM_PLAYING
   \<and> pm_gameState (appStep Countdown (pm_run (pm_initial 0) toCountdown)) = PM_PLAYING
   \<and> pm_servesCount (appStep Countdown (pm_run (pm_initial 0) toCountdown)) = 0"
proof -
  have a: "gameState wonMatch = GAME_OVER" "scores wonMatch = \<lparr>player = 11, ai = 9\<rparr>"
    "serveTurn wonMatch = AI" "servesCount wonMatch = 1"
    "gameState rematch = SERVING" "scores rematch = \<lparr>player = 0, ai = 0\<rparr>"
    "servesCount rematch = 0" "serveTurn rematch = PLAYER"
    by (simp_all add: wonMatch_def matchPoint_def rematch_def)
  have b: "pm_gameState (appStep (Frame 0 (1 / 2)) pm_matchPoint) = PM_GAME_OVER"
    "server (appStep (Frame 0 (1 / 2)) pm_matchPoint) = ServerAI"
    by (simp_all add: pm_matchPoint_tick) (simp add: pm_matchPoint_def)
  have c: "pm_gameState (pm_run (pm_initial 0) toCountdown) \<noteq> PM_PLAYING"
    using toCountdown_run by simp
  show ?thesis
    using new_match_starts_fresh [where s = wonMatch and f = fistFrame and r = draws
        and s' = rematch and ?s1.0 = wonMatch and lm = "Some fistFrame" and ?r1.0 = draws
        and ?t1.0 = rematch and c = "appStep (Frame 0 (1 / 2)) pm_matchPoint" and now = 0
        and ?t0.0 = 0 and es = toCountdown and e = Countdown]
      wonMatch_fist_tick fistFrame_isFist toCountdown_play a b c
    by simp
qed

end
